theory Spec2Isabelle
  imports Main
begin

section \<open>JavaScript string and array primitives used by the deployment code\<close>

text \<open>
  A \<^typ>\<open>string\<close> stands for a JavaScript string whose code units are below 256.
  The functions below are the \<open>String.prototype\<close> and \<open>Array.prototype\<close>
  methods the deployment module calls, with JavaScript's results on the edge cases
  (\<open>"".split(sep)\<close> is \<open>[""]\<close>, \<open>s.includes("")\<close> is true).
\<close>

definition startsWith :: "string \<Rightarrow> string \<Rightarrow> bool" where
  "startsWith s p = (take (length p) s = p)"

fun str_includes :: "string \<Rightarrow> string \<Rightarrow> bool" where
  "str_includes [] sub = (sub = [])"
| "str_includes (c # cs) sub = (startsWith (c # cs) sub \<or> str_includes cs sub)"

text \<open>White space of \<open>\s\<close> and of \<open>trim\<close>, among the code units below 256.\<close>

definition is_space :: "char \<Rightarrow> bool" where
  "is_space c = (c = CHR 0x09 \<or> c = CHR 0x0A \<or> c = CHR 0x0B \<or> c = CHR 0x0C
                 \<or> c = CHR 0x0D \<or> c = CHR 0x20 \<or> c = CHR 0xA0)"

definition trim :: "string \<Rightarrow> string" where
  "trim s = rev (dropWhile is_space (rev (dropWhile is_space s)))"

text \<open>\<open>s.split(sep)\<close> for a one-character separator.\<close>

fun split_char :: "char \<Rightarrow> string \<Rightarrow> string list" where
  "split_char sep [] = [[]]"
| "split_char sep (c # cs) =
     (if c = sep then [] # split_char sep cs
      else (case split_char sep cs of
              t # ts \<Rightarrow> (c # t) # ts
            | [] \<Rightarrow> [[c]]))"

text \<open>\<open>s.split(/\s+/)\<close>: the pieces between maximal runs of white space.\<close>

function split_ws :: "string \<Rightarrow> string list" where
  "split_ws s =
     (let tok = takeWhile (\<lambda>c. \<not> is_space c) s;
          rest = dropWhile (\<lambda>c. \<not> is_space c) s
      in if rest = [] then [tok] else tok # split_ws (dropWhile is_space rest))"
  by pat_completeness auto
termination
proof (relation "measure length")
  show "wf (measure length)" by simp
next
  fix s :: string and tok rest
  assume r: "rest = dropWhile (\<lambda>c. \<not> is_space c) s" and ne: "rest \<noteq> []"
  have "length (dropWhile is_space rest) < length rest"
  proof (cases rest)
    case Nil
    with ne show ?thesis by simp
  next
    case (Cons c cs)
    have "is_space (hd rest)"
      using ne hd_dropWhile [of "\<lambda>c. \<not> is_space c" s] r by auto
    then have "is_space c" using Cons by simp
    then have "dropWhile is_space rest = dropWhile is_space cs" using Cons by simp
    moreover have "length (dropWhile is_space cs) \<le> length cs"
      by (rule length_dropWhile_le)
    ultimately show ?thesis using Cons by simp
  qed
  moreover have "length rest \<le> length s"
    using r by (simp add: length_dropWhile_le)
  ultimately show "(dropWhile is_space rest, s) \<in> measure length" by simp
qed

declare split_ws.simps [simp del]

text \<open>\<open>s.replace(pat, rep)\<close> with a string pattern: the first occurrence only.\<close>

fun replace_first :: "string \<Rightarrow> string \<Rightarrow> string \<Rightarrow> string" where
  "replace_first pat rep [] = (if pat = [] then rep else [])"
| "replace_first pat rep (c # cs) =
     (if startsWith (c # cs) pat then rep @ drop (length pat) (c # cs)
      else c # replace_first pat rep cs)"

text \<open>\<open>s.replace(/\\/g, '/')\<close>.\<close>

definition backslashes_to_slashes :: "string \<Rightarrow> string" where
  "backslashes_to_slashes s = map (\<lambda>c. if c = CHR 0x5C then CHR ''/'' else c) s"

text \<open>\<open>xs.join(sep)\<close>.\<close>

fun join :: "string \<Rightarrow> string list \<Rightarrow> string" where
  "join sep [] = []"
| "join sep [x] = x"
| "join sep (x # y # ys) = x @ sep @ join sep (y # ys)"

text \<open>\<open>[...new Set(xs)]\<close>: the first occurrence of every element, in order.\<close>

fun dedup :: "'a list \<Rightarrow> 'a list" where
  "dedup [] = []"
| "dedup (x # xs) = x # dedup (filter (\<lambda>y. y \<noteq> x) xs)"

text \<open>A number inside a template literal: its decimal digits.\<close>

definition digit_char :: "nat \<Rightarrow> char" where
  "digit_char d = char_of (48 + d)"

function show_nat :: "nat \<Rightarrow> string" where
  "show_nat n = (if n < 10 then [digit_char n] else show_nat (n div 10) @ [digit_char (n mod 10)])"
  by pat_completeness auto
termination
  by (relation "measure id") auto

declare show_nat.simps [simp del]

section \<open>Data model\<close>

record Uri =
  scheme :: string
  fsPath :: string
  uri_path :: string

record WorkspaceFolder =
  folder_uri :: Uri
  name :: string
  index :: nat

text \<open>The two interfaces of the module.\<close>

record Upload =
  local :: string
  remote :: string
  uri :: Uri

record MD5Entry =
  path :: string
  md5 :: string

text \<open>The objects \<open>{ uri: file, path: ... }\<close> that \<open>deployCompare\<close> builds.\<close>

record LocalFile =
  file_uri :: Uri
  file_path :: string

text \<open>
  What the code reads of the git extension's API: a change has a \<open>uri\<close> and a numeric
  \<open>status\<close>; a repository has a root and its staged and working-tree changes.
\<close>

record Change =
  change_uri :: Uri
  status :: nat

record Repository =
  rootUri :: Uri
  indexChanges :: "Change list"
  workingTreeChanges :: "Change list"

datatype DeploymentMethod = unstaged | staged | changed | compare | all

datatype ChangeType = ct_staged | ct_working

text \<open>
  An \<open>Ignore\<close> object as \<open>launchDeploy\<close> builds it: the \<open>ignorecase\<close> option and the
  rules in the order they were added. A rule is a pattern and whether a leading \<open>!\<close>
  negated it.
\<close>

record IgnoreRule =
  negative :: bool
  pattern :: string

record Ignore =
  ignorecase :: bool
  rules :: "IgnoreRule list"

record DeploymentParameters =
  workspaceFolder :: WorkspaceFolder
  remotePath :: string
  ignoreRules :: "Ignore option"
  "method" :: DeploymentMethod

record CommandData =
  command :: string
  directory :: "string option"

text \<open>
  What the code throws: \<open>new Error(message)\<close>, the \<open>TypeError\<close> of a property read on
  \<open>undefined\<close>, and the rejection of a capability of a collaborator (the remote session,
  the local file system).
\<close>

datatype error = Error string | TypeError string | Rejected string

fun error_toString :: "error \<Rightarrow> string" where
  "error_toString (Error m) = ''Error: '' @ m"
| "error_toString (TypeError m) = ''TypeError: '' @ m"
| "error_toString (Rejected m) = m"

text \<open>
  A step of the watcher's handlers, in the order the steps run. The handlers of
  \<open>onDidChange\<close> and \<open>onDidDelete\<close> run in one step when their event fires. The
  handler of \<open>onDidCreate\<close> is \<open>async\<close>: when the event fires (\<open>DidCreate\<close>) it calls
  \<open>vscode.workspace.fs.stat(uri)\<close> and is suspended; its continuation
  (\<open>StatResolved\<close>) runs once the \<open>stat\<close> has settled, after whatever steps ran in
  between, and carries what the \<open>stat\<close> resolved to: \<open>None\<close> when it rejected,
  otherwise the \<open>FileType\<close> number (\<open>File\<close> is 1, \<open>Directory\<close> is 2).
\<close>

datatype WatchEvent =
    DidChange Uri
  | DidCreate Uri
  | StatResolved Uri "nat option"
  | DidDelete Uri

definition FileType_File :: nat where
  "FileType_File = 1"

text \<open>
  Everything the module does to the outside, in the order it does it: the output channel,
  the status-bar button, notifications, progress reports, the remote session's three
  capabilities, the workspace search, and the steps of the watcher's handlers that ran
  while a call of the module was suspended.
\<close>

datatype Effect =
    LogClear
  | LogLine string
  | ButtonText string
  | InformationMessage string
  | WarningMessage string
  | ErrorMessage string
  | WithProgress string
  | ProgressReport "string option" "nat option"
  | SendCommand CommandData
  | PutFiles "(string \<times> string) list"
  | PutDirectory string string "string list"
  | FindFiles string string "string option"
  | Watch WatchEvent

text \<open>
  \<open>workspaceChanges\<close>: a \<open>Map\<close> from workspace folder to a \<open>Map\<close> from \<open>fsPath\<close> to
  \<open>Uri\<close>. The inner map keeps insertion order (\<open>values()\<close> iterates in it), so it is an
  association list.
\<close>

type_synonym Changes = "(string \<times> Uri) list"

type_synonym Registry = "WorkspaceFolder \<Rightarrow> Changes option"

record state =
  workspaceChanges :: Registry
  trace :: "Effect list"

text \<open>
  The collaborators, as the code sees them. None of them is code of the module: the
  connection and its features, the answers of the remote session, the git extension, the
  workspace, Node's \<open>path\<close> and \<open>fs\<close>, and the matcher of one gitignore pattern against
  one relative path. \<open>arrivals\<close> gives the steps of the watcher's handlers that run
  while the module is suspended in an awaited call: the handlers are callbacks on the same
  thread, so they run at an \<open>await\<close> and nowhere else.
\<close>

record env =
  connected :: bool
  has_client :: bool
  md5sum_feature :: bool
  sendCommand_stdout :: "CommandData \<Rightarrow> error + string"
  putFiles_result :: "(string \<times> string) list \<Rightarrow> error option"
  putDirectory_walk :: "string \<Rightarrow> string \<Rightarrow> (string \<times> string \<times> string option) list"
  putDirectory_result :: "string \<Rightarrow> string \<Rightarrow> error option"
  gitAPI :: "Repository list option"
  getWorkspaceFolder :: "Uri \<Rightarrow> WorkspaceFolder option"
  vscode_findFiles :: "string \<Rightarrow> string \<Rightarrow> string option \<Rightarrow> Uri list"
  readFile_md5 :: "string \<Rightarrow> error + string"
  path_relative :: "string \<Rightarrow> string \<Rightarrow> string"
  path_posix_join :: "string \<Rightarrow> string \<Rightarrow> string"
  path_basename :: "string \<Rightarrow> string"
  path_dirname :: "string \<Rightarrow> string"
  pattern_matches :: "bool \<Rightarrow> string \<Rightarrow> string \<Rightarrow> bool"
  arrivals :: "Effect \<Rightarrow> WatchEvent list"

section \<open>Effects, suspension and errors\<close>

definition emits :: "Effect list \<Rightarrow> state \<Rightarrow> state" where
  "emits efs s = s\<lparr>trace := trace s @ efs\<rparr>"

definition emit :: "Effect \<Rightarrow> state \<Rightarrow> state" where
  "emit ef s = emits [ef] s"

text \<open>
  A step of the module either returns a value or throws, and leaves a state behind in
  both cases: what was logged or sent before a \<open>throw\<close> stays logged or sent.
\<close>

type_synonym 'a action = "state \<Rightarrow> (error + 'a) \<times> state"

definition and_then :: "'a action \<Rightarrow> ('a \<Rightarrow> 'b action) \<Rightarrow> 'b action" where
  "and_then m f s = (case m s of (Inl err, s') \<Rightarrow> (Inl err, s') | (Inr a, s') \<Rightarrow> f a s')"

definition lift :: "error + 'a \<Rightarrow> 'a action" where
  "lift r s = (r, s)"

definition tell :: "Effect list \<Rightarrow> unit action" where
  "tell efs s = (Inr (), emits efs s)"

section \<open>The change tracker: \<open>buildWatcher\<close>\<close>

definition invalidFs :: "string list" where
  "invalidFs = [''member'', ''streamfile'']"

text \<open>\<open>Map.prototype.set\<close> and \<open>delete\<close>: a key that is present keeps its place.\<close>

fun map_set :: "'k \<Rightarrow> 'v \<Rightarrow> ('k \<times> 'v) list \<Rightarrow> ('k \<times> 'v) list" where
  "map_set k v [] = [(k, v)]"
| "map_set k v ((k', v') # m) = (if k' = k then (k, v) # m else (k', v') # map_set k v m)"

definition map_delete :: "'k \<Rightarrow> ('k \<times> 'v) list \<Rightarrow> ('k \<times> 'v) list" where
  "map_delete k m = filter (\<lambda>kv. fst kv \<noteq> k) m"

text \<open>
  \<open>getChangesMap\<close> returns the folder's map, registering an empty one on the way when
  the folder has none, or \<open>undefined\<close>. The map is returned with the folder it is
  registered under, so that the caller's \<open>set\<close> or \<open>delete\<close> can be written back.
\<close>

definition getChangesMap ::
  "env \<Rightarrow> Uri \<Rightarrow> Registry \<Rightarrow> (WorkspaceFolder \<times> Changes) option \<times> Registry" where
  "getChangesMap e u wc =
     (if \<not> List.member invalidFs (scheme u) \<and> \<not> str_includes (fsPath u) ''.git'' then
        (case getWorkspaceFolder e u of
           Some folder \<Rightarrow>
             (case wc folder of
                None \<Rightarrow> (Some (folder, []), wc(folder \<mapsto> []))
              | Some changes \<Rightarrow> (Some (folder, changes), wc))
         | None \<Rightarrow> (None, wc))
      else (None, wc))"

definition onDidChange :: "env \<Rightarrow> Uri \<Rightarrow> Registry \<Rightarrow> Registry" where
  "onDidChange e u wc =
     (case getChangesMap e u wc of
        (Some (folder, changes), wc') \<Rightarrow> wc'(folder \<mapsto> map_set (fsPath u) u changes)
      | (None, wc') \<Rightarrow> wc')"

text \<open>
  \<open>onDidCreate\<close> up to its \<open>await\<close>: the call of \<open>stat\<close>, which leaves the registry
  alone; and \<open>onDidCreate_resumed\<close>, the rest of the handler, run with the \<open>stat\<close>'s
  result on the registry as it is by then.
\<close>

definition onDidCreate :: "env \<Rightarrow> Uri \<Rightarrow> Registry \<Rightarrow> Registry" where
  "onDidCreate e u wc = wc"

definition onDidCreate_resumed :: "env \<Rightarrow> Uri \<Rightarrow> nat option \<Rightarrow> Registry \<Rightarrow> Registry" where
  "onDidCreate_resumed e u fileStat wc =
     (case fileStat of
        None \<Rightarrow> wc
      | Some t \<Rightarrow>
          if t = FileType_File then
            (case getChangesMap e u wc of
               (Some (folder, changes), wc') \<Rightarrow> wc'(folder \<mapsto> map_set (fsPath u) u changes)
             | (None, wc') \<Rightarrow> wc')
          else wc)"

definition onDidDelete :: "env \<Rightarrow> Uri \<Rightarrow> Registry \<Rightarrow> Registry" where
  "onDidDelete e u wc =
     (case getChangesMap e u wc of
        (Some (folder, changes), wc') \<Rightarrow> wc'(folder \<mapsto> map_delete (fsPath u) changes)
      | (None, wc') \<Rightarrow> wc')"

fun on_event :: "env \<Rightarrow> WatchEvent \<Rightarrow> Registry \<Rightarrow> Registry" where
  "on_event e (DidChange u) wc = onDidChange e u wc"
| "on_event e (DidCreate u) wc = onDidCreate e u wc"
| "on_event e (StatResolved u fileStat) wc = onDidCreate_resumed e u fileStat wc"
| "on_event e (DidDelete u) wc = onDidDelete e u wc"

text \<open>The handlers' steps run one after the other, oldest first.\<close>

fun on_events :: "env \<Rightarrow> WatchEvent list \<Rightarrow> Registry \<Rightarrow> Registry" where
  "on_events e [] wc = wc"
| "on_events e (ev # evs) wc = on_events e evs (on_event e ev wc)"

text \<open>
  An awaited call of a collaborator: the call goes out, and the steps of the watcher's
  handlers that are due before it resolves run in between.
\<close>

definition deliver :: "env \<Rightarrow> WatchEvent list \<Rightarrow> state \<Rightarrow> state" where
  "deliver e evs s =
     s\<lparr>workspaceChanges := on_events e evs (workspaceChanges s),
       trace := trace s @ map Watch evs\<rparr>"

definition await :: "env \<Rightarrow> Effect \<Rightarrow> state \<Rightarrow> state" where
  "await e call s = deliver e (arrivals e call) (emit call s)"

section \<open>The ignore filter\<close>

text \<open>
  Modelled from the spec: the \<open>ignore\<close> package is a dependency of the repository, not
  code of it. Of "standard gitignore syntax" the model keeps what the spec states in
  words: a leading \<open>!\<close> negates a pattern, and "later rules override earlier ones". Whether
  one pattern matches one relative path (wildcards, anchoring, letter case, blank and
  comment lines matching nothing) is the collaborator \<open>pattern_matches\<close>, which gets
  the \<open>ignorecase\<close> option. The package also ignores a path below an ignored directory
  and rejects a path that is not relative; neither is modelled, and \<open>ignores\<close> is total.
\<close>

definition createRule :: "string \<Rightarrow> IgnoreRule" where
  "createRule pat =
     (if startsWith pat ''!'' then \<lparr>negative = True, pattern = drop 1 pat\<rparr>
      else \<lparr>negative = False, pattern = pat\<rparr>)"

definition ignore_add :: "string list \<Rightarrow> Ignore \<Rightarrow> Ignore" where
  "ignore_add pats ig = ig\<lparr>rules := rules ig @ map createRule pats\<rparr>"

definition ignores :: "env \<Rightarrow> Ignore \<Rightarrow> string \<Rightarrow> bool" where
  "ignores e ig p =
     foldl (\<lambda>ignored r. if pattern_matches e (ignorecase ig) (pattern r) p
                         then \<not> negative r else ignored)
       False (rules ig)"

text \<open>
  The rule set of \<open>launchDeploy\<close>. The argument is the content of the first
  \<open>.gitignore\<close> that \<open>findFiles\<close> found, or \<open>None\<close> when it found none.
\<close>

definition launchDeploy_ignoreRules :: "string option \<Rightarrow> Ignore" where
  "launchDeploy_ignoreRules gitignore =
     (let ignoreRules = ignore_add [''.git''] \<lparr>ignorecase = True, rules = []\<rparr>
      in case gitignore of
           Some raw \<Rightarrow>
             (let gitignoreContent = filter (\<lambda>c. c \<noteq> CHR 0x0D) raw
              in ignore_add [''**/.gitignore'']
                   (ignore_add (split_char (CHR 0x0A) gitignoreContent) ignoreRules))
         | None \<Rightarrow> ignoreRules)"

section \<open>The remote session\<close>

definition not_connected :: error where
  "not_connected = Error ''Please connect to an IBM i''"

definition getConnection :: "env \<Rightarrow> error + unit" where
  "getConnection e = (if connected e then Inr () else Inl not_connected)"

definition getClient :: "env \<Rightarrow> error + unit" where
  "getClient e =
     (case getConnection e of
        Inl err \<Rightarrow> Inl err
      | Inr _ \<Rightarrow> if has_client e then Inr () else Inl not_connected)"

definition sendCommand :: "env \<Rightarrow> CommandData \<Rightarrow> string action" where
  "sendCommand e cmd s =
     (case getConnection e of
        Inl err \<Rightarrow> (Inl err, s)
      | Inr _ \<Rightarrow> (sendCommand_stdout e cmd, await e (SendCommand cmd) s))"

definition putFiles :: "env \<Rightarrow> (string \<times> string) list \<Rightarrow> unit action" where
  "putFiles e ups s =
     (case getClient e of
        Inl err \<Rightarrow> (Inl err, s)
      | Inr _ \<Rightarrow>
          ((case putFiles_result e ups of Some err \<Rightarrow> Inl err | None \<Rightarrow> Inr ()),
           await e (PutFiles ups) s))"

definition createRemoteDirectory :: "env \<Rightarrow> string \<Rightarrow> string action" where
  "createRemoteDirectory e rp =
     sendCommand e \<lparr>command = ''mkdir -p '' @ [CHR 0x22] @ rp @ [CHR 0x22], directory = None\<rparr>"

definition toRelative :: "env \<Rightarrow> Uri \<Rightarrow> Uri \<Rightarrow> string" where
  "toRelative e root file = backslashes_to_slashes (path_relative e (uri_path root) (uri_path file))"

definition toUpload :: "env \<Rightarrow> DeploymentParameters \<Rightarrow> Uri \<Rightarrow> Upload" where
  "toUpload e p u =
     \<lparr>local = fsPath u,
      remote = path_posix_join e (remotePath p) (toRelative e (folder_uri (workspaceFolder p)) u),
      uri = u\<rparr>"

definition uploading_line :: "Upload \<Rightarrow> Effect" where
  "uploading_line up = LogLine (''UPLOADING: '' @ fsPath (uri up) @ '' -> '' @ remote up)"

definition transfers :: "Upload list \<Rightarrow> (string \<times> string) list" where
  "transfers ups = map (\<lambda>up. (local up, remote up)) ups"

section \<open>The "changed" strategy: \<open>deployChanged\<close>\<close>

text \<open>The predicate of \<open>deployChanged\<close>'s \<open>filter\<close>.\<close>

definition changedFile_kept :: "env \<Rightarrow> DeploymentParameters \<Rightarrow> Uri \<Rightarrow> bool" where
  "changedFile_kept e p u =
     (let relative = toRelative e (folder_uri (workspaceFolder p)) u;
          by_basename = \<not> str_includes (path_basename e (uri_path u)) ''.''
      in case ignoreRules p of
           Some ig \<Rightarrow> if relative \<noteq> [] then \<not> ignores e ig relative else by_basename
         | None \<Rightarrow> by_basename)"

text \<open>The uploads of one run, from the values of the folder's map as iterated.\<close>

definition deployChanged_uploads :: "env \<Rightarrow> DeploymentParameters \<Rightarrow> Changes \<Rightarrow> Upload list" where
  "deployChanged_uploads e p changes =
     map (toUpload e p) (filter (changedFile_kept e p) (map snd changes))"

definition deployChanged :: "env \<Rightarrow> DeploymentParameters \<Rightarrow> unit action" where
  "deployChanged e p s =
     (case workspaceChanges s (workspaceFolder p) of
        Some changes \<Rightarrow>
          if 0 < length changes then
            (let uploads = deployChanged_uploads e p changes
             in and_then (tell (map uploading_line uploads))
                  (\<lambda>_. putFiles e (transfers uploads)) s)
          else (Inr (), s)
      | None \<Rightarrow> (Inr (), s))"

section \<open>The version-control strategies: \<open>deployGit\<close>\<close>

definition changeType_name :: "ChangeType \<Rightarrow> string" where
  "changeType_name ct = (case ct of ct_staged \<Rightarrow> ''staged'' | ct_working \<Rightarrow> ''working'')"

text \<open>The status the code compares with: \<open>change.status !== 6\<close>.\<close>

definition Status_DELETED :: nat where
  "Status_DELETED = 6"

definition deployGit_files :: "Repository \<Rightarrow> ChangeType \<Rightarrow> Change list" where
  "deployGit_files repository ct =
     (let useStagedChanges = (ct = ct_staged);
          gitFiles = (if useStagedChanges then indexChanges repository
                      else workingTreeChanges repository)
      in filter (\<lambda>change. status change \<noteq> Status_DELETED) gitFiles)"

definition deployGit_uploads :: "env \<Rightarrow> DeploymentParameters \<Rightarrow> Change list \<Rightarrow> Upload list" where
  "deployGit_uploads e p gitFiles = map (\<lambda>change. toUpload e p (change_uri change)) gitFiles"

definition deployGit :: "env \<Rightarrow> DeploymentParameters \<Rightarrow> ChangeType \<Rightarrow> unit action" where
  "deployGit e p ct s =
     (case gitAPI e of
        None \<Rightarrow> (Inl (Error ''No repositories are open.''), s)
      | Some repositories \<Rightarrow>
          if 0 < length repositories then
            (case find (\<lambda>r. fsPath (rootUri r) = fsPath (folder_uri (workspaceFolder p)))
                    repositories of
               None \<Rightarrow>
                 (Inl (Error (''No repository found for '' @ fsPath (folder_uri (workspaceFolder p)))), s)
             | Some repository \<Rightarrow>
                 (let gitFiles = deployGit_files repository ct
                  in if 0 < length gitFiles then
                       (let uploads = deployGit_uploads e p gitFiles
                        in and_then
                             (tell (map uploading_line uploads @
                                [InformationMessage
                                   (''Deploying '' @ changeType_name ct @ '' changes ('' @
                                    show_nat (length uploads) @ '') to '' @ remotePath p)]))
                             (\<lambda>_. if startsWith (remotePath p) ''/''
                                   then putFiles e (transfers uploads)
                                   else lift (Inl (Error ''Unable to determine where to upload workspace.'')))
                             s)
                     else tell [WarningMessage
                                  (''No '' @ changeType_name ct @ '' changes to deploy.'')] s))
          else (Inl (Error ''No repositories are open.''), s))"

section \<open>Bulk transfer: \<open>deployAll\<close>\<close>

text \<open>The \<open>validate\<close> callback handed to \<open>putDirectory\<close>.\<close>

definition validate :: "env \<Rightarrow> DeploymentParameters \<Rightarrow> string \<Rightarrow> bool" where
  "validate e p localPath =
     (let relative = path_relative e (fsPath (folder_uri (workspaceFolder p))) localPath
      in case ignoreRules p of
           Some ig \<Rightarrow> if relative \<noteq> [] then \<not> ignores e ig relative else True
         | None \<Rightarrow> True)"

text \<open>The \<open>tick\<close> callback: what it reports for one file.\<close>

definition tick :: "string \<times> string \<times> string option \<Rightarrow> Effect list" where
  "tick t =
     (case t of (localPath, rp, failure) \<Rightarrow>
        (let rp' = (if startsWith rp [CHR 0x5C] then backslashes_to_slashes rp else rp)
         in case failure of
              Some message \<Rightarrow>
                [ProgressReport (Some (''Failed to deploy '' @ localPath)) None,
                 LogLine (''FAILED: '' @ localPath @ '' -> '' @ rp' @ '': '' @ message)]
            | None \<Rightarrow>
                [ProgressReport (Some (''Deployed '' @ localPath)) None,
                 LogLine (''SUCCESS: '' @ localPath @ '' -> '' @ rp')]))"

text \<open>
  Modelled from the spec: the directory transfer of the remote session
  (\<open>transferDirectory(localRoot, remotePath, {recursive, concurrency, perFileCallback,
  inclusionPredicate})\<close>) is the \<open>node-ssh\<close> package's, not code of the repository. It
  walks the local tree (\<open>putDirectory_walk\<close>: local path, remote path and the failure of
  that file's transfer, if any), transfers the files the inclusion predicate accepts,
  reports every one of them through the per-file callback, and rejects as a whole only
  through \<open>putDirectory_result\<close>. The predicate is asked per file, as the spec words it.
\<close>

definition putDirectory ::
  "env \<Rightarrow> string \<Rightarrow> string \<Rightarrow> (string \<Rightarrow> bool) \<Rightarrow>
   (string \<times> string \<times> string option \<Rightarrow> Effect list) \<Rightarrow> unit action" where
  "putDirectory e localRoot remoteRoot valid report s =
     (case getClient e of
        Inl err \<Rightarrow> (Inl err, s)
      | Inr _ \<Rightarrow>
          (let accepted = filter (\<lambda>t. valid (fst t)) (putDirectory_walk e localRoot remoteRoot);
               call = PutDirectory localRoot remoteRoot (map fst accepted);
               s' = deliver e (arrivals e call) (emits (call # concat (map report accepted)) s)
           in ((case putDirectory_result e localRoot remoteRoot of
                  Some err \<Rightarrow> Inl err
                | None \<Rightarrow> Inr ()), s')))"

definition deployAll :: "env \<Rightarrow> DeploymentParameters \<Rightarrow> unit action" where
  "deployAll e p s =
     (let nm = path_basename e (uri_path (folder_uri (workspaceFolder p)));
          s1 = emits [WithProgress (''Deploying '' @ nm),
                      ProgressReport (Some (''Deploying '' @ nm)) None] s
      in if startsWith (remotePath p) ''/'' then
           (case putDirectory e (fsPath (folder_uri (workspaceFolder p))) (remotePath p)
                   (validate e p) tick s1 of
              (Inr _, s2) \<Rightarrow>
                (Inr (), emit (ProgressReport (Some ''Deployment finished.'') None) s2)
            | (Inl err, s2) \<Rightarrow>
                (Inl err, emit (ProgressReport (Some ''Deployment failed.'') None) s2))
         else
           (Inl (Error ''Invalid deployment path''),
            emit (LogLine ''Deployment cancelled. Not sure where to deploy workspace.'') s1))"

section \<open>The hash synchronizer: \<open>deployCompare\<close>\<close>

text \<open>
  \<open>toMD5Entry\<close>: \<open>split\<close> never returns an empty array, so \<open>parts[0]\<close> is a string;
  with a single part, \<open>parts[1]\<close> is \<open>undefined\<close> and \<open>parts[1].trim()\<close> throws.
\<close>

definition toMD5Entry :: "string \<Rightarrow> error + MD5Entry" where
  "toMD5Entry line =
     (case split_ws line of
        p0 # p1 # _ \<Rightarrow> Inr \<lparr>path = drop 2 (trim p1), md5 = trim p0\<rparr>
      | _ \<Rightarrow> Inl (TypeError ''Cannot read properties of undefined (reading 'trim')''))"

text \<open>\<open>xs.map(f)\<close> for an \<open>f\<close> that can throw: the first throw ends the map.\<close>

fun map_throwing :: "('a \<Rightarrow> error + 'b) \<Rightarrow> 'a list \<Rightarrow> error + 'b list" where
  "map_throwing f [] = Inr []"
| "map_throwing f (x # xs) =
     (case f x of
        Inl err \<Rightarrow> Inl err
      | Inr y \<Rightarrow> (case map_throwing f xs of Inl err \<Rightarrow> Inl err | Inr ys \<Rightarrow> Inr (y # ys)))"

definition parse_md5sum :: "string \<Rightarrow> error + MD5Entry list" where
  "parse_md5sum out = map_throwing (\<lambda>line. toMD5Entry (trim line)) (split_char (CHR 0x0A) out)"

definition toLowerCase :: "string \<Rightarrow> string" where
  "toLowerCase s =
     map (\<lambda>c. if 65 \<le> (of_char c :: nat) \<and> (of_char c :: nat) \<le> 90
              then char_of (of_char c + 32 :: nat) else c) s"

text \<open>
  \<open>md5Hash\<close>: \<open>readFile_md5\<close> is the hex digest of the bytes \<open>readFileSync\<close> returns, or
  the error it throws.
\<close>

definition md5Hash :: "env \<Rightarrow> Uri \<Rightarrow> error + string" where
  "md5Hash e file =
     (case readFile_md5 e (fsPath file) of
        Inl err \<Rightarrow> Inl err
      | Inr digest \<Rightarrow> Inr (toLowerCase digest))"

text \<open>The predicate of \<open>findFiles\<close>'s \<open>filter\<close>.\<close>

definition findFiles_kept :: "env \<Rightarrow> DeploymentParameters \<Rightarrow> Uri \<Rightarrow> bool" where
  "findFiles_kept e p file =
     (case ignoreRules p of
        Some ig \<Rightarrow> \<not> ignores e ig (toRelative e (folder_uri (workspaceFolder p)) file)
      | None \<Rightarrow> True)"

definition findFiles ::
  "env \<Rightarrow> DeploymentParameters \<Rightarrow> string \<Rightarrow> string option \<Rightarrow> Uri list action" where
  "findFiles e p includePattern excludePattern s =
     (let root = fsPath (folder_uri (workspaceFolder p));
          exclude = (case excludePattern of
                       Some x \<Rightarrow> if x \<noteq> [] then Some x else None
                     | None \<Rightarrow> None);
          found = vscode_findFiles e root includePattern exclude
      in (Inr (filter (findFiles_kept e p) found),
          await e (FindFiles root includePattern exclude) s))"

definition localRoot :: "DeploymentParameters \<Rightarrow> string" where
  "localRoot p =
     fsPath (folder_uri (workspaceFolder p)) @
     (if startsWith (fsPath (folder_uri (workspaceFolder p))) ''/'' then ''/'' else [CHR 0x5C])"

definition toLocalFile :: "DeploymentParameters \<Rightarrow> Uri \<Rightarrow> LocalFile" where
  "toLocalFile p file =
     \<lparr>file_uri = file,
      file_path = backslashes_to_slashes (replace_first (localRoot p) [] (fsPath file))\<rparr>"

text \<open>
  The loop over \<open>localFiles\<close> that fills \<open>uploads\<close>; the last argument is \<open>uploads\<close> so
  far, and \<open>compare_transfer\<close> is the object the loop pushes. \<open>md5Hash\<close> is called for
  every file, also for one with no remote entry.
\<close>

definition compare_transfer :: "DeploymentParameters \<Rightarrow> LocalFile \<Rightarrow> string \<times> string" where
  "compare_transfer p file = (fsPath (file_uri file), remotePath p @ ''/'' @ file_path file)"

fun compare_uploads ::
  "env \<Rightarrow> DeploymentParameters \<Rightarrow> MD5Entry list \<Rightarrow> LocalFile list \<Rightarrow>
   (string \<times> string) list \<Rightarrow> error + (string \<times> string) list" where
  "compare_uploads e p remoteMD5 [] uploads = Inr uploads"
| "compare_uploads e p remoteMD5 (file # files) uploads =
     (let found = find (\<lambda>en. path en = file_path file) remoteMD5
      in case md5Hash e (file_uri file) of
           Inl err \<Rightarrow> Inl err
         | Inr h \<Rightarrow>
             compare_uploads e p remoteMD5 files
               (if (case found of None \<Rightarrow> True | Some r \<Rightarrow> md5 r \<noteq> h)
                then uploads @ [compare_transfer p file]
                else uploads))"

definition compare_toDelete :: "MD5Entry list \<Rightarrow> LocalFile list \<Rightarrow> string list" where
  "compare_toDelete remoteMD5 localFiles =
     map path (filter (\<lambda>r. \<not> list_ex (\<lambda>l. path r = file_path l) localFiles) remoteMD5)"

text \<open>The plan of one comparison: \<open>uploads\<close> and \<open>toDelete\<close>.\<close>

definition compare_plan ::
  "env \<Rightarrow> DeploymentParameters \<Rightarrow> MD5Entry list \<Rightarrow> LocalFile list \<Rightarrow>
   error + ((string \<times> string) list \<times> string list)" where
  "compare_plan e p remoteMD5 localFiles =
     (case compare_uploads e p remoteMD5 localFiles [] of
        Inl err \<Rightarrow> Inl err
      | Inr uploads \<Rightarrow> Inr (uploads, compare_toDelete remoteMD5 localFiles))"

definition md5sum_command :: "DeploymentParameters \<Rightarrow> CommandData" where
  "md5sum_command p =
     \<lparr>command = ''/QOpenSys/pkgs/bin/md5sum $(find . -type f)'', directory = Some (remotePath p)\<rparr>"

text \<open>The three remote commands that act on the plan.\<close>

definition rm_command :: "DeploymentParameters \<Rightarrow> string list \<Rightarrow> CommandData" where
  "rm_command p toDelete =
     \<lparr>command = ''rm -f '' @ join '' '' toDelete, directory = Some (remotePath p)\<rparr>"

definition mkdirs_command :: "env \<Rightarrow> (string \<times> string) list \<Rightarrow> CommandData" where
  "mkdirs_command e uploads =
     (let mkdirs = join '';'' (map (\<lambda>d. ''[ -d '' @ d @ '' ] || mkdir -p '' @ d)
                                 (dedup (map (\<lambda>u. path_dirname e (snd u)) uploads)))
      in \<lparr>command = mkdirs, directory = None\<rparr>)"

definition rmdir_command :: "DeploymentParameters \<Rightarrow> CommandData" where
  "rmdir_command p =
     \<lparr>command = ''find . -depth -type d -exec rmdir {} + 2>/dev/null'',
      directory = Some (remotePath p)\<rparr>"

definition compare_delete :: "env \<Rightarrow> DeploymentParameters \<Rightarrow> string list \<Rightarrow> unit action" where
  "compare_delete e p toDelete =
     (if 0 < length toDelete then
        and_then
          (tell [ProgressReport
                   (Some (''deleting '' @ show_nat (length toDelete) @ '' remote file(s)'')) (Some 25),
                 LogLine ([CHR 0x0A] @ ''Deleted:'' @ [CHR 0x0A, CHR 0x09] @
                          join [CHR 0x0A, CHR 0x09] toDelete @ [CHR 0x0A])])
          (\<lambda>_. and_then (sendCommand e (rm_command p toDelete))
                  (\<lambda>_. lift (Inr ())))
      else tell [ProgressReport None (Some 25)])"

definition compare_upload ::
  "env \<Rightarrow> DeploymentParameters \<Rightarrow> (string \<times> string) list \<Rightarrow> unit action" where
  "compare_upload e p uploads =
     (if 0 < length uploads then
        and_then (tell [ProgressReport (Some ''creating remote folders'') (Some 10)])
          (\<lambda>_. and_then (sendCommand e (mkdirs_command e uploads))
          (\<lambda>_. and_then
                  (tell [ProgressReport
                           (Some (''uploading '' @ show_nat (length uploads) @ '' file(s)''))
                           (Some 15),
                         LogLine ([CHR 0x0A] @ ''Uploaded:'' @ [CHR 0x0A, CHR 0x09] @
                                  join [CHR 0x0A, CHR 0x09] (map snd uploads) @ [CHR 0x0A])])
          (\<lambda>_. putFiles e uploads)))
      else tell [ProgressReport None (Some 25)])"

text \<open>
  The branch of \<open>deployCompare\<close> for a remote directory that is not empty:
  \<open>compare_sync\<close> up to the plan (\<open>uploads\<close> and \<open>toDelete\<close>), and
  \<open>compare_apply\<close>, the rest of the callback, which acts on the plan.
\<close>

definition compare_apply ::
  "env \<Rightarrow> DeploymentParameters \<Rightarrow> (string \<times> string) list \<times> string list \<Rightarrow> unit action" where
  "compare_apply e p plan =
     and_then (compare_delete e p (snd plan))
       (\<lambda>_. and_then (compare_upload e p (fst plan))
       (\<lambda>_. and_then
               (tell [ProgressReport
                        (Some (''removing empty folders under '' @ remotePath p)) (Some 20)])
       (\<lambda>_. and_then (sendCommand e (rmdir_command p))
       (\<lambda>_. tell [ProgressReport None (Some 5)]))))"

definition compare_sync :: "env \<Rightarrow> DeploymentParameters \<Rightarrow> unit action" where
  "compare_sync e p =
     (let nm = path_basename e (uri_path (folder_uri (workspaceFolder p)))
      in and_then
           (tell [WithProgress (''Synchronizing '' @ nm),
                  LogLine ''Starting MD5 synchronization transfer'',
                  ProgressReport (Some ''creating remote MD5 hash list'') None])
      (\<lambda>_. and_then (sendCommand e (md5sum_command p))
      (\<lambda>md5sumOut. and_then (lift (parse_md5sum md5sumOut))
      (\<lambda>remoteMD5. and_then (tell [ProgressReport (Some ''creating transfer list'') (Some 25)])
      (\<lambda>_. and_then (findFiles e p ''**/*'' (Some ''**/.git*''))
      (\<lambda>found. and_then (lift (compare_plan e p remoteMD5 (map (toLocalFile p) found)))
      (\<lambda>plan. compare_apply e p plan)))))))"

definition line_count_command :: "DeploymentParameters \<Rightarrow> CommandData" where
  "line_count_command p = \<lparr>command = ''ls | wc -l'', directory = Some (remotePath p)\<rparr>"

definition deployCompare :: "env \<Rightarrow> DeploymentParameters \<Rightarrow> unit action" where
  "deployCompare e p =
     and_then (lift (getConnection e))
       (\<lambda>_. if md5sum_feature e then
               and_then (sendCommand e (line_count_command p))
                 (\<lambda>out. let isEmpty = (out = ''0'')
                         in if isEmpty then
                              and_then
                                (tell [LogLine (''Remote directory is empty; switching to 'deploy all''
                                                @ [CHR 0x27])])
                                (\<lambda>_. deployAll e p)
                            else compare_sync e p)
             else lift (Inl (Error
               ''Cannot synchronize using MD5 comparison: 'md5sum' command not availabe on host.'')))"

section \<open>The orchestrator: \<open>deploy\<close>\<close>

definition BUTTON_BASE :: string where
  "BUTTON_BASE = ''$(cloud-upload) Deploy''"

definition BUTTON_WORKING :: string where
  "BUTTON_WORKING = ''$(sync~spin) Deploying''"

text \<open>The \<open>switch\<close> on \<open>parameters.method\<close>.\<close>

definition strategy :: "env \<Rightarrow> DeploymentParameters \<Rightarrow> unit action" where
  "strategy e p =
     (case method p of
        unstaged \<Rightarrow> deployGit e p ct_working
      | staged \<Rightarrow> deployGit e p ct_staged
      | changed \<Rightarrow> deployChanged e p
      | compare \<Rightarrow> deployCompare e p
      | all \<Rightarrow> deployAll e p)"

text \<open>\<open>workspaceChanges.get(folder)?.clear()\<close>.\<close>

definition clear_changes :: "WorkspaceFolder \<Rightarrow> Registry \<Rightarrow> Registry" where
  "clear_changes folder wc = (case wc folder of Some _ \<Rightarrow> wc(folder \<mapsto> []) | None \<Rightarrow> wc)"

text \<open>
  \<open>deploy\<close>. \<open>deploy_try\<close> is the \<open>try\<close> block up to the \<open>switch\<close>; \<open>deploy\<close> adds what
  follows the \<open>switch\<close> when nothing was thrown, the \<open>catch\<close> (with \<open>showErrorButton\<close>,
  whose prompt is not awaited) and the \<open>finally\<close>. The result is what the function
  returns.
\<close>

definition deploy_try :: "env \<Rightarrow> DeploymentParameters \<Rightarrow> unit action" where
  "deploy_try e p =
     and_then (tell [LogClear, ButtonText BUTTON_WORKING])
       (\<lambda>_. and_then (createRemoteDirectory e (remotePath p))
       (\<lambda>_. strategy e p))"

definition deploy :: "env \<Rightarrow> DeploymentParameters \<Rightarrow> state \<Rightarrow> bool \<times> state" where
  "deploy e p s =
     (case deploy_try e p s of
        (Inr _, s') \<Rightarrow>
          (let s'' = emits [LogLine ''Deployment finished.'',
                           InformationMessage ''Deployment finished.''] s'
           in (True,
               emit (ButtonText BUTTON_BASE)
                 (s''\<lparr>workspaceChanges :=
                        clear_changes (workspaceFolder p) (workspaceChanges s'')\<rparr>)))
      | (Inl err, s') \<Rightarrow>
          (False,
           emits [ErrorMessage ''Deployment failed.'',
                  LogLine (''Deployment failed: '' @ error_toString err),
                  ButtonText BUTTON_BASE] s'))"

section \<open>Reading a trace\<close>

text \<open>The watcher events in a piece of trace, and what a step added to the trace.\<close>

fun watched :: "Effect list \<Rightarrow> WatchEvent list" where
  "watched [] = []"
| "watched (Watch ev # efs) = ev # watched efs"
| "watched (_ # efs) = watched efs"

definition effects_since :: "state \<Rightarrow> state \<Rightarrow> Effect list" where
  "effects_since s s' = drop (length (trace s)) (trace s')"

fun is_transfer :: "Effect \<Rightarrow> bool" where
  "is_transfer (PutFiles _) = True"
| "is_transfer (PutDirectory _ _ _) = True"
| "is_transfer _ = False"

fun is_command :: "Effect \<Rightarrow> bool" where
  "is_command (SendCommand _) = True"
| "is_command _ = False"

fun is_watch :: "Effect \<Rightarrow> bool" where
  "is_watch (Watch _) = True"
| "is_watch _ = False"

text \<open>The effects that stay in the editor: the log, the button, messages, progress.\<close>

fun is_local :: "Effect \<Rightarrow> bool" where
  "is_local (SendCommand _) = False"
| "is_local (PutFiles _) = False"
| "is_local (PutDirectory _ _ _) = False"
| "is_local (FindFiles _ _ _) = False"
| "is_local (Watch _) = False"
| "is_local _ = True"

text \<open>
  A step from \<open>s\<close> to \<open>s'\<close> that only appends effects satisfying \<open>allowed\<close> to the trace
  and changes the registry only through the handlers of the watcher events it let in.
\<close>

definition grows :: "env \<Rightarrow> (Effect \<Rightarrow> bool) \<Rightarrow> state \<Rightarrow> state \<Rightarrow> bool" where
  "grows e allowed s s' =
     (\<exists>new. trace s' = trace s @ new \<and> list_all allowed new \<and>
            workspaceChanges s' = on_events e (watched new) (workspaceChanges s))"

text \<open>
  A predicate on effects that lets through the editor's own effects and the watcher events
  that arrive during some call.
\<close>

definition permits :: "env \<Rightarrow> (Effect \<Rightarrow> bool) \<Rightarrow> bool" where
  "permits e allowed =
     ((\<forall>call ev. ev \<in> set (arrivals e call) \<longrightarrow> allowed (Watch ev)) \<and>
      (\<forall>ef. is_local ef \<longrightarrow> allowed ef))"

definition confined :: "env \<Rightarrow> (Effect \<Rightarrow> bool) \<Rightarrow> 'a action \<Rightarrow> bool" where
  "confined e allowed m = (\<forall>s. grows e allowed s (snd (m s)))"

text \<open>
  The registry keeps, for every entry, the handler's guards: the key is the \<open>fsPath\<close> of
  the recorded \<open>Uri\<close>, the \<open>Uri\<close> belongs to the folder it is filed under, its scheme is
  not a virtual one and its \<open>fsPath\<close> has no \<open>.git\<close> in it.
\<close>

definition tracked :: "env \<Rightarrow> Registry \<Rightarrow> bool" where
  "tracked e wc =
     (\<forall>folder changes k u. wc folder = Some changes \<longrightarrow> (k, u) \<in> set changes \<longrightarrow>
        k = fsPath u \<and> getWorkspaceFolder e u = Some folder \<and>
        scheme u \<noteq> ''member'' \<and> scheme u \<noteq> ''streamfile'' \<and>
        \<not> str_includes (fsPath u) ''.git'')"

text \<open>The \<open>Uri\<close> a step of the watcher's handlers is about.\<close>

fun event_uri :: "WatchEvent \<Rightarrow> Uri" where
  "event_uri (DidChange u) = u"
| "event_uri (DidCreate u) = u"
| "event_uri (StatResolved u _) = u"
| "event_uri (DidDelete u) = u"

section \<open>A sample workspace\<close>

text \<open>
  A workspace \<open>/ws\<close> deployed to \<open>/home/dev/ws\<close>, used to run the code on concrete
  inputs. The remote directory holds \<open>a.txt\<close> and \<open>c.txt\<close>, the workspace \<open>a.txt\<close>
  (same digest) and \<open>b.txt\<close>. Its matcher knows two shapes of pattern, the path
  itself and \<open>**/\<close> before it, and compares them without regard to the case of
  letters when it is given the \<open>ignorecase\<close> option.
\<close>

definition sample_matches :: "bool \<Rightarrow> string \<Rightarrow> string \<Rightarrow> bool" where
  "sample_matches ic pat f =
     (if ic then toLowerCase pat = toLowerCase f \<or> toLowerCase pat = ''**/'' @ toLowerCase f
      else pat = f \<or> pat = ''**/'' @ f)"

definition file_uri_of :: "string \<Rightarrow> Uri" where
  "file_uri_of f = \<lparr>scheme = ''file'', fsPath = f, uri_path = f\<rparr>"

definition ws :: WorkspaceFolder where
  "ws = \<lparr>folder_uri = file_uri_of ''/ws'', name = ''ws'', index = 0\<rparr>"

definition ws_md5sum_output :: string where
  "ws_md5sum_output = ''aa01  ./a.txt'' @ [CHR 0x0A] @ ''cc03  ./c.txt''"

definition ws_env :: env where
  "ws_env =
     \<lparr>connected = True, has_client = True, md5sum_feature = True,
      sendCommand_stdout =
        (\<lambda>cmd. Inr (if command cmd = ''ls | wc -l'' then ''2''
                     else if take 4 (command cmd) = ''/QOp'' then ws_md5sum_output
                     else [])),
      putFiles_result = (\<lambda>_. None),
      putDirectory_walk =
        (\<lambda>l r. [(l @ ''/a.txt'', r @ ''/a.txt'', None), (l @ ''/b.txt'', r @ ''/b.txt'', None)]),
      putDirectory_result = (\<lambda>_ _. None),
      gitAPI = Some [\<lparr>rootUri = file_uri_of ''/ws'',
                      indexChanges = [],
                      workingTreeChanges =
                        [\<lparr>change_uri = file_uri_of ''/ws/old.txt'', status = 6\<rparr>,
                         \<lparr>change_uri = file_uri_of ''/ws/b.txt'', status = 5\<rparr>]\<rparr>],
      getWorkspaceFolder = (\<lambda>u. if take 4 (fsPath u) = ''/ws/'' then Some ws else None),
      vscode_findFiles = (\<lambda>root inc exc. [file_uri_of ''/ws/a.txt'', file_uri_of ''/ws/b.txt'']),
      readFile_md5 =
        (\<lambda>f. if f = ''/ws/a.txt'' then Inr ''aa01''
              else if f = ''/ws/b.txt'' then Inr ''bb02''
              else Inl (Rejected ''ENOENT'')),
      path_relative = (\<lambda>from to. drop (length from + 1) to),
      path_posix_join = (\<lambda>a b. a @ ''/'' @ b),
      path_basename = (\<lambda>f. rev (takeWhile (\<lambda>c. c \<noteq> CHR ''/'') (rev f))),
      path_dirname = (\<lambda>f. rev (drop 1 (dropWhile (\<lambda>c. c \<noteq> CHR ''/'') (rev f)))),
      pattern_matches = sample_matches,
      arrivals = (\<lambda>_. [])\<rparr>"

definition ws_parameters :: "DeploymentMethod \<Rightarrow> DeploymentParameters" where
  "ws_parameters m =
     \<lparr>workspaceFolder = ws, remotePath = ''/home/dev/ws'',
      ignoreRules = Some (launchDeploy_ignoreRules None), method = m\<rparr>"

definition idle :: state where
  "idle = \<lparr>workspaceChanges = (\<lambda>_. None), trace = []\<rparr>"

definition ws_events :: "WatchEvent list" where
  "ws_events =
     [DidChange (file_uri_of ''/ws/a.txt''),
      DidCreate (file_uri_of ''/ws/lib''),
      StatResolved (file_uri_of ''/ws/lib'') (Some 2),
      DidChange (file_uri_of ''/ws/.git/index''),
      DidChange \<lparr>scheme = ''member'', fsPath = ''/ws/QRPGLESRC/X.rpgle'',
                 uri_path = ''/ws/QRPGLESRC/X.rpgle''\<rparr>,
      DidChange (file_uri_of ''/ws/notes.gitbook''),
      DidCreate (file_uri_of ''/ws/b.txt''),
      StatResolved (file_uri_of ''/ws/b.txt'') (Some 1),
      DidDelete (file_uri_of ''/ws/a.txt'')]"

definition ws_pending :: state where
  "ws_pending =
     \<lparr>workspaceChanges = (\<lambda>_. None)(ws \<mapsto> [(''/ws/b.txt'', file_uri_of ''/ws/b.txt'')]),
      trace = []\<rparr>"

definition ws_relative_target :: DeploymentParameters where
  "ws_relative_target =
     \<lparr>workspaceFolder = ws, remotePath = ''relative/path'',
      ignoreRules = Some (launchDeploy_ignoreRules None), method = all\<rparr>"

definition ws_empty_env :: env where
  "ws_empty_env =
     ws_env\<lparr>sendCommand_stdout :=
              (\<lambda>cmd. Inr (if command cmd = ''ls | wc -l'' then ''0'' else []))\<rparr>"

text \<open>
  The relative-path to content-hash relation of the local files (with the digests
  \<open>md5Hash\<close> returns) and of the remote entries, for statements about two trees.
\<close>

definition local_mapping :: "env \<Rightarrow> LocalFile list \<Rightarrow> (string \<times> string) set" where
  "local_mapping e localFiles =
     {(file_path f, h) | f h. f \<in> set localFiles \<and> md5Hash e (file_uri f) = Inr h}"

definition remote_mapping :: "MD5Entry list \<Rightarrow> (string \<times> string) set" where
  "remote_mapping remoteMD5 = {(path r, md5 r) | r. r \<in> set remoteMD5}"

definition ws_remoteMD5 :: "MD5Entry list" where
  "ws_remoteMD5 = [\<lparr>path = ''a.txt'', md5 = ''aa01''\<rparr>, \<lparr>path = ''c.txt'', md5 = ''cc03''\<rparr>]"

definition ws_localFiles :: "LocalFile list" where
  "ws_localFiles =
     [\<lparr>file_uri = file_uri_of ''/ws/a.txt'', file_path = ''a.txt''\<rparr>,
      \<lparr>file_uri = file_uri_of ''/ws/b.txt'', file_path = ''b.txt''\<rparr>]"

definition ws_same_remoteMD5 :: "MD5Entry list" where
  "ws_same_remoteMD5 = [\<lparr>path = ''b.txt'', md5 = ''bb02''\<rparr>, \<lparr>path = ''a.txt'', md5 = ''aa01''\<rparr>]"

text \<open>
  The sample session with one watcher event in flight: \<open>c.md\<close> changes while
  \<open>putFiles\<close> is awaited (\<open>ws_late_env\<close>), or while the remote \<open>mkdir\<close> is
  (\<open>ws_early_env\<close>).
\<close>

definition ws_late_env :: env where
  "ws_late_env =
     ws_env\<lparr>arrivals :=
              (\<lambda>call. case call of
                         PutFiles _ \<Rightarrow> [DidChange (file_uri_of ''/ws/c.md'')]
                       | _ \<Rightarrow> [])\<rparr>"

definition ws_early_env :: env where
  "ws_early_env =
     ws_env\<lparr>arrivals :=
              (\<lambda>call. case call of
                         SendCommand _ \<Rightarrow> [DidChange (file_uri_of ''/ws/c.md'')]
                       | _ \<Rightarrow> [])\<rparr>"



text \<open>
  A local and a remote tree with the same two files and the same digests, \<open>a.txt\<close> and
  \<open>my file.txt\<close>. \<open>md5sum_lines\<close> is what \<open>md5sum\<close> prints for files with the given
  relative paths and digests: per file a line with the digest, two blanks and the path as
  \<open>find .\<close> names it. In \<open>ws_spaced_env\<close> the remote listing has a line for each of the
  two files; in \<open>ws_split_env\<close> it has none for \<open>my file.txt\<close>, as when the shell has
  split the output of \<open>$(find . -type f)\<close> at the blank and \<open>md5sum\<close> was given
  \<open>./my\<close> and \<open>file.txt\<close>, which do not exist.
\<close>

definition ws_spaced_tree :: "(string \<times> string) list" where
  "ws_spaced_tree = [(''a.txt'', ''aa01''), (''my file.txt'', ''dd04'')]"

definition md5sum_lines :: "(string \<times> string) list \<Rightarrow> string" where
  "md5sum_lines tree = join [CHR 0x0A] (map (\<lambda>kh. snd kh @ ''  ./'' @ fst kh) tree)"

definition ws_spaced_env :: env where
  "ws_spaced_env =
     ws_env\<lparr>sendCommand_stdout :=
              (\<lambda>cmd. Inr (if command cmd = ''ls | wc -l'' then ''2''
                           else if take 4 (command cmd) = ''/QOp'' then md5sum_lines ws_spaced_tree
                           else [])),
            vscode_findFiles :=
              (\<lambda>root inc exc. [file_uri_of ''/ws/a.txt'', file_uri_of ''/ws/my file.txt'']),
            readFile_md5 :=
              (\<lambda>f. if f = ''/ws/a.txt'' then Inr ''aa01''
                    else if f = ''/ws/my file.txt'' then Inr ''dd04''
                    else Inl (Rejected ''ENOENT''))\<rparr>"

definition ws_split_env :: env where
  "ws_split_env =
     ws_spaced_env\<lparr>sendCommand_stdout :=
              (\<lambda>cmd. Inr (if command cmd = ''ls | wc -l'' then ''2''
                           else if take 4 (command cmd) = ''/QOp''
                                then md5sum_lines [(''a.txt'', ''aa01'')]
                           else []))\<rparr>"

definition ws_spaced_localFiles :: "LocalFile list" where
  "ws_spaced_localFiles =
     [\<lparr>file_uri = file_uri_of ''/ws/a.txt'', file_path = ''a.txt''\<rparr>,
      \<lparr>file_uri = file_uri_of ''/ws/my file.txt'', file_path = ''my file.txt''\<rparr>]"

section \<open>The change tracker keeps its guards\<close>

lemma set_map_set: "set (map_set k v m) \<subseteq> insert (k, v) (set m)"
  by (induction m) (auto split: if_splits)

lemma set_map_delete: "set (map_delete k m) = {kv \<in> set m. fst kv \<noteq> k}"
  by (auto simp: map_delete_def)

lemma getChangesMap_None:
  "str_includes (fsPath u) ''.git'' \<or> scheme u = ''member'' \<or> scheme u = ''streamfile''
   \<Longrightarrow> getChangesMap e u wc = (None, wc)"
  by (auto simp: getChangesMap_def invalidFs_def)

lemma getChangesMap_Some:
  assumes "getChangesMap e u wc = (Some (folder, changes), wc')"
  shows "getWorkspaceFolder e u = Some folder \<and> scheme u \<noteq> ''member'' \<and> scheme u \<noteq> ''streamfile''
         \<and> \<not> str_includes (fsPath u) ''.git'' \<and> wc' folder = Some changes
         \<and> (\<forall>f. f \<noteq> folder \<longrightarrow> wc' f = wc f)
         \<and> (wc folder = Some changes \<or> (wc folder = None \<and> changes = []))"
  using assms
  by (auto simp: getChangesMap_def invalidFs_def split: if_splits option.splits)

lemma getChangesMap_None_same: "getChangesMap e u wc = (None, wc') \<Longrightarrow> wc' = wc"
  by (auto simp: getChangesMap_def split: if_splits option.splits)

lemma tracked_empty: "tracked e (\<lambda>_. None)"
  by (simp add: tracked_def)

lemma tracked_set:
  assumes t: "tracked e wc" and g: "getChangesMap e u wc = (Some (folder, changes), wc')"
  shows "tracked e (wc'(folder \<mapsto> map_set (fsPath u) u changes))"
proof -
  note G = getChangesMap_Some [OF g]
  show ?thesis
    unfolding tracked_def
  proof (intro allI impI)
    fix f cs k v
    assume a: "(wc'(folder \<mapsto> map_set (fsPath u) u changes)) f = Some cs" and b: "(k, v) \<in> set cs"
    show "k = fsPath v \<and> getWorkspaceFolder e v = Some f \<and>
        scheme v \<noteq> ''member'' \<and> scheme v \<noteq> ''streamfile'' \<and> \<not> str_includes (fsPath v) ''.git''"
    proof (cases "f = folder")
      case True
      then have "cs = map_set (fsPath u) u changes" using a by simp
      then have "(k, v) = (fsPath u, u) \<or> (k, v) \<in> set changes"
        using b set_map_set [of "fsPath u" u changes] by auto
      then show ?thesis
      proof
        assume "(k, v) = (fsPath u, u)" then show ?thesis using G True by simp
      next
        assume in_c: "(k, v) \<in> set changes"
        then have "wc folder = Some changes" using G by auto
        then show ?thesis using t in_c True unfolding tracked_def by blast
      qed
    next
      case False
      then have "wc f = Some cs" using a G by simp
      then show ?thesis using t b unfolding tracked_def by blast
    qed
  qed
qed

lemma tracked_delete:
  assumes t: "tracked e wc" and g: "getChangesMap e u wc = (Some (folder, changes), wc')"
  shows "tracked e (wc'(folder \<mapsto> map_delete k changes))"
proof -
  note G = getChangesMap_Some [OF g]
  show ?thesis
    unfolding tracked_def
  proof (intro allI impI)
    fix f cs k' v
    assume a: "(wc'(folder \<mapsto> map_delete k changes)) f = Some cs" and b: "(k', v) \<in> set cs"
    show "k' = fsPath v \<and> getWorkspaceFolder e v = Some f \<and>
        scheme v \<noteq> ''member'' \<and> scheme v \<noteq> ''streamfile'' \<and> \<not> str_includes (fsPath v) ''.git''"
    proof (cases "f = folder")
      case True
      then have "cs = map_delete k changes" using a by simp
      then have in_c: "(k', v) \<in> set changes" using b by (simp add: set_map_delete)
      then have "wc folder = Some changes" using G by auto
      then show ?thesis using t in_c True unfolding tracked_def by blast
    next
      case False
      then have "wc f = Some cs" using a G by simp
      then show ?thesis using t b unfolding tracked_def by blast
    qed
  qed
qed

lemma tracked_on_event: "tracked e wc \<Longrightarrow> tracked e (on_event e ev wc)"
proof (cases ev)
  case (DidChange u)
  assume t: "tracked e wc"
  show ?thesis
  proof (cases "getChangesMap e u wc")
    case (Pair r wc')
    then show ?thesis using t DidChange tracked_set [OF t] getChangesMap_None_same [of e u wc wc']
      by (cases r) (auto simp: onDidChange_def)
  qed
next
  case (DidCreate u)
  assume t: "tracked e wc"
  then show ?thesis using DidCreate by (simp add: onDidCreate_def)
next
  case (StatResolved u st)
  assume t: "tracked e wc"
  show ?thesis
  proof (cases "getChangesMap e u wc")
    case (Pair r wc')
    then show ?thesis using t StatResolved tracked_set [OF t] getChangesMap_None_same [of e u wc wc']
      by (cases r) (auto simp: onDidCreate_resumed_def split: option.splits)
  qed
next
  case (DidDelete u)
  assume t: "tracked e wc"
  show ?thesis
  proof (cases "getChangesMap e u wc")
    case (Pair r wc')
    then show ?thesis using t DidDelete tracked_delete [OF t] getChangesMap_None_same [of e u wc wc']
      by (cases r) (auto simp: onDidDelete_def)
  qed
qed

lemma tracked_on_events: "tracked e wc \<Longrightarrow> tracked e (on_events e evs wc)"
  by (induction evs arbitrary: wc) (auto intro: tracked_on_event)

lemma tracked_clear: "tracked e wc \<Longrightarrow> tracked e (clear_changes folder wc)"
  by (auto simp: tracked_def clear_changes_def split: option.splits if_splits)

lemma dropped_event:
  "str_includes (fsPath (event_uri ev)) ''.git'' \<or> scheme (event_uri ev) = ''member''
     \<or> scheme (event_uri ev) = ''streamfile''
   \<Longrightarrow> on_event e ev wc = wc"
  by (cases ev) (auto simp: onDidChange_def onDidCreate_def onDidCreate_resumed_def onDidDelete_def
      getChangesMap_None split: option.splits)

lemma str_includes_iff: "str_includes s sub \<longleftrightarrow> (\<exists>a b. s = a @ sub @ b)"
proof (induction s)
  case Nil
  then show ?case by auto
next
  case (Cons c cs)
  have sw: "startsWith (c # cs) sub \<longleftrightarrow> (\<exists>b. c # cs = sub @ b)"
    unfolding startsWith_def
    by (metis append_eq_conv_conj append_take_drop_id)
  show ?case
  proof
    assume "str_includes (c # cs) sub"
    then consider "startsWith (c # cs) sub" | "str_includes cs sub" by auto
    then show "\<exists>a b. c # cs = a @ sub @ b"
    proof cases
      case 1
      then obtain b where "c # cs = sub @ b" using sw by blast
      then have "c # cs = [] @ sub @ b" by simp
      then show ?thesis by blast
    next
      case 2
      then obtain a b where "cs = a @ sub @ b" using Cons.IH by blast
      then have "c # cs = (c # a) @ sub @ b" by simp
      then show ?thesis by blast
    qed
  next
    assume "\<exists>a b. c # cs = a @ sub @ b"
    then obtain a b where ab: "c # cs = a @ sub @ b" by blast
    show "str_includes (c # cs) sub"
    proof (cases a)
      case Nil
      then have "startsWith (c # cs) sub" using ab sw by auto
      then show ?thesis by simp
    next
      case (Cons x xs)
      then have "cs = xs @ sub @ b" using ab by simp
      then have "str_includes cs sub" using Cons.IH by blast
      then show ?thesis by simp
    qed
  qed
qed

lemma on_events_append: "on_events e (xs @ ys) wc = on_events e ys (on_events e xs wc)"
  by (induction xs arbitrary: wc) auto

lemma trace_emits [simp]: "trace (emits efs s) = trace s @ efs"
  by (simp add: emits_def)

lemma changes_emits [simp]: "workspaceChanges (emits efs s) = workspaceChanges s"
  by (simp add: emits_def)

lemma trace_emit [simp]: "trace (emit ef s) = trace s @ [ef]"
  by (simp add: emit_def)

lemma changes_emit [simp]: "workspaceChanges (emit ef s) = workspaceChanges s"
  by (simp add: emit_def)

lemma trace_deliver [simp]: "trace (deliver e evs s) = trace s @ map Watch evs"
  by (simp add: deliver_def)

lemma changes_deliver [simp]:
  "workspaceChanges (deliver e evs s) = on_events e evs (workspaceChanges s)"
  by (simp add: deliver_def)

lemma trace_await [simp]: "trace (await e call s) = trace s @ call # map Watch (arrivals e call)"
  by (simp add: await_def)

lemma changes_await [simp]:
  "workspaceChanges (await e call s) = on_events e (arrivals e call) (workspaceChanges s)"
  by (simp add: await_def)

lemma effects_since_append: "trace s' = trace s @ new \<Longrightarrow> effects_since s s' = new"
  by (simp add: effects_since_def)

lemma deployChanged_trace:
  "trace (snd (deployChanged e p s)) = trace s @
     (case workspaceChanges s (workspaceFolder p) of
        None \<Rightarrow> []
      | Some changes \<Rightarrow>
          if changes = [] then []
          else map uploading_line (deployChanged_uploads e p changes) @
               (case getClient e of
                  Inl _ \<Rightarrow> []
                | Inr _ \<Rightarrow>
                    PutFiles (transfers (deployChanged_uploads e p changes)) #
                    map Watch (arrivals e (PutFiles (transfers (deployChanged_uploads e p changes))))))"
  by (auto simp: deployChanged_def and_then_def tell_def putFiles_def Let_def
      split: option.splits sum.splits)

lemma deployChanged_PutFiles:
  assumes "PutFiles ups \<in> set (effects_since s (snd (deployChanged e p s)))"
  shows "\<exists>changes. workspaceChanges s (workspaceFolder p) = Some changes \<and>
           ups = transfers (deployChanged_uploads e p changes)"
proof -
  note t = effects_since_append [OF deployChanged_trace [of e p s]]
  show ?thesis using assms unfolding t
    by (cases "workspaceChanges s (workspaceFolder p)")
       (auto simp: uploading_line_def split: if_splits sum.splits)
qed

lemma deployChanged_uploads_local:
  "(l, r) \<in> set (transfers (deployChanged_uploads e p changes)) \<Longrightarrow> \<exists>u \<in> snd ` set changes. l = fsPath u"
  by (auto simp: transfers_def deployChanged_uploads_def toUpload_def)

lemma getChangesMap_None_cases:
  "getChangesMap e u wc = (None, wc') \<Longrightarrow>
     str_includes (fsPath u) ''.git'' \<or> scheme u = ''member'' \<or> scheme u = ''streamfile''
     \<or> getWorkspaceFolder e u = None"
  by (auto simp: getChangesMap_def invalidFs_def split: if_splits option.splits)

lemma delete_removes_key:
  assumes "scheme u \<noteq> ''member''" "scheme u \<noteq> ''streamfile''" "\<not> str_includes (fsPath u) ''.git''"
    and "getWorkspaceFolder e u = Some folder"
  shows "\<exists>changes. on_event e (DidDelete u) wc folder = Some changes \<and> fsPath u \<notin> fst ` set changes"
  using assms
  by (auto simp: onDidDelete_def getChangesMap_def invalidFs_def set_map_delete split: option.splits)

lemma delete_removes_entry:
  assumes t: "tracked e wc" and a: "on_event e (DidDelete u) wc folder = Some changes"
  shows "(fsPath u, u) \<notin> set changes"
proof (cases "getChangesMap e u wc")
  case (Pair r wc')
  show ?thesis
  proof (cases r)
    case None
    then have same: "on_event e (DidDelete u) wc = wc"
      using Pair getChangesMap_None_same [of e u wc wc'] by (simp add: onDidDelete_def)
    from None Pair getChangesMap_None_cases [of e u wc wc']
    have "str_includes (fsPath u) ''.git'' \<or> scheme u = ''member'' \<or> scheme u = ''streamfile''
       \<or> getWorkspaceFolder e u = None" by simp
    moreover have "wc folder = Some changes" using a same by simp
    ultimately show ?thesis
    proof (intro notI)
      assume d: "str_includes (fsPath u) ''.git'' \<or> scheme u = ''member'' \<or> scheme u = ''streamfile''
         \<or> getWorkspaceFolder e u = None"
        and w: "wc folder = Some changes" and i: "(fsPath u, u) \<in> set changes"
      from t w i have "getWorkspaceFolder e u = Some folder \<and>
        scheme u \<noteq> ''member'' \<and> scheme u \<noteq> ''streamfile'' \<and> \<not> str_includes (fsPath u) ''.git''"
        unfolding tracked_def by blast
      with d show False by simp
    qed
  next
    case (Some fc)
    obtain f cs where fc: "fc = (f, cs)" by (cases fc)
    note G = getChangesMap_Some [OF Pair [unfolded Some fc]]
    have res: "on_event e (DidDelete u) wc = wc'(f \<mapsto> map_delete (fsPath u) cs)"
      using Pair Some fc by (simp add: onDidDelete_def)
    show ?thesis
    proof (cases "folder = f")
      case True
      then have "changes = map_delete (fsPath u) cs" using a res by simp
      then show ?thesis by (simp add: set_map_delete)
    next
      case False
      then have w: "wc folder = Some changes" using a res G by simp
      show ?thesis
      proof
        assume i: "(fsPath u, u) \<in> set changes"
        from t w i have "getWorkspaceFolder e u = Some folder" unfolding tracked_def by blast
        with G False show False by simp
      qed
    qed
  qed
qed

lemma create_then_delete_then_stat:
  assumes "scheme u \<noteq> ''member''" "scheme u \<noteq> ''streamfile''" "\<not> str_includes (fsPath u) ''.git''"
    and "getWorkspaceFolder e u = Some folder"
  shows "on_events e [DidCreate u, DidDelete u, StatResolved u (Some FileType_File)] (\<lambda>_. None) folder
           = Some [(fsPath u, u)]"
  using assms
  by (simp add: onDidCreate_def onDidCreate_resumed_def onDidDelete_def getChangesMap_def
      invalidFs_def map_delete_def)

text \<open>
  Claim C9. Whatever sequence of steps the watcher's handlers run, starting from the
  empty registry, every entry of every folder's pending map is filed under the \<open>fsPath\<close>
  of its \<open>Uri\<close>, that path has no \<open>.git\<close> in it (so it is not under a \<open>/.git/\<close>
  directory) and the scheme is neither \<open>member\<close> nor \<open>streamfile\<close>. A created event
  records nothing when it fires; the continuation of its handler leaves the registry as it
  was when the \<open>stat\<close> rejected or reported anything but a regular file, and does what a
  changed event does when the \<open>stat\<close> reported a regular file. A deleted event that
  passes the guards leaves the folder's map without a key for that path, and when the
  handler of any deleted event has run no map holds the entry of that \<open>Uri\<close>. The entry
  of a created file is set when its \<open>stat\<close> has settled: if the file was deleted in
  between, the delete found nothing to remove and the entry is set after it.
\<close>

theorem change_tracker_invariant:
  "(\<forall>evs folder changes k u.
      on_events e evs (\<lambda>_. None) folder = Some changes \<longrightarrow> (k, u) \<in> set changes \<longrightarrow>
        k = fsPath u \<and> \<not> str_includes k ''.git'' \<and> (\<forall>root rest. k \<noteq> root @ ''/.git/'' @ rest) \<and>
        scheme u \<noteq> ''member'' \<and> scheme u \<noteq> ''streamfile'')
   \<and> (\<forall>u wc. on_event e (DidCreate u) wc = wc)
   \<and> (\<forall>u fileStat wc. fileStat \<noteq> Some FileType_File \<longrightarrow>
         on_event e (StatResolved u fileStat) wc = wc)
   \<and> (\<forall>u wc. on_event e (StatResolved u (Some FileType_File)) wc = on_event e (DidChange u) wc)
   \<and> (\<forall>u wc folder.
        scheme u \<noteq> ''member'' \<longrightarrow> scheme u \<noteq> ''streamfile'' \<longrightarrow> \<not> str_includes (fsPath u) ''.git'' \<longrightarrow>
        getWorkspaceFolder e u = Some folder \<longrightarrow>
        (\<exists>changes. on_event e (DidDelete u) wc folder = Some changes \<and>
                   fsPath u \<notin> fst ` set changes))
   \<and> (\<forall>evs u folder changes.
        on_events e (evs @ [DidDelete u]) (\<lambda>_. None) folder = Some changes \<longrightarrow>
        (fsPath u, u) \<notin> set changes)
   \<and> (\<forall>u folder.
        scheme u \<noteq> ''member'' \<longrightarrow> scheme u \<noteq> ''streamfile'' \<longrightarrow> \<not> str_includes (fsPath u) ''.git'' \<longrightarrow>
        getWorkspaceFolder e u = Some folder \<longrightarrow>
        on_events e [DidCreate u, DidDelete u, StatResolved u (Some FileType_File)] (\<lambda>_. None) folder
          = Some [(fsPath u, u)])"
proof (intro conjI allI impI)
  fix evs folder changes k u
  assume a: "on_events e evs (\<lambda>_. None) folder = Some changes" and b: "(k, u) \<in> set changes"
  have t: "tracked e (on_events e evs (\<lambda>_. None))"
    by (rule tracked_on_events [OF tracked_empty])
  from t a b have k: "k = fsPath u" and g: "\<not> str_includes (fsPath u) ''.git''"
    and m: "scheme u \<noteq> ''member''" and sf: "scheme u \<noteq> ''streamfile''"
    unfolding tracked_def by blast+
  show "k = fsPath u" by (rule k)
  show "\<not> str_includes k ''.git''" using k g by simp
  show "scheme u \<noteq> ''member''" by (rule m)
  show "scheme u \<noteq> ''streamfile''" by (rule sf)
  fix root rest
  show "k \<noteq> root @ ''/.git/'' @ rest"
  proof
    assume "k = root @ ''/.git/'' @ rest"
    then have "k = (root @ ''/'') @ ''.git'' @ (''/'' @ rest)" by simp
    then have "str_includes k ''.git''" unfolding str_includes_iff by blast
    then show False using k g by simp
  qed
next
  fix u wc
  show "on_event e (DidCreate u) wc = wc" by (simp add: onDidCreate_def)
next
  fix u fileStat wc
  assume "fileStat \<noteq> Some FileType_File"
  then show "on_event e (StatResolved u fileStat) wc = wc"
    by (cases fileStat) (auto simp: onDidCreate_resumed_def)
next
  fix u wc
  show "on_event e (StatResolved u (Some FileType_File)) wc = on_event e (DidChange u) wc"
    by (simp add: onDidCreate_resumed_def onDidChange_def)
next
  fix u wc folder
  assume "scheme u \<noteq> ''member''" "scheme u \<noteq> ''streamfile''" "\<not> str_includes (fsPath u) ''.git''"
    "getWorkspaceFolder e u = Some folder"
  then show "\<exists>changes. on_event e (DidDelete u) wc folder = Some changes \<and>
                   fsPath u \<notin> fst ` set changes"
    by (rule delete_removes_key)
next
  fix evs u folder changes
  assume a: "on_events e (evs @ [DidDelete u]) (\<lambda>_. None) folder = Some changes"
  have t: "tracked e (on_events e evs (\<lambda>_. None))"
    by (rule tracked_on_events [OF tracked_empty])
  from a have "on_event e (DidDelete u) (on_events e evs (\<lambda>_. None)) folder = Some changes"
    by (simp add: on_events_append)
  from delete_removes_entry [OF t this] show "(fsPath u, u) \<notin> set changes" .
next
  fix u folder
  assume "scheme u \<noteq> ''member''" "scheme u \<noteq> ''streamfile''" "\<not> str_includes (fsPath u) ''.git''"
    "getWorkspaceFolder e u = Some folder"
  then show "on_events e [DidCreate u, DidDelete u, StatResolved u (Some FileType_File)] (\<lambda>_. None) folder
          = Some [(fsPath u, u)]"
    by (rule create_then_delete_then_stat)
qed

lemma ws_events_run:
  "on_events ws_env ws_events (\<lambda>_. None) ws = Some [(''/ws/b.txt'', file_uri_of ''/ws/b.txt'')]"
  by (simp add: ws_events_def ws_env_def onDidChange_def onDidCreate_def onDidCreate_resumed_def
      onDidDelete_def getChangesMap_def invalidFs_def file_uri_of_def FileType_File_def
      startsWith_def map_delete_def)

lemma ws_events_run_all:
  "on_events ws_env ws_events (\<lambda>_. None) = (\<lambda>_. None)(ws \<mapsto> [(''/ws/b.txt'', file_uri_of ''/ws/b.txt'')])"
  by (simp add: ws_events_def ws_env_def onDidChange_def onDidCreate_def onDidCreate_resumed_def
      onDidDelete_def getChangesMap_def invalidFs_def file_uri_of_def FileType_File_def
      startsWith_def map_delete_def)

lemma ws_late_stat_guards:
  "scheme (file_uri_of ''/ws/d.txt'') \<noteq> ''member'' \<and> scheme (file_uri_of ''/ws/d.txt'') \<noteq> ''streamfile''
   \<and> \<not> str_includes (fsPath (file_uri_of ''/ws/d.txt'')) ''.git''
   \<and> getWorkspaceFolder ws_env (file_uri_of ''/ws/d.txt'') = Some ws"
  by (simp add: file_uri_of_def ws_env_def startsWith_def)

theorem change_tracker_invariant_witness:
  "on_events ws_env ws_events (\<lambda>_. None) ws = Some [(''/ws/b.txt'', file_uri_of ''/ws/b.txt'')]
   \<and> \<not> str_includes ''/ws/b.txt'' ''.git''
   \<and> scheme (file_uri_of ''/ws/b.txt'') \<noteq> ''member''
   \<and> scheme (file_uri_of ''/ws/b.txt'') \<noteq> ''streamfile''
   \<and> on_event ws_env (DidCreate (file_uri_of ''/ws/lib'')) (\<lambda>_. None) = (\<lambda>_. None)
   \<and> on_event ws_env (StatResolved (file_uri_of ''/ws/lib'') (Some 2)) (\<lambda>_. None) = (\<lambda>_. None)
   \<and> on_events ws_env
        [DidCreate (file_uri_of ''/ws/d.txt''), DidDelete (file_uri_of ''/ws/d.txt''),
         StatResolved (file_uri_of ''/ws/d.txt'') (Some FileType_File)] (\<lambda>_. None) ws
       = Some [(''/ws/d.txt'', file_uri_of ''/ws/d.txt'')]"
proof -
  have mem: "(''/ws/b.txt'', file_uri_of ''/ws/b.txt'') \<in> set [(''/ws/b.txt'', file_uri_of ''/ws/b.txt'')]"
    by simp
  have dir: "Some (2::nat) \<noteq> Some FileType_File" by (simp add: FileType_File_def)
  have p: "fsPath (file_uri_of ''/ws/d.txt'') = ''/ws/d.txt''" by (simp add: file_uri_of_def)
  from change_tracker_invariant [of ws_env, THEN conjunct2, THEN conjunct2, THEN conjunct2,
      THEN conjunct2, THEN conjunct2, THEN conjunct2] ws_late_stat_guards
  have late: "on_events ws_env
        [DidCreate (file_uri_of ''/ws/d.txt''), DidDelete (file_uri_of ''/ws/d.txt''),
         StatResolved (file_uri_of ''/ws/d.txt'') (Some FileType_File)] (\<lambda>_. None) ws
       = Some [(fsPath (file_uri_of ''/ws/d.txt''), file_uri_of ''/ws/d.txt'')]"
    by blast
  note T = change_tracker_invariant [of ws_env]
  from T [THEN conjunct1] ws_events_run mem
  have inv: "\<not> str_includes ''/ws/b.txt'' ''.git''
   \<and> scheme (file_uri_of ''/ws/b.txt'') \<noteq> ''member''
   \<and> scheme (file_uri_of ''/ws/b.txt'') \<noteq> ''streamfile''"
    by blast
  have fired: "on_event ws_env (DidCreate (file_uri_of ''/ws/lib'')) (\<lambda>_. None) = (\<lambda>_. None)"
    using T [THEN conjunct2, THEN conjunct1] by simp
  have resolved: "on_event ws_env (StatResolved (file_uri_of ''/ws/lib'') (Some 2)) (\<lambda>_. None)
      = (\<lambda>_. None)"
    using T [THEN conjunct2, THEN conjunct2, THEN conjunct1] dir by simp
  show ?thesis using ws_events_run inv fired resolved late unfolding p by simp
qed

text \<open>
  Claim C10. An event whose \<open>fsPath\<close> has the substring \<open>.git\<close> anywhere in it
  (\<open>/ws/notes.gitbook\<close> as much as \<open>/ws/.git/index\<close>) leaves the registry as it was,
  whatever its kind; no sequence of events puts that path in a pending map; and no
  \<open>putFiles\<close> call of the "changed" strategy uploads it.
\<close>

theorem git_substring_event_dropped:
  "str_includes (fsPath (event_uri ev)) ''.git'' \<Longrightarrow>
     on_event e ev wc = wc
     \<and> (\<forall>evs folder changes.
          on_events e evs (\<lambda>_. None) folder = Some changes \<longrightarrow>
          fsPath (event_uri ev) \<notin> fst ` set changes)
     \<and> (\<forall>evs p s ups.
          workspaceChanges s = on_events e evs (\<lambda>_. None) \<longrightarrow>
          PutFiles ups \<in> set (effects_since s (snd (deployChanged e p s))) \<longrightarrow>
          fsPath (event_uri ev) \<notin> fst ` set ups)"
proof (intro conjI allI impI)
  assume g: "str_includes (fsPath (event_uri ev)) ''.git''"
  show "on_event e ev wc = wc" using g by (simp add: dropped_event)
  have key: "fsPath (event_uri ev) \<notin> fst ` set changes"
    if a: "on_events e evs (\<lambda>_. None) folder = Some changes" for evs folder changes
  proof
    assume "fsPath (event_uri ev) \<in> fst ` set changes"
    then obtain u where i: "(fsPath (event_uri ev), u) \<in> set changes" by auto
    have "tracked e (on_events e evs (\<lambda>_. None))"
      by (rule tracked_on_events [OF tracked_empty])
    with a i have "fsPath (event_uri ev) = fsPath u \<and> \<not> str_includes (fsPath u) ''.git''"
      unfolding tracked_def by blast
    with g show False by simp
  qed
  show "fsPath (event_uri ev) \<notin> fst ` set changes"
    if "on_events e evs (\<lambda>_. None) folder = Some changes" for evs folder changes
    using that by (rule key)
  show "fsPath (event_uri ev) \<notin> fst ` set ups"
    if w: "workspaceChanges s = on_events e evs (\<lambda>_. None)"
      and pf: "PutFiles ups \<in> set (effects_since s (snd (deployChanged e p s)))"
    for evs p s ups
  proof
    assume "fsPath (event_uri ev) \<in> fst ` set ups"
    then obtain r where lr: "(fsPath (event_uri ev), r) \<in> set ups" by auto
    from deployChanged_PutFiles [OF pf] obtain changes
      where c: "workspaceChanges s (workspaceFolder p) = Some changes"
        and u: "ups = transfers (deployChanged_uploads e p changes)" by blast
    from lr u deployChanged_uploads_local [of "fsPath (event_uri ev)" r e p changes]
    obtain k v where kv: "(k, v) \<in> set changes" and f: "fsPath (event_uri ev) = fsPath v"
      by auto
    have "tracked e (on_events e evs (\<lambda>_. None))"
      by (rule tracked_on_events [OF tracked_empty])
    with c w kv have "\<not> str_includes (fsPath v) ''.git''"
      unfolding tracked_def by metis
    with g f show False by simp
  qed
qed

lemma ws_changed_run:
  "effects_since \<lparr>workspaceChanges = on_events ws_env ws_events (\<lambda>_. None), trace = []\<rparr>
     (snd (deployChanged ws_env (ws_parameters changed)
        \<lparr>workspaceChanges = on_events ws_env ws_events (\<lambda>_. None), trace = []\<rparr>))
   = [LogLine ''UPLOADING: /ws/b.txt -> /home/dev/ws/b.txt'',
      PutFiles [(''/ws/b.txt'', ''/home/dev/ws/b.txt'')]]"
  unfolding ws_events_run_all
  by (simp add: effects_since_def deployChanged_def ws_parameters_def and_then_def tell_def
      putFiles_def getClient_def getConnection_def deployChanged_uploads_def changedFile_kept_def
      toUpload_def toRelative_def transfers_def uploading_line_def ignores_def
      launchDeploy_ignoreRules_def ignore_add_def createRule_def startsWith_def
      backslashes_to_slashes_def ws_def file_uri_of_def ws_env_def sample_matches_def
      toLowerCase_def)

theorem git_substring_event_dropped_witness:
  "str_includes (fsPath (event_uri (DidChange (file_uri_of ''/ws/notes.gitbook'')))) ''.git''
   \<and> on_event ws_env (DidChange (file_uri_of ''/ws/notes.gitbook'')) (\<lambda>_. None) = (\<lambda>_. None)
   \<and> PutFiles [(''/ws/b.txt'', ''/home/dev/ws/b.txt'')] \<in>
       set (effects_since \<lparr>workspaceChanges = on_events ws_env ws_events (\<lambda>_. None), trace = []\<rparr>
         (snd (deployChanged ws_env (ws_parameters changed)
            \<lparr>workspaceChanges = on_events ws_env ws_events (\<lambda>_. None), trace = []\<rparr>)))
   \<and> ''/ws/notes.gitbook'' \<notin> fst ` set [(''/ws/b.txt'', ''/home/dev/ws/b.txt'')]"
proof -
  have g: "str_includes (fsPath (event_uri (DidChange (file_uri_of ''/ws/notes.gitbook'')))) ''.git''"
    by (simp add: file_uri_of_def startsWith_def)
  have pf: "PutFiles [(''/ws/b.txt'', ''/home/dev/ws/b.txt'')] \<in>
       set (effects_since \<lparr>workspaceChanges = on_events ws_env ws_events (\<lambda>_. None), trace = []\<rparr>
         (snd (deployChanged ws_env (ws_parameters changed)
            \<lparr>workspaceChanges = on_events ws_env ws_events (\<lambda>_. None), trace = []\<rparr>)))"
    unfolding ws_changed_run by simp
  have w: "workspaceChanges \<lparr>workspaceChanges = on_events ws_env ws_events (\<lambda>_. None), trace = []\<rparr>
     = on_events ws_env ws_events (\<lambda>_. None)" by simp
  from git_substring_event_dropped [OF g, of ws_env "\<lambda>_. None"] w pf
  have "on_event ws_env (DidChange (file_uri_of ''/ws/notes.gitbook'')) (\<lambda>_. None) = (\<lambda>_. None)
    \<and> fsPath (event_uri (DidChange (file_uri_of ''/ws/notes.gitbook'')))
        \<notin> fst ` set [(''/ws/b.txt'', ''/home/dev/ws/b.txt'')]"
    by blast
  then show ?thesis using g pf by (simp add: file_uri_of_def)
qed

section \<open>Every step only appends to the trace\<close>

lemma watched_append [simp]: "watched (xs @ ys) = watched xs @ watched ys"
  by (induction xs rule: watched.induct) auto

lemma watched_map_Watch [simp]: "watched (map Watch evs) = evs"
  by (induction evs) auto

lemma watched_local: "list_all (\<lambda>ef. \<not> is_watch ef) efs \<Longrightarrow> watched efs = []"
  by (induction efs rule: watched.induct) auto

lemma growsI:
  "trace s' = trace s @ new \<Longrightarrow> list_all allowed new \<Longrightarrow>
   workspaceChanges s' = on_events e (watched new) (workspaceChanges s) \<Longrightarrow> grows e allowed s s'"
  unfolding grows_def by blast

lemma grows_refl: "grows e allowed s s"
  by (rule growsI [where new = "[]"]) auto

lemma grows_trans:
  assumes "grows e allowed s s'" and "grows e allowed s' s''"
  shows "grows e allowed s s''"
proof -
  from assms(1) obtain n1 where 1: "trace s' = trace s @ n1" "list_all allowed n1"
    "workspaceChanges s' = on_events e (watched n1) (workspaceChanges s)"
    unfolding grows_def by blast
  from assms(2) obtain n2 where 2: "trace s'' = trace s' @ n2" "list_all allowed n2"
    "workspaceChanges s'' = on_events e (watched n2) (workspaceChanges s')"
    unfolding grows_def by blast
  show ?thesis
    by (rule growsI [where new = "n1 @ n2"]) (simp_all add: 1 2 on_events_append)
qed

lemma grows_emits:
  "list_all allowed efs \<Longrightarrow> list_all (\<lambda>ef. \<not> is_watch ef) efs \<Longrightarrow> grows e allowed s (emits efs s)"
  by (rule growsI [where new = efs]) (simp_all add: watched_local)

lemma grows_deliver:
  "list_all allowed (map Watch evs) \<Longrightarrow> grows e allowed s (deliver e evs s)"
  by (rule growsI [where new = "map Watch evs"]) simp_all

lemma grows_await:
  assumes "permits e allowed" "allowed call" "\<not> is_watch call"
  shows "grows e allowed s (await e call s)"
proof -
  have "list_all allowed (map Watch (arrivals e call))"
    using assms(1) by (auto simp: permits_def list_all_iff)
  then have "grows e allowed (emit call s) (deliver e (arrivals e call) (emit call s))"
    by (rule grows_deliver)
  moreover have "grows e allowed s (emit call s)"
    unfolding emit_def using assms by (intro grows_emits) simp_all
  ultimately show ?thesis unfolding await_def by (blast intro: grows_trans)
qed

lemma confinedI: "(\<And>s. grows e allowed s (snd (m s))) \<Longrightarrow> confined e allowed m"
  by (simp add: confined_def)

lemma confinedD: "confined e allowed m \<Longrightarrow> grows e allowed s (snd (m s))"
  by (simp add: confined_def)

lemma confined_lift: "confined e allowed (lift r)"
  by (rule confinedI) (simp add: lift_def grows_refl)

lemma confined_tell:
  "list_all (\<lambda>ef. is_local ef) efs \<Longrightarrow> permits e allowed \<Longrightarrow> confined e allowed (tell efs)"
proof (rule confinedI)
  fix s
  assume l: "list_all (\<lambda>ef. is_local ef) efs" and p: "permits e allowed"
  have "list_all allowed efs" using l p by (auto simp: permits_def list_all_iff)
  moreover have "list_all (\<lambda>ef. \<not> is_watch ef) efs"
  proof -
    have "\<not> is_watch ef" if "is_local ef" for ef using that by (cases ef) auto
    then show ?thesis using l by (auto simp: list_all_iff)
  qed
  ultimately show "grows e allowed s (snd (tell efs s))"
    by (simp add: tell_def grows_emits)
qed

lemma confined_and_then:
  assumes "confined e allowed m" and "\<And>x. confined e allowed (f x)"
  shows "confined e allowed (and_then m f)"
proof (rule confinedI)
  fix s
  obtain r s' where ms: "m s = (r, s')" by (cases "m s")
  have g1: "grows e allowed s s'" using confinedD [OF assms(1), of s] ms by simp
  show "grows e allowed s (snd (and_then m f s))"
  proof (cases r)
    case (Inl err)
    then show ?thesis using ms g1 by (simp add: and_then_def)
  next
    case (Inr a)
    have "grows e allowed s' (snd (f a s'))" by (rule confinedD [OF assms(2)])
    then show ?thesis using ms Inr g1 by (auto simp: and_then_def intro: grows_trans)
  qed
qed

lemma confined_sendCommand:
  "permits e allowed \<Longrightarrow> allowed (SendCommand cmd) \<Longrightarrow> confined e allowed (sendCommand e cmd)"
  by (rule confinedI) (auto simp: sendCommand_def grows_refl grows_await split: sum.splits)

lemma confined_putFiles:
  "permits e allowed \<Longrightarrow> allowed (PutFiles ups) \<Longrightarrow> confined e allowed (putFiles e ups)"
  by (rule confinedI) (auto simp: putFiles_def grows_refl grows_await split: sum.splits)

lemma confined_findFiles:
  "permits e allowed \<Longrightarrow> (\<And>a b c. allowed (FindFiles a b c)) \<Longrightarrow>
   confined e allowed (findFiles e p inc exc)"
  by (rule confinedI) (auto simp: findFiles_def Let_def grows_await)

lemma local_tick: "list_all (\<lambda>ef. is_local ef) (tick t)"
  by (cases t) (auto simp: tick_def Let_def split: option.splits)

lemma local_ticks: "list_all (\<lambda>ef. is_local ef) (concat (map tick ts))"
  using local_tick by (induction ts) auto

lemma confined_putDirectory:
  assumes p: "permits e allowed" and a: "\<And>x y z. allowed (PutDirectory x y z)"
  shows "confined e allowed (putDirectory e l r valid tick)"
proof (rule confinedI)
  fix s
  define accepted where "accepted = filter (\<lambda>t. valid (fst t)) (putDirectory_walk e l r)"
  define call where "call = PutDirectory l r (map fst accepted)"
  define efs where "efs = call # concat (map tick accepted)"
  have loc: "list_all (\<lambda>ef. is_local ef) (concat (map tick accepted))" by (rule local_ticks)
  have al: "list_all allowed efs"
    using loc p a by (auto simp: efs_def call_def permits_def list_all_iff)
  have nw: "list_all (\<lambda>ef. \<not> is_watch ef) efs"
  proof -
    have "\<not> is_watch ef" if "is_local ef" for ef using that by (cases ef) auto
    then show ?thesis using loc by (auto simp: efs_def call_def list_all_iff)
  qed
  have g1: "grows e allowed s (emits efs s)" using al nw by (rule grows_emits)
  have "list_all allowed (map Watch (arrivals e call))"
    using p by (auto simp: permits_def list_all_iff)
  then have g2: "grows e allowed (emits efs s) (deliver e (arrivals e call) (emits efs s))"
    by (rule grows_deliver)
  have g: "grows e allowed s (deliver e (arrivals e call) (emits efs s))"
    using g1 g2 by (rule grows_trans)
  show "grows e allowed s (snd (putDirectory e l r valid tick s))"
    using g
    by (auto simp: putDirectory_def Let_def grows_refl accepted_def call_def efs_def
        split: sum.splits)
qed

lemma confined_deployAll:
  assumes p: "permits e allowed" and a: "\<And>x y z. allowed (PutDirectory x y z)"
  shows "confined e allowed (deployAll e p')"
proof (rule confinedI)
  fix s
  define nm where "nm = path_basename e (uri_path (folder_uri (workspaceFolder p')))"
  define s1 where "s1 = emits [WithProgress (''Deploying '' @ nm),
                      ProgressReport (Some (''Deploying '' @ nm)) None] s"
  have loc: "\<And>ef. is_local ef \<Longrightarrow> allowed ef" using p by (simp add: permits_def)
  have g1: "grows e allowed s s1" unfolding s1_def by (intro grows_emits) (simp_all add: loc)
  have step: "grows e allowed s1 (emit ef s1)" if "is_local ef" for ef s1
  proof -
    have "\<not> is_watch ef" using that by (cases ef) auto
    then show ?thesis unfolding emit_def using that by (intro grows_emits) (simp_all add: loc)
  qed
  have eq: "deployAll e p' s =
     (if startsWith (remotePath p') ''/'' then
           (case putDirectory e (fsPath (folder_uri (workspaceFolder p'))) (remotePath p')
                   (validate e p') tick s1 of
              (Inr _, s2) \<Rightarrow>
                (Inr (), emit (ProgressReport (Some ''Deployment finished.'') None) s2)
            | (Inl err, s2) \<Rightarrow>
                (Inl err, emit (ProgressReport (Some ''Deployment failed.'') None) s2))
         else
           (Inl (Error ''Invalid deployment path''),
            emit (LogLine ''Deployment cancelled. Not sure where to deploy workspace.'') s1))"
    unfolding s1_def nm_def by (simp add: deployAll_def Let_def)
  show "grows e allowed s (snd (deployAll e p' s))"
  proof (cases "startsWith (remotePath p') ''/''")
    case False
    then show ?thesis
      using grows_trans [OF g1 step [of "LogLine ''Deployment cancelled. Not sure where to deploy workspace.''" s1]]
      by (simp add: eq)
  next
    case True
    obtain r s2 where pd: "putDirectory e (fsPath (folder_uri (workspaceFolder p'))) (remotePath p')
                   (validate e p') tick s1 = (r, s2)" by (cases "putDirectory e (fsPath (folder_uri (workspaceFolder p'))) (remotePath p')
                   (validate e p') tick s1")
    have "grows e allowed s1 (snd (putDirectory e (fsPath (folder_uri (workspaceFolder p')))
                   (remotePath p') (validate e p') tick s1))"
      by (rule confinedD [OF confined_putDirectory [OF p a]])
    then have g2: "grows e allowed s1 s2" using pd by simp
    have g12: "grows e allowed s s2" using g1 g2 by (rule grows_trans)
    show ?thesis
    proof (cases r)
      case (Inl err)
      then show ?thesis
        using True pd grows_trans [OF g12 step [of "ProgressReport (Some ''Deployment failed.'') None" s2]]
        by (simp add: eq)
    next
      case (Inr u)
      then show ?thesis
        using True pd grows_trans [OF g12 step [of "ProgressReport (Some ''Deployment finished.'') None" s2]]
        by (simp add: eq)
    qed
  qed
qed

lemma local_uploading_lines: "list_all (\<lambda>ef. is_local ef) (map uploading_line ups)"
  by (induction ups) (auto simp: uploading_line_def)

lemma confined_deployChanged:
  assumes p: "permits e allowed" and a: "\<And>ups. allowed (PutFiles ups)"
  shows "confined e allowed (deployChanged e p')"
proof (rule confinedI)
  fix s
  show "grows e allowed s (snd (deployChanged e p' s))"
  proof (cases "workspaceChanges s (workspaceFolder p')")
    case None
    then show ?thesis by (simp add: deployChanged_def grows_refl)
  next
    case (Some changes)
    have "confined e allowed
            (and_then (tell (map uploading_line (deployChanged_uploads e p' changes)))
               (\<lambda>_. putFiles e (transfers (deployChanged_uploads e p' changes))))"
      by (intro confined_and_then confined_tell confined_putFiles local_uploading_lines p a)
    from confinedD [OF this, of s] show ?thesis
      using Some by (simp add: deployChanged_def Let_def grows_refl)
  qed
qed

lemma confined_deployGit:
  assumes p: "permits e allowed" and a: "\<And>ups. allowed (PutFiles ups)"
  shows "confined e allowed (deployGit e p' ct)"
proof (rule confinedI)
  fix s
  have body: "confined e allowed
     (and_then (tell (map uploading_line ups @ [InformationMessage msg]))
        (\<lambda>_. if c then putFiles e (transfers ups) else lift (Inl err)))" for ups msg c err
    by (intro confined_and_then confined_tell p)
       (auto simp: local_uploading_lines confined_putFiles confined_lift p a)
  have warn: "confined e allowed (tell [WarningMessage msg])" for msg
    by (intro confined_tell p) simp
  show "grows e allowed s (snd (deployGit e p' ct s))"
    using confinedD [OF body] confinedD [OF warn]
    by (auto simp: deployGit_def Let_def grows_refl split: option.splits)
qed

text \<open>What arrives during a run: the watcher events some call of the run let in.\<close>

lemma permits_arrived:
  "permits e (\<lambda>ef. \<forall>ev. ef = Watch ev \<longrightarrow> (\<exists>call. ev \<in> set (arrivals e call)))"
  by (auto simp: permits_def)

lemma no_arrivals_watched:
  assumes "\<forall>call. arrivals e call = []"
    and "list_all (\<lambda>ef. \<forall>ev. ef = Watch ev \<longrightarrow> (\<exists>call. ev \<in> set (arrivals e call))) efs"
  shows "watched efs = []"
  using assms(2)
proof (induction efs rule: watched.induct)
  case (2 ev efs)
  then show ?case using assms(1) by simp
qed simp_all

lemma confined_compare_delete:
  assumes p: "permits e allowed"
    and a: "toDelete \<noteq> [] \<Longrightarrow> allowed (SendCommand (rm_command p' toDelete))"
  shows "confined e allowed (compare_delete e p' toDelete)"
proof (cases "0 < length toDelete")
  case True
  then have al: "allowed (SendCommand (rm_command p' toDelete))" using a by auto
  have "confined e allowed
          (and_then (tell [ProgressReport m1 i1, LogLine m2])
             (\<lambda>_. and_then (sendCommand e (rm_command p' toDelete)) (\<lambda>_. lift (Inr ()))))"
    for m1 i1 m2
    by (intro confined_and_then confined_tell confined_sendCommand confined_lift p al) simp
  then show ?thesis using True by (simp add: compare_delete_def)
next
  case False
  have "confined e allowed (tell [ProgressReport None (Some 25)])"
    by (intro confined_tell p) simp
  then show ?thesis using False by (simp add: compare_delete_def)
qed

lemma confined_compare_upload:
  assumes p: "permits e allowed"
    and a: "uploads \<noteq> [] \<Longrightarrow> allowed (SendCommand (mkdirs_command e uploads))"
    and b: "uploads \<noteq> [] \<Longrightarrow> allowed (PutFiles uploads)"
  shows "confined e allowed (compare_upload e p' uploads)"
proof (cases "0 < length uploads")
  case True
  then have al: "allowed (SendCommand (mkdirs_command e uploads))" "allowed (PutFiles uploads)"
    using a b by auto
  have "confined e allowed
          (and_then (tell [ProgressReport m1 i1])
             (\<lambda>_. and_then (sendCommand e (mkdirs_command e uploads))
             (\<lambda>_. and_then (tell [ProgressReport m2 i2, LogLine m3])
             (\<lambda>_. putFiles e uploads))))" for m1 i1 m2 i2 m3
    by (intro confined_and_then confined_tell confined_sendCommand confined_putFiles p al)
       simp_all
  then show ?thesis using True by (simp add: compare_upload_def)
next
  case False
  have "confined e allowed (tell [ProgressReport None (Some 25)])"
    by (intro confined_tell p) simp
  then show ?thesis using False by (simp add: compare_upload_def)
qed

lemma confined_compare_apply:
  assumes p: "permits e allowed"
    and a: "snd plan \<noteq> [] \<Longrightarrow> allowed (SendCommand (rm_command p' (snd plan)))"
    and b: "fst plan \<noteq> [] \<Longrightarrow> allowed (SendCommand (mkdirs_command e (fst plan)))"
    and c: "fst plan \<noteq> [] \<Longrightarrow> allowed (PutFiles (fst plan))"
    and d: "allowed (SendCommand (rmdir_command p'))"
  shows "confined e allowed (compare_apply e p' plan)"
  unfolding compare_apply_def
  by (intro confined_and_then confined_tell confined_sendCommand confined_compare_delete
        confined_compare_upload p a b c d)
     simp_all

lemma confined_compare_sync:
  assumes p: "permits e allowed" and a: "\<And>cmd. allowed (SendCommand cmd)"
    and b: "\<And>ups. allowed (PutFiles ups)" and c: "\<And>x y z. allowed (FindFiles x y z)"
  shows "confined e allowed (compare_sync e p')"
  unfolding compare_sync_def Let_def
  by (intro confined_and_then confined_tell confined_sendCommand confined_lift
        confined_findFiles confined_compare_apply p a b c)
     simp_all

lemma confined_deployCompare:
  assumes p: "permits e allowed" and a: "\<And>cmd. allowed (SendCommand cmd)"
    and b: "\<And>ups. allowed (PutFiles ups)" and c: "\<And>x y z. allowed (FindFiles x y z)"
    and d: "\<And>x y z. allowed (PutDirectory x y z)"
  shows "confined e allowed (deployCompare e p')"
proof -
  have empty: "confined e allowed (and_then (tell [LogLine m]) (\<lambda>_. deployAll e p'))" for m
    by (intro confined_and_then confined_tell confined_deployAll p d) simp
  have branch: "confined e allowed
     (let isEmpty = (out = ''0'')
      in if isEmpty then and_then (tell [LogLine m]) (\<lambda>_. deployAll e p')
         else compare_sync e p')" for out m
    by (simp add: empty confined_compare_sync p a b c)
  have inner: "confined e allowed
     (if md5sum_feature e then
        and_then (sendCommand e (line_count_command p'))
          (\<lambda>out. let isEmpty = (out = ''0'')
                  in if isEmpty then and_then (tell [LogLine m]) (\<lambda>_. deployAll e p')
                     else compare_sync e p')
      else lift (Inl err))" for m err
    by (cases "md5sum_feature e")
       (simp_all only: if_True if_False confined_lift,
        intro confined_and_then confined_sendCommand branch p a)
  show ?thesis
    unfolding deployCompare_def
    by (intro confined_and_then confined_lift inner)
qed

lemma confined_strategy:
  assumes p: "permits e allowed" and a: "\<And>cmd. allowed (SendCommand cmd)"
    and b: "\<And>ups. allowed (PutFiles ups)" and c: "\<And>x y z. allowed (FindFiles x y z)"
    and d: "\<And>x y z. allowed (PutDirectory x y z)"
  shows "confined e allowed (strategy e p')"
  unfolding strategy_def
  by (cases "method p'")
     (simp_all add: confined_deployGit confined_deployChanged confined_deployCompare
        confined_deployAll p a b c d)

lemma confined_deploy_try:
  assumes p: "permits e allowed" and a: "\<And>cmd. allowed (SendCommand cmd)"
    and b: "\<And>ups. allowed (PutFiles ups)" and c: "\<And>x y z. allowed (FindFiles x y z)"
    and d: "\<And>x y z. allowed (PutDirectory x y z)"
  shows "confined e allowed (deploy_try e p')"
  unfolding deploy_try_def createRemoteDirectory_def
  by (intro confined_and_then confined_tell confined_sendCommand confined_strategy p a b c d)
     simp_all

section \<open>The orchestrator and the bulk transfer\<close>

lemma deploy_try_grows:
  "grows e (\<lambda>ef. \<forall>ev. ef = Watch ev \<longrightarrow> (\<exists>call. ev \<in> set (arrivals e call))) s
     (snd (deploy_try e p s))"
  by (rule confinedD [OF confined_deploy_try [OF permits_arrived]]) simp_all

lemma deploy_run:
  obtains new extra where
    "trace (snd (deploy e p s)) = trace s @ new @ extra"
    "watched extra = []" "list_all (\<lambda>ef. is_local ef) extra"
    "list_all (\<lambda>ef. \<forall>ev. ef = Watch ev \<longrightarrow> (\<exists>call. ev \<in> set (arrivals e call))) new"
    "workspaceChanges (snd (deploy e p s)) =
       (if fst (deploy e p s)
        then clear_changes (workspaceFolder p) (on_events e (watched new) (workspaceChanges s))
        else on_events e (watched new) (workspaceChanges s))"
proof -
  obtain r s' where t: "deploy_try e p s = (r, s')" by (cases "deploy_try e p s")
  have g: "grows e (\<lambda>ef. \<forall>ev. ef = Watch ev \<longrightarrow> (\<exists>call. ev \<in> set (arrivals e call))) s s'"
    using deploy_try_grows [of e s p] t by simp
  then obtain new where n: "trace s' = trace s @ new"
    "list_all (\<lambda>ef. \<forall>ev. ef = Watch ev \<longrightarrow> (\<exists>call. ev \<in> set (arrivals e call))) new"
    "workspaceChanges s' = on_events e (watched new) (workspaceChanges s)"
    unfolding grows_def by blast
  show ?thesis
  proof (cases r)
    case (Inl err)
    show ?thesis
      by (rule that [of new "[ErrorMessage ''Deployment failed.'',
                  LogLine (''Deployment failed: '' @ error_toString err),
                  ButtonText BUTTON_BASE]"])
         (simp_all add: deploy_def t Inl n)
  next
    case (Inr u)
    show ?thesis
      by (rule that [of new "[LogLine ''Deployment finished.'',
                           InformationMessage ''Deployment finished.'', ButtonText BUTTON_BASE]"])
         (simp_all add: deploy_def t Inr n Let_def emit_def emits_def)
  qed
qed

lemma deploy_registry:
  "workspaceChanges (snd (deploy e p s)) =
     (if fst (deploy e p s)
      then clear_changes (workspaceFolder p)
             (on_events e (watched (effects_since s (snd (deploy e p s)))) (workspaceChanges s))
      else on_events e (watched (effects_since s (snd (deploy e p s)))) (workspaceChanges s))"
proof -
  obtain new extra where r: "trace (snd (deploy e p s)) = trace s @ new @ extra"
    "watched extra = []"
    "workspaceChanges (snd (deploy e p s)) =
       (if fst (deploy e p s)
        then clear_changes (workspaceFolder p) (on_events e (watched new) (workspaceChanges s))
        else on_events e (watched new) (workspaceChanges s))"
    by (rule deploy_run)
  have "effects_since s (snd (deploy e p s)) = new @ extra"
    by (rule effects_since_append [OF r(1)])
  then have "watched (effects_since s (snd (deploy e p s))) = watched new"
    by (simp add: r(2))
  then show ?thesis using r(3) by simp
qed

lemma deploy_watched_arrived:
  "list_all (\<lambda>ef. \<forall>ev. ef = Watch ev \<longrightarrow> (\<exists>call. ev \<in> set (arrivals e call)))
     (effects_since s (snd (deploy e p s)))"
proof -
  obtain new extra where r: "trace (snd (deploy e p s)) = trace s @ new @ extra"
    "list_all (\<lambda>ef. is_local ef) extra"
    "list_all (\<lambda>ef. \<forall>ev. ef = Watch ev \<longrightarrow> (\<exists>call. ev \<in> set (arrivals e call))) new"
    by (rule deploy_run)
  have eq: "effects_since s (snd (deploy e p s)) = new @ extra"
    by (rule effects_since_append [OF r(1)])
  have "list_all (\<lambda>ef. \<forall>ev. ef = Watch ev \<longrightarrow> (\<exists>call. ev \<in> set (arrivals e call))) extra"
    using r(2) by (auto simp: list_all_iff)
  then show ?thesis unfolding eq using r(3) by simp
qed

lemma deploy_success_iff: "fst (deploy e p s) \<longleftrightarrow> (\<exists>s'. deploy_try e p s = (Inr (), s'))"
  by (auto simp: deploy_def Let_def split: prod.splits sum.splits)

lemma clear_changes_folder: "clear_changes folder wc folder = None \<or> clear_changes folder wc folder = Some []"
  by (simp add: clear_changes_def split: option.splits)

text \<open>
  Claim C4. \<open>deploy\<close> returns \<open>true\<close> exactly when nothing was thrown in its \<open>try\<close>
  block. The registry it leaves is the one it found, after the handlers of the watcher
  events that arrived during the run, with the folder's map emptied when it returns
  \<open>true\<close> and not otherwise: after a successful run nothing is pending for the folder,
  and after a failed run in which no event arrived the registry is unchanged.
\<close>

theorem deploy_clears_exactly_on_success:
  "(fst (deploy e p s) \<longleftrightarrow> (\<exists>s'. deploy_try e p s = (Inr (), s')))
   \<and> workspaceChanges (snd (deploy e p s)) =
       (if fst (deploy e p s)
        then clear_changes (workspaceFolder p)
               (on_events e (watched (effects_since s (snd (deploy e p s)))) (workspaceChanges s))
        else on_events e (watched (effects_since s (snd (deploy e p s)))) (workspaceChanges s))
   \<and> (fst (deploy e p s) \<longrightarrow>
        workspaceChanges (snd (deploy e p s)) (workspaceFolder p) = None \<or>
        workspaceChanges (snd (deploy e p s)) (workspaceFolder p) = Some [])
   \<and> (\<not> fst (deploy e p s) \<longrightarrow> (\<forall>call. arrivals e call = []) \<longrightarrow>
        workspaceChanges (snd (deploy e p s)) = workspaceChanges s)"
proof (intro conjI impI)
  show "fst (deploy e p s) \<longleftrightarrow> (\<exists>s'. deploy_try e p s = (Inr (), s'))"
    by (rule deploy_success_iff)
  show "workspaceChanges (snd (deploy e p s)) =
       (if fst (deploy e p s)
        then clear_changes (workspaceFolder p)
               (on_events e (watched (effects_since s (snd (deploy e p s)))) (workspaceChanges s))
        else on_events e (watched (effects_since s (snd (deploy e p s)))) (workspaceChanges s))"
    by (rule deploy_registry)
  show "workspaceChanges (snd (deploy e p s)) (workspaceFolder p) = None \<or>
        workspaceChanges (snd (deploy e p s)) (workspaceFolder p) = Some []"
    if "fst (deploy e p s)"
    using that clear_changes_folder [of "workspaceFolder p"] by (simp add: deploy_registry)
  show "workspaceChanges (snd (deploy e p s)) = workspaceChanges s"
    if f: "\<not> fst (deploy e p s)" and n: "\<forall>call. arrivals e call = []"
  proof -
    have "watched (effects_since s (snd (deploy e p s))) = []"
      using n deploy_watched_arrived by (rule no_arrivals_watched)
    then show ?thesis using f by (simp add: deploy_registry)
  qed
qed

lemmas ws_eval =
  ws_parameters_def ws_relative_target_def ws_pending_def ws_def file_uri_of_def ws_env_def
  deploy_def deploy_try_def strategy_def createRemoteDirectory_def sendCommand_def putFiles_def
  getClient_def getConnection_def and_then_def tell_def lift_def
  deployChanged_def deployChanged_uploads_def changedFile_kept_def toUpload_def toRelative_def
  transfers_def uploading_line_def ignores_def launchDeploy_ignoreRules_def ignore_add_def
  createRule_def startsWith_def backslashes_to_slashes_def clear_changes_def
  emit_def emits_def await_def deliver_def sample_matches_def toLowerCase_def

lemma ws_changed_deploy:
  "deploy ws_env (ws_parameters changed) ws_pending =
     (True,
      \<lparr>workspaceChanges = (\<lambda>_. None)(ws \<mapsto> []),
       trace = [LogClear, ButtonText BUTTON_WORKING,
                SendCommand \<lparr>command = ''mkdir -p '' @ [CHR 0x22] @ ''/home/dev/ws'' @ [CHR 0x22],
                             directory = None\<rparr>,
                LogLine ''UPLOADING: /ws/b.txt -> /home/dev/ws/b.txt'',
                PutFiles [(''/ws/b.txt'', ''/home/dev/ws/b.txt'')],
                LogLine ''Deployment finished.'',
                InformationMessage ''Deployment finished.'',
                ButtonText BUTTON_BASE]\<rparr>)"
  by (simp add: ws_eval)

lemma ws_relative_deploy:
  "deploy ws_env ws_relative_target ws_pending =
     (False,
      \<lparr>workspaceChanges = (\<lambda>_. None)(ws \<mapsto> [(''/ws/b.txt'', file_uri_of ''/ws/b.txt'')]),
       trace = [LogClear, ButtonText BUTTON_WORKING,
                SendCommand \<lparr>command = ''mkdir -p '' @ [CHR 0x22] @ ''relative/path'' @ [CHR 0x22],
                             directory = None\<rparr>,
                WithProgress ''Deploying ws'',
                ProgressReport (Some ''Deploying ws'') None,
                LogLine ''Deployment cancelled. Not sure where to deploy workspace.'',
                ErrorMessage ''Deployment failed.'',
                LogLine ''Deployment failed: Error: Invalid deployment path'',
                ButtonText BUTTON_BASE]\<rparr>)"
  by (simp add: ws_eval deployAll_def Let_def)

theorem deploy_clears_exactly_on_success_witness:
  "fst (deploy ws_env (ws_parameters changed) ws_pending)
   \<and> workspaceChanges ws_pending ws = Some [(''/ws/b.txt'', file_uri_of ''/ws/b.txt'')]
   \<and> workspaceChanges (snd (deploy ws_env (ws_parameters changed) ws_pending)) ws = Some []
   \<and> \<not> fst (deploy ws_env ws_relative_target ws_pending)
   \<and> workspaceChanges (snd (deploy ws_env ws_relative_target ws_pending))
       = workspaceChanges ws_pending"
proof -
  have ok: "fst (deploy ws_env (ws_parameters changed) ws_pending)"
    by (simp add: ws_changed_deploy)
  have ko: "\<not> fst (deploy ws_env ws_relative_target ws_pending)"
    by (simp add: ws_relative_deploy)
  have quiet: "\<forall>call. arrivals ws_env call = []" by (simp add: ws_env_def)
  have some: "workspaceChanges (snd (deploy ws_env (ws_parameters changed) ws_pending)) ws \<noteq> None"
    by (simp add: ws_changed_deploy)
  have folder: "workspaceFolder (ws_parameters changed) = ws" by (simp add: ws_parameters_def)
  from deploy_clears_exactly_on_success [of ws_env "ws_parameters changed" ws_pending] ok
  have "workspaceChanges (snd (deploy ws_env (ws_parameters changed) ws_pending))
          (workspaceFolder (ws_parameters changed)) = None \<or>
        workspaceChanges (snd (deploy ws_env (ws_parameters changed) ws_pending))
          (workspaceFolder (ws_parameters changed)) = Some []"
    by blast
  with some folder
  have 1: "workspaceChanges (snd (deploy ws_env (ws_parameters changed) ws_pending)) ws = Some []"
    by auto
  from deploy_clears_exactly_on_success [of ws_env ws_relative_target ws_pending] ko quiet
  have 2: "workspaceChanges (snd (deploy ws_env ws_relative_target ws_pending))
       = workspaceChanges ws_pending" by blast
  show ?thesis using ok ko 1 2 by (simp add: ws_pending_def)
qed

lemma not_transfer_Watch: "list_all (\<lambda>ef. \<not> is_transfer ef) (map Watch evs)"
  by (induction evs) auto

lemma deployAll_relative:
  "\<not> startsWith (remotePath p) ''/'' \<Longrightarrow>
   deployAll e p s =
     (Inl (Error ''Invalid deployment path''),
      emits [WithProgress (''Deploying '' @ path_basename e (uri_path (folder_uri (workspaceFolder p)))),
             ProgressReport (Some (''Deploying '' @ path_basename e (uri_path (folder_uri (workspaceFolder p))))) None,
             LogLine ''Deployment cancelled. Not sure where to deploy workspace.''] s)"
  by (simp add: deployAll_def Let_def emit_def emits_def)

text \<open>
  Claim C8. With a remote path that does not start with \<open>/\<close>, \<open>deployAll\<close> throws
  \<open>Invalid deployment path\<close> after two progress effects and one log line, and nothing
  else: \<open>putDirectory\<close> is not called. A \<open>deploy\<close> with method \<open>all\<close> then returns
  \<open>false\<close> and no file transfer is among its effects.
\<close>

theorem deployAll_rejects_relative_target:
  "\<not> startsWith (remotePath p) ''/'' \<Longrightarrow>
     deployAll e p s =
       (Inl (Error ''Invalid deployment path''),
        emits [WithProgress (''Deploying '' @ path_basename e (uri_path (folder_uri (workspaceFolder p)))),
               ProgressReport (Some (''Deploying '' @ path_basename e (uri_path (folder_uri (workspaceFolder p))))) None,
               LogLine ''Deployment cancelled. Not sure where to deploy workspace.''] s)
     \<and> list_all (\<lambda>ef. \<not> is_transfer ef) (effects_since s (snd (deployAll e p s)))
     \<and> (method p = all \<longrightarrow>
          \<not> fst (deploy e p s) \<and>
          list_all (\<lambda>ef. \<not> is_transfer ef) (effects_since s (snd (deploy e p s))))"
proof (intro conjI impI)
  assume rel: "\<not> startsWith (remotePath p) ''/''"
  note eq = deployAll_relative [OF rel]
  show "deployAll e p s =
       (Inl (Error ''Invalid deployment path''),
        emits [WithProgress (''Deploying '' @ path_basename e (uri_path (folder_uri (workspaceFolder p)))),
               ProgressReport (Some (''Deploying '' @ path_basename e (uri_path (folder_uri (workspaceFolder p))))) None,
               LogLine ''Deployment cancelled. Not sure where to deploy workspace.''] s)"
    by (rule eq)
  show "list_all (\<lambda>ef. \<not> is_transfer ef) (effects_since s (snd (deployAll e p s)))"
    by (simp add: eq effects_since_def)
  assume m: "method p = all"
  show "\<not> fst (deploy e p s)"
    by (simp add: deploy_def deploy_try_def and_then_def tell_def strategy_def m eq
        split: prod.splits sum.splits)
  show "list_all (\<lambda>ef. \<not> is_transfer ef) (effects_since s (snd (deploy e p s)))"
    by (auto simp: deploy_def deploy_try_def and_then_def tell_def strategy_def m eq
        createRemoteDirectory_def sendCommand_def effects_since_def not_transfer_Watch
        split: prod.splits sum.splits)
qed

theorem deployAll_rejects_relative_target_witness:
  "\<not> startsWith (remotePath ws_relative_target) ''/''
   \<and> fst (deployAll ws_env ws_relative_target ws_pending) = Inl (Error ''Invalid deployment path'')
   \<and> effects_since ws_pending (snd (deployAll ws_env ws_relative_target ws_pending)) =
       [WithProgress ''Deploying ws'', ProgressReport (Some ''Deploying ws'') None,
        LogLine ''Deployment cancelled. Not sure where to deploy workspace.'']
   \<and> \<not> fst (deploy ws_env ws_relative_target ws_pending)
   \<and> list_all (\<lambda>ef. \<not> is_transfer ef)
        (effects_since ws_pending (snd (deploy ws_env ws_relative_target ws_pending)))"
proof -
  have rel: "\<not> startsWith (remotePath ws_relative_target) ''/''"
    by (simp add: ws_relative_target_def startsWith_def)
  have m: "method ws_relative_target = all" by (simp add: ws_relative_target_def)
  have nm: "path_basename ws_env (uri_path (folder_uri (workspaceFolder ws_relative_target))) = ''ws''"
    by (simp add: ws_relative_target_def ws_def file_uri_of_def ws_env_def)
  note t = deployAll_rejects_relative_target [OF rel, of ws_env ws_pending]
  from t have 1: "fst (deployAll ws_env ws_relative_target ws_pending) = Inl (Error ''Invalid deployment path'')"
    by simp
  from t have 2: "effects_since ws_pending (snd (deployAll ws_env ws_relative_target ws_pending)) =
       [WithProgress ''Deploying ws'', ProgressReport (Some ''Deploying ws'') None,
        LogLine ''Deployment cancelled. Not sure where to deploy workspace.'']"
    by (simp add: nm effects_since_def)
  from t m have 3: "\<not> fst (deploy ws_env ws_relative_target ws_pending)
   \<and> list_all (\<lambda>ef. \<not> is_transfer ef)
        (effects_since ws_pending (snd (deploy ws_env ws_relative_target ws_pending)))"
    by blast
  show ?thesis using rel 1 2 3 by blast
qed

section \<open>The empty remote directory, and the version-control strategies\<close>

lemma permits_no_command: "permits e (\<lambda>ef. \<not> is_command ef)"
proof -
  have "\<not> is_command ef" if "is_local ef" for ef using that by (cases ef) auto
  then show ?thesis by (simp add: permits_def)
qed

lemma deployAll_no_command:
  "grows e (\<lambda>ef. \<not> is_command ef) s (snd (deployAll e p s))"
  by (rule confinedD [OF confined_deployAll [OF permits_no_command]]) simp

lemma deployAll_calls_putDirectory:
  assumes "connected e" "has_client e" "startsWith (remotePath p) ''/''"
  shows "PutDirectory (fsPath (folder_uri (workspaceFolder p))) (remotePath p)
           (filter (validate e p)
              (map fst (putDirectory_walk e (fsPath (folder_uri (workspaceFolder p))) (remotePath p))))
         \<in> set (effects_since s (snd (deployAll e p s)))"
  using assms
  by (simp add: deployAll_def putDirectory_def getClient_def getConnection_def Let_def
      effects_since_def filter_map comp_def split: option.splits)

lemma validate_iff:
  "validate e p localPath \<longleftrightarrow>
     \<not> (\<exists>ig. ignoreRules p = Some ig \<and>
              path_relative e (fsPath (folder_uri (workspaceFolder p))) localPath \<noteq> [] \<and>
              ignores e ig (path_relative e (fsPath (folder_uri (workspaceFolder p))) localPath))"
  by (auto simp: validate_def Let_def split: option.splits)

lemma command_neq: "md5sum_command p \<noteq> line_count_command p"
  by (simp add: md5sum_command_def line_count_command_def)

lemma deployCompare_empty:
  assumes "connected e" "md5sum_feature e" "sendCommand_stdout e (line_count_command p) = Inr ''0''"
  shows "deployCompare e p s =
           deployAll e p
             (emit (LogLine (''Remote directory is empty; switching to 'deploy all'' @ [CHR 0x27]))
                (await e (SendCommand (line_count_command p)) s))"
  using assms
  by (simp add: deployCompare_def and_then_def lift_def getConnection_def sendCommand_def
      tell_def emit_def)

text \<open>
  Claim C2. When the host has \<open>md5sum\<close> and the line-count command answers \<open>0\<close>,
  \<open>deployCompare\<close> is \<open>deployAll\<close> run after that one command and one log line. The
  line-count command is the only remote command of the run, so the \<open>md5sum\<close> command is
  never sent. With a client and an absolute remote path the directory transfer is called
  on the workspace root with the files its \<open>validate\<close> callback accepts, and \<open>validate\<close>
  rejects exactly the paths whose non-empty relative path the ignore rules ignore.
\<close>

theorem deployCompare_empty_remote_is_deployAll:
  assumes c: "connected e" and f: "md5sum_feature e"
    and z: "sendCommand_stdout e (line_count_command p) = Inr ''0''"
  shows "deployCompare e p s =
           deployAll e p
             (emit (LogLine (''Remote directory is empty; switching to 'deploy all'' @ [CHR 0x27]))
                (await e (SendCommand (line_count_command p)) s))
    \<and> list_all (\<lambda>ef. is_command ef \<longrightarrow> ef = SendCommand (line_count_command p))
         (effects_since s (snd (deployCompare e p s)))
    \<and> SendCommand (md5sum_command p) \<notin> set (effects_since s (snd (deployCompare e p s)))
    \<and> (has_client e \<longrightarrow> startsWith (remotePath p) ''/'' \<longrightarrow>
         PutDirectory (fsPath (folder_uri (workspaceFolder p))) (remotePath p)
           (filter (validate e p)
              (map fst (putDirectory_walk e (fsPath (folder_uri (workspaceFolder p))) (remotePath p))))
         \<in> set (effects_since s (snd (deployCompare e p s))))
    \<and> (\<forall>localPath. validate e p localPath \<longleftrightarrow>
          \<not> (\<exists>ig. ignoreRules p = Some ig \<and>
              path_relative e (fsPath (folder_uri (workspaceFolder p))) localPath \<noteq> [] \<and>
              ignores e ig (path_relative e (fsPath (folder_uri (workspaceFolder p))) localPath)))"
proof -
  define s2 where "s2 = emit (LogLine (''Remote directory is empty; switching to 'deploy all'' @ [CHR 0x27]))
                (await e (SendCommand (line_count_command p)) s)"
  define pre where "pre = SendCommand (line_count_command p) #
      map Watch (arrivals e (SendCommand (line_count_command p))) @
      [LogLine (''Remote directory is empty; switching to 'deploy all'' @ [CHR 0x27])]"
  have eq: "deployCompare e p s = deployAll e p s2"
    unfolding s2_def by (rule deployCompare_empty [OF c f z])
  have t2: "trace s2 = trace s @ pre" by (simp add: s2_def pre_def)
  from deployAll_no_command [of e s2 p] obtain new
    where n: "trace (snd (deployAll e p s2)) = trace s2 @ new" "list_all (\<lambda>ef. \<not> is_command ef) new"
    unfolding grows_def by blast
  have es: "effects_since s (snd (deployCompare e p s)) = pre @ new"
    by (rule effects_since_append) (simp add: eq n t2)
  have es2: "effects_since s2 (snd (deployAll e p s2)) = new"
    by (rule effects_since_append) (simp add: n)
  have pre_ok: "list_all (\<lambda>ef. is_command ef \<longrightarrow> ef = SendCommand (line_count_command p)) pre"
    by (simp add: pre_def list_all_iff)
  have new_ok: "list_all (\<lambda>ef. is_command ef \<longrightarrow> ef = SendCommand (line_count_command p)) new"
    using n(2) by (auto simp: list_all_iff)
  have all_ok: "list_all (\<lambda>ef. is_command ef \<longrightarrow> ef = SendCommand (line_count_command p))
         (effects_since s (snd (deployCompare e p s)))"
    unfolding es using pre_ok new_ok by simp
  have no_md5: "SendCommand (md5sum_command p) \<notin> set (effects_since s (snd (deployCompare e p s)))"
  proof
    assume "SendCommand (md5sum_command p) \<in> set (effects_since s (snd (deployCompare e p s)))"
    with all_ok have "SendCommand (md5sum_command p) = SendCommand (line_count_command p)"
      by (auto simp: list_all_iff)
    then show False using command_neq [of p] by simp
  qed
  have put: "PutDirectory (fsPath (folder_uri (workspaceFolder p))) (remotePath p)
           (filter (validate e p)
              (map fst (putDirectory_walk e (fsPath (folder_uri (workspaceFolder p))) (remotePath p))))
         \<in> set (effects_since s (snd (deployCompare e p s)))"
    if "has_client e" "startsWith (remotePath p) ''/''"
    using deployAll_calls_putDirectory [OF c that, of s2] unfolding es es2 by simp
  show ?thesis
    using eq [unfolded s2_def] all_ok no_md5 put validate_iff by blast
qed

lemma ws_empty_run:
  "effects_since idle (snd (deployCompare ws_empty_env (ws_parameters compare) idle)) =
     [SendCommand \<lparr>command = ''ls | wc -l'', directory = Some ''/home/dev/ws''\<rparr>,
      LogLine (''Remote directory is empty; switching to 'deploy all'' @ [CHR 0x27]),
      WithProgress ''Deploying ws'',
      ProgressReport (Some ''Deploying ws'') None,
      PutDirectory ''/ws'' ''/home/dev/ws'' [''/ws/a.txt'', ''/ws/b.txt''],
      ProgressReport (Some ''Deployed /ws/a.txt'') None,
      LogLine ''SUCCESS: /ws/a.txt -> /home/dev/ws/a.txt'',
      ProgressReport (Some ''Deployed /ws/b.txt'') None,
      LogLine ''SUCCESS: /ws/b.txt -> /home/dev/ws/b.txt'',
      ProgressReport (Some ''Deployment finished.'') None]"
  by (simp add: ws_empty_env_def idle_def ws_eval deployCompare_def line_count_command_def
      deployAll_def putDirectory_def validate_def tick_def Let_def effects_since_def)

theorem deployCompare_empty_remote_is_deployAll_witness:
  "connected ws_empty_env \<and> md5sum_feature ws_empty_env
   \<and> sendCommand_stdout ws_empty_env (line_count_command (ws_parameters compare)) = Inr ''0''
   \<and> SendCommand (md5sum_command (ws_parameters compare)) \<notin>
       set (effects_since idle (snd (deployCompare ws_empty_env (ws_parameters compare) idle)))
   \<and> PutDirectory ''/ws'' ''/home/dev/ws'' [''/ws/a.txt'', ''/ws/b.txt''] \<in>
       set (effects_since idle (snd (deployCompare ws_empty_env (ws_parameters compare) idle)))"
proof -
  have c: "connected ws_empty_env" and f: "md5sum_feature ws_empty_env"
    by (simp_all add: ws_empty_env_def ws_env_def)
  have z: "sendCommand_stdout ws_empty_env (line_count_command (ws_parameters compare)) = Inr ''0''"
    by (simp add: ws_empty_env_def line_count_command_def)
  from deployCompare_empty_remote_is_deployAll [OF c f z, of idle]
  have no: "SendCommand (md5sum_command (ws_parameters compare)) \<notin>
       set (effects_since idle (snd (deployCompare ws_empty_env (ws_parameters compare) idle)))"
    by blast
  have put: "PutDirectory ''/ws'' ''/home/dev/ws'' [''/ws/a.txt'', ''/ws/b.txt''] \<in>
       set (effects_since idle (snd (deployCompare ws_empty_env (ws_parameters compare) idle)))"
    unfolding ws_empty_run by simp
  show ?thesis using c f z no put by blast
qed

lemma find_Some_nonempty: "find P xs = Some x \<Longrightarrow> 0 < length xs"
  by (cases xs) auto

lemma deployGit_found:
  assumes g: "gitAPI e = Some repositories"
    and r: "find (\<lambda>r. fsPath (rootUri r) = fsPath (folder_uri (workspaceFolder p))) repositories
            = Some repository"
  shows "deployGit e p ct s =
     (let gitFiles = deployGit_files repository ct
      in if 0 < length gitFiles then
           (let uploads = deployGit_uploads e p gitFiles
            in and_then
                 (tell (map uploading_line uploads @
                    [InformationMessage
                       (''Deploying '' @ changeType_name ct @ '' changes ('' @
                        show_nat (length uploads) @ '') to '' @ remotePath p)]))
                 (\<lambda>_. if startsWith (remotePath p) ''/''
                       then putFiles e (transfers uploads)
                       else lift (Inl (Error ''Unable to determine where to upload workspace.'')))
                 s)
         else tell [WarningMessage (''No '' @ changeType_name ct @ '' changes to deploy.'')] s)"
  using g r find_Some_nonempty [OF r] by (simp add: deployGit_def)

lemma deployGit_trace:
  assumes g: "gitAPI e = Some repositories"
    and r: "find (\<lambda>r. fsPath (rootUri r) = fsPath (folder_uri (workspaceFolder p))) repositories
            = Some repository"
  shows "effects_since s (snd (deployGit e p ct s)) =
     (if deployGit_files repository ct = []
      then [WarningMessage (''No '' @ changeType_name ct @ '' changes to deploy.'')]
      else map uploading_line (deployGit_uploads e p (deployGit_files repository ct)) @
           [InformationMessage
              (''Deploying '' @ changeType_name ct @ '' changes ('' @
               show_nat (length (deployGit_uploads e p (deployGit_files repository ct))) @
               '') to '' @ remotePath p)] @
           (if startsWith (remotePath p) ''/'' \<and> connected e \<and> has_client e
            then PutFiles (transfers (deployGit_uploads e p (deployGit_files repository ct))) #
                 map Watch (arrivals e
                   (PutFiles (transfers (deployGit_uploads e p (deployGit_files repository ct)))))
            else []))"
  unfolding deployGit_found [OF g r]
  by (simp add: Let_def and_then_def tell_def lift_def putFiles_def getClient_def
      getConnection_def effects_since_def)

lemma deployGit_no_remote_command:
  "list_all (\<lambda>ef. \<not> is_command ef \<and> (\<forall>x y z. ef \<noteq> PutDirectory x y z))
     (effects_since s (snd (deployGit e p ct s)))"
proof -
  have l: "\<not> is_command ef \<and> (\<forall>x y z. ef \<noteq> PutDirectory x y z)" if "is_local ef" for ef
    using that by (cases ef) auto
  have "permits e (\<lambda>ef. \<not> is_command ef \<and> (\<forall>x y z. ef \<noteq> PutDirectory x y z))"
    unfolding permits_def using l by simp
  then have "confined e (\<lambda>ef. \<not> is_command ef \<and> (\<forall>x y z. ef \<noteq> PutDirectory x y z))
               (deployGit e p ct)"
    by (rule confined_deployGit) simp
  then obtain new where "trace (snd (deployGit e p ct s)) = trace s @ new"
    "list_all (\<lambda>ef. \<not> is_command ef \<and> (\<forall>x y z. ef \<noteq> PutDirectory x y z)) new"
    unfolding confined_def grows_def by blast
  then show ?thesis by (simp add: effects_since_append)
qed

text \<open>
  Claim C5. No run of \<open>deployGit\<close> sends a remote command (so it deletes nothing
  remotely) or calls the directory transfer. For a workspace whose repository the git
  extension knows, \<open>deployGit\<close> keeps the changes whose status is not 6, and any
  \<open>putFiles\<close> call it makes carries the uploads of the kept changes. When the provider
  reports a change with status 6 and one with another status, the uploads are that one
  file, and \<open>putFiles\<close> is called with it when the session has a client and the remote
  path is absolute. When no change is kept, the run shows a warning and returns without
  throwing.
\<close>

theorem deployGit_skips_deleted:
  "list_all (\<lambda>ef. \<not> is_command ef \<and> (\<forall>x y z. ef \<noteq> PutDirectory x y z))
     (effects_since s (snd (deployGit e p ct s)))
   \<and> (gitAPI e = Some repositories \<longrightarrow>
        find (\<lambda>r. fsPath (rootUri r) = fsPath (folder_uri (workspaceFolder p))) repositories
          = Some repository \<longrightarrow>
        deployGit_files repository ct =
           filter (\<lambda>change. status change \<noteq> 6)
             (if ct = ct_staged then indexChanges repository else workingTreeChanges repository)
        \<and> list_all (\<lambda>ef. \<forall>ups. ef = PutFiles ups \<longrightarrow>
                         ups = transfers (deployGit_uploads e p (deployGit_files repository ct)))
             (effects_since s (snd (deployGit e p ct s)))
        \<and> (\<forall>d m. (if ct = ct_staged then indexChanges repository else workingTreeChanges repository)
                 = [d, m] \<longrightarrow> status d = 6 \<longrightarrow> status m \<noteq> 6 \<longrightarrow>
              deployGit_uploads e p (deployGit_files repository ct) = [toUpload e p (change_uri m)] \<and>
              (connected e \<longrightarrow> has_client e \<longrightarrow> startsWith (remotePath p) ''/'' \<longrightarrow>
                 PutFiles [(fsPath (change_uri m), remote (toUpload e p (change_uri m)))]
                   \<in> set (effects_since s (snd (deployGit e p ct s)))))
        \<and> (deployGit_files repository ct = [] \<longrightarrow>
              deployGit e p ct s =
                (Inr (), emit (WarningMessage (''No '' @ changeType_name ct @ '' changes to deploy.'')) s)))"
proof (intro conjI allI impI)
  show "list_all (\<lambda>ef. \<not> is_command ef \<and> (\<forall>x y z. ef \<noteq> PutDirectory x y z))
     (effects_since s (snd (deployGit e p ct s)))"
    by (rule deployGit_no_remote_command)
next
  show "deployGit_files repository ct =
           filter (\<lambda>change. status change \<noteq> 6)
             (if ct = ct_staged then indexChanges repository else workingTreeChanges repository)"
    by (simp add: deployGit_files_def Status_DELETED_def)
next
  assume g: "gitAPI e = Some repositories"
    and r: "find (\<lambda>r. fsPath (rootUri r) = fsPath (folder_uri (workspaceFolder p))) repositories
          = Some repository"
  note tr = deployGit_trace [OF g r, where ct = ct and s = s]
  show "list_all (\<lambda>ef. \<forall>ups. ef = PutFiles ups \<longrightarrow>
                         ups = transfers (deployGit_uploads e p (deployGit_files repository ct)))
             (effects_since s (snd (deployGit e p ct s)))"
    unfolding tr by (auto simp: list_all_iff uploading_line_def)
  show "deployGit e p ct s =
            (Inr (), emit (WarningMessage (''No '' @ changeType_name ct @ '' changes to deploy.'')) s)"
    if "deployGit_files repository ct = []"
    using that by (simp add: deployGit_found [OF g r] tell_def emit_def)
  fix d m
  assume l: "(if ct = ct_staged then indexChanges repository else workingTreeChanges repository)
                 = [d, m]" and sd: "status d = 6" and sm: "status m \<noteq> 6"
  have files: "deployGit_files repository ct = [m]"
    using l sd sm by (auto simp: deployGit_files_def Status_DELETED_def split: if_splits)
  show ups: "deployGit_uploads e p (deployGit_files repository ct) = [toUpload e p (change_uri m)]"
    by (simp add: files deployGit_uploads_def)
  assume "connected e" "has_client e" "startsWith (remotePath p) ''/''"
  then show "PutFiles [(fsPath (change_uri m), remote (toUpload e p (change_uri m)))]
                \<in> set (effects_since s (snd (deployGit e p ct s)))"
    unfolding tr ups by (simp add: files transfers_def toUpload_def)
qed

lemma show_nat_1: "show_nat (Suc 0) = ''1''"
  by code_simp

lemma ws_git_run:
  "deployGit ws_env (ws_parameters unstaged) ct_working idle =
     (Inr (),
      \<lparr>workspaceChanges = (\<lambda>_. None),
       trace = [LogLine ''UPLOADING: /ws/b.txt -> /home/dev/ws/b.txt'',
                InformationMessage ''Deploying working changes (1) to /home/dev/ws'',
                PutFiles [(''/ws/b.txt'', ''/home/dev/ws/b.txt'')]]\<rparr>)"
  by (simp add: idle_def ws_eval deployGit_def deployGit_files_def deployGit_uploads_def
      Status_DELETED_def changeType_name_def show_nat_1 Let_def)

theorem deployGit_skips_deleted_witness:
  "gitAPI ws_env = Some [\<lparr>rootUri = file_uri_of ''/ws'', indexChanges = [],
                          workingTreeChanges =
                            [\<lparr>change_uri = file_uri_of ''/ws/old.txt'', status = 6\<rparr>,
                             \<lparr>change_uri = file_uri_of ''/ws/b.txt'', status = 5\<rparr>]\<rparr>]
   \<and> deployGit_uploads ws_env (ws_parameters unstaged)
        (deployGit_files
           \<lparr>rootUri = file_uri_of ''/ws'', indexChanges = [],
            workingTreeChanges =
              [\<lparr>change_uri = file_uri_of ''/ws/old.txt'', status = 6\<rparr>,
               \<lparr>change_uri = file_uri_of ''/ws/b.txt'', status = 5\<rparr>]\<rparr> ct_working)
       = [toUpload ws_env (ws_parameters unstaged) (file_uri_of ''/ws/b.txt'')]
   \<and> effects_since idle (snd (deployGit ws_env (ws_parameters unstaged) ct_working idle)) =
       [LogLine ''UPLOADING: /ws/b.txt -> /home/dev/ws/b.txt'',
        InformationMessage ''Deploying working changes (1) to /home/dev/ws'',
        PutFiles [(''/ws/b.txt'', ''/home/dev/ws/b.txt'')]]
   \<and> deployGit ws_env (ws_parameters staged) ct_staged idle =
       (Inr (), emit (WarningMessage ''No staged changes to deploy.'') idle)"
proof -
  define repo where "repo = \<lparr>rootUri = file_uri_of ''/ws'', indexChanges = [],
                          workingTreeChanges =
                            [\<lparr>change_uri = file_uri_of ''/ws/old.txt'', status = 6\<rparr>,
                             \<lparr>change_uri = file_uri_of ''/ws/b.txt'', status = 5\<rparr>]\<rparr>"
  have g: "gitAPI ws_env = Some [repo]" by (simp add: ws_env_def repo_def)
  have r: "find (\<lambda>r. fsPath (rootUri r) = fsPath (folder_uri (workspaceFolder (ws_parameters m)))) [repo]
            = Some repo" for m
    by (simp add: repo_def ws_parameters_def ws_def file_uri_of_def)
  have l: "(if ct_working = ct_staged then indexChanges repo else workingTreeChanges repo)
             = [\<lparr>change_uri = file_uri_of ''/ws/old.txt'', status = 6\<rparr>,
                \<lparr>change_uri = file_uri_of ''/ws/b.txt'', status = 5\<rparr>]"
    by (simp add: repo_def)
  have none: "deployGit_files repo ct_staged = []"
    by (simp add: repo_def deployGit_files_def)
  have sd: "status \<lparr>change_uri = file_uri_of ''/ws/old.txt'', status = 6\<rparr> = 6"
    and sm: "status \<lparr>change_uri = file_uri_of ''/ws/b.txt'', status = 5\<rparr> \<noteq> 6"
    and cu: "change_uri \<lparr>change_uri = file_uri_of ''/ws/b.txt'', status = 5\<rparr> = file_uri_of ''/ws/b.txt''"
    by simp_all
  from deployGit_skips_deleted [where e = ws_env and p = "ws_parameters unstaged"
      and ct = ct_working and s = idle and repositories = "[repo]" and repository = repo]
    g r [of unstaged] l sd sm
  have "deployGit_uploads ws_env (ws_parameters unstaged) (deployGit_files repo ct_working)
       = [toUpload ws_env (ws_parameters unstaged)
            (change_uri \<lparr>change_uri = file_uri_of ''/ws/b.txt'', status = 5\<rparr>)]"
    by blast
  then have 1: "deployGit_uploads ws_env (ws_parameters unstaged) (deployGit_files repo ct_working)
       = [toUpload ws_env (ws_parameters unstaged) (file_uri_of ''/ws/b.txt'')]"
    unfolding cu .
  from deployGit_skips_deleted [where e = ws_env and p = "ws_parameters staged"
      and ct = ct_staged and s = idle and repositories = "[repo]" and repository = repo]
    g r [of staged] none
  have "deployGit ws_env (ws_parameters staged) ct_staged idle =
       (Inr (), emit (WarningMessage (''No '' @ changeType_name ct_staged @ '' changes to deploy.'')) idle)"
    by blast
  then have 2: "deployGit ws_env (ws_parameters staged) ct_staged idle =
       (Inr (), emit (WarningMessage ''No staged changes to deploy.'') idle)"
    by (simp add: changeType_name_def)
  have 3: "effects_since idle (snd (deployGit ws_env (ws_parameters unstaged) ct_working idle)) =
       [LogLine ''UPLOADING: /ws/b.txt -> /home/dev/ws/b.txt'',
        InformationMessage ''Deploying working changes (1) to /home/dev/ws'',
        PutFiles [(''/ws/b.txt'', ''/home/dev/ws/b.txt'')]]"
    unfolding ws_git_run by (simp add: effects_since_def idle_def)
  show ?thesis using g 1 2 3 unfolding repo_def by simp
qed

section \<open>The plan of the hash synchronizer\<close>

lemma find_SomeD: "find P xs = Some x \<Longrightarrow> x \<in> set xs \<and> P x"
  by (induction xs) (auto split: if_splits)

lemma find_None_set: "find P xs = None \<longleftrightarrow> (\<forall>x\<in>set xs. \<not> P x)"
  by (induction xs) auto

lemma compare_uploads_Inr:
  "compare_uploads e p remoteMD5 files acc = Inr uploads \<Longrightarrow>
     (\<forall>f\<in>set files. \<exists>h. md5Hash e (file_uri f) = Inr h) \<and>
     uploads = acc @ map (compare_transfer p)
       (filter (\<lambda>f. case find (\<lambda>r. path r = file_path f) remoteMD5 of
                       None \<Rightarrow> True
                     | Some r \<Rightarrow> md5Hash e (file_uri f) \<noteq> Inr (md5 r)) files)"
proof (induction files arbitrary: acc)
  case Nil
  then show ?case by simp
next
  case (Cons f fs)
  from Cons.prems obtain h where h: "md5Hash e (file_uri f) = Inr h"
    by (cases "md5Hash e (file_uri f)") (auto simp: Let_def)
  show ?case
  proof (cases "find (\<lambda>r. path r = file_path f) remoteMD5")
    case None
    with Cons.prems h
    have "compare_uploads e p remoteMD5 fs (acc @ [compare_transfer p f]) = Inr uploads"
      by (simp add: Let_def)
    from Cons.IH [OF this] show ?thesis using h None by simp
  next
    case (Some r)
    show ?thesis
    proof (cases "md5 r = h")
      case True
      with Cons.prems h Some have "compare_uploads e p remoteMD5 fs acc = Inr uploads"
        by (simp add: Let_def)
      from Cons.IH [OF this] show ?thesis using h Some True by simp
    next
      case False
      with Cons.prems h Some
      have "compare_uploads e p remoteMD5 fs (acc @ [compare_transfer p f]) = Inr uploads"
        by (simp add: Let_def)
      from Cons.IH [OF this] show ?thesis using h Some False by auto
    qed
  qed
qed

lemma compare_uploads_total:
  "\<forall>f\<in>set files. \<exists>h. md5Hash e (file_uri f) = Inr h \<Longrightarrow>
   \<exists>uploads. compare_uploads e p remoteMD5 files acc = Inr uploads"
proof (induction files arbitrary: acc)
  case Nil
  then show ?case by simp
next
  case (Cons f fs)
  then obtain h where h: "md5Hash e (file_uri f) = Inr h" by auto
  from Cons have "\<exists>uploads. compare_uploads e p remoteMD5 fs acc' = Inr uploads" for acc'
    by simp
  then show ?case using h by (simp add: Let_def)
qed



lemma ws_plan:
  "compare_plan ws_env (ws_parameters compare) ws_remoteMD5 ws_localFiles =
     Inr ([(''/ws/b.txt'', ''/home/dev/ws/b.txt'')], [''c.txt''])"
  by code_simp

lemma needs_upload_cases:
  "(case find (\<lambda>r. path r = file_path f) remoteMD5 of
      None \<Rightarrow> True
    | Some r \<Rightarrow> md5Hash e (file_uri f) \<noteq> Inr (md5 r)) \<longleftrightarrow>
   (\<forall>r\<in>set remoteMD5. path r \<noteq> file_path f) \<or>
   (\<exists>r. find (\<lambda>r. path r = file_path f) remoteMD5 = Some r \<and>
        md5Hash e (file_uri f) \<noteq> Inr (md5 r))"
proof (cases "find (\<lambda>r. path r = file_path f) remoteMD5")
  case None
  then have "\<forall>r\<in>set remoteMD5. path r \<noteq> file_path f" by (simp add: find_None_set)
  then show ?thesis using None by simp
next
  case (Some r)
  then have "r \<in> set remoteMD5 \<and> path r = file_path f" by (rule find_SomeD)
  then show ?thesis using Some by auto
qed

lemma compare_plan_uploads:
  assumes "compare_plan e p remoteMD5 localFiles = Inr (uploads, deletions)"
  shows "uploads = map (compare_transfer p)
       (filter (\<lambda>f. (\<forall>r\<in>set remoteMD5. path r \<noteq> file_path f) \<or>
                   (\<exists>r. find (\<lambda>r. path r = file_path f) remoteMD5 = Some r \<and>
                        md5Hash e (file_uri f) \<noteq> Inr (md5 r))) localFiles)"
    and "deletions = map path (filter (\<lambda>r. \<forall>f\<in>set localFiles. file_path f \<noteq> path r) remoteMD5)"
proof -
  from assms have u: "compare_uploads e p remoteMD5 localFiles [] = Inr uploads"
    and d: "deletions = compare_toDelete remoteMD5 localFiles"
    by (auto simp: compare_plan_def split: sum.splits)
  from compare_uploads_Inr [OF u] show "uploads = map (compare_transfer p)
       (filter (\<lambda>f. (\<forall>r\<in>set remoteMD5. path r \<noteq> file_path f) \<or>
                   (\<exists>r. find (\<lambda>r. path r = file_path f) remoteMD5 = Some r \<and>
                        md5Hash e (file_uri f) \<noteq> Inr (md5 r))) localFiles)"
    by (simp add: needs_upload_cases)
  have "filter (\<lambda>r. \<not> list_ex (\<lambda>l. path r = file_path l) localFiles) remoteMD5 =
        filter (\<lambda>r. \<forall>f\<in>set localFiles. file_path f \<noteq> path r) remoteMD5"
    by (rule filter_cong) (auto simp: list_ex_iff)
  then show "deletions = map path (filter (\<lambda>r. \<forall>f\<in>set localFiles. file_path f \<noteq> path r) remoteMD5)"
    unfolding d compare_toDelete_def by (rule arg_cong)
qed





section \<open>A run of the hash synchronizer on a remote directory that is not empty\<close>

text \<open>
  The state in which the plan is computed: after the line count, the remote hash listing
  and the workspace search, with the steps of the watcher's handlers that ran while each
  of the three was awaited.
\<close>

lemma deployCompare_nonempty:
  assumes "connected e" "md5sum_feature e"
    and "sendCommand_stdout e (line_count_command p) = Inr n" "n \<noteq> ''0''"
  shows "deployCompare e p s = compare_sync e p (await e (SendCommand (line_count_command p)) s)"
  using assms
  by (simp add: deployCompare_def and_then_def lift_def getConnection_def sendCommand_def)

lemma compare_sync_plan:
  assumes "connected e"
    and "sendCommand_stdout e (md5sum_command p) = Inr out"
    and "parse_md5sum out = Inr remoteMD5"
  shows "compare_sync e p s =
     (let s4 = await e (FindFiles (fsPath (folder_uri (workspaceFolder p))) ''**/*'' (Some ''**/.git*''))
                 (emit (ProgressReport (Some ''creating transfer list'') (Some 25))
                   (await e (SendCommand (md5sum_command p))
                     (emits [WithProgress (''Synchronizing '' @
                                path_basename e (uri_path (folder_uri (workspaceFolder p)))),
                             LogLine ''Starting MD5 synchronization transfer'',
                             ProgressReport (Some ''creating remote MD5 hash list'') None] s)))
      in case compare_plan e p remoteMD5
                (map (toLocalFile p)
                   (filter (findFiles_kept e p)
                      (vscode_findFiles e (fsPath (folder_uri (workspaceFolder p))) ''**/*''
                         (Some ''**/.git*'')))) of
           Inl err \<Rightarrow> (Inl err, s4)
         | Inr plan \<Rightarrow> compare_apply e p plan s4)"
  using assms
  by (simp add: compare_sync_def Let_def and_then_def tell_def lift_def getConnection_def
      sendCommand_def findFiles_def emit_def split: sum.splits)









section \<open>Runs in which no watcher event arrives and no remote command fails\<close>

lemma emits_emits: "emits b (emits a s) = emits (a @ b) s"
  by (simp add: emits_def)

lemma emits_emit: "emits b (emit a s) = emits (a # b) s"
  by (simp add: emits_def emit_def)

lemma emit_emits: "emit b (emits a s) = emits (a @ [b]) s"
  by (simp add: emits_def emit_def)

lemma quiet_await: "arrivals e call = [] \<Longrightarrow> await e call s = emits [call] s"
  by (simp add: await_def deliver_def emit_def emits_def)

lemma quiet_sendCommand:
  "connected e \<Longrightarrow> arrivals e (SendCommand cmd) = [] \<Longrightarrow>
   sendCommand e cmd s = (sendCommand_stdout e cmd, emits [SendCommand cmd] s)"
  by (simp add: sendCommand_def getConnection_def quiet_await)

lemma quiet_putFiles:
  "connected e \<Longrightarrow> has_client e \<Longrightarrow> arrivals e (PutFiles ups) = [] \<Longrightarrow>
   putFiles_result e ups = None \<Longrightarrow>
   putFiles e ups s = (Inr (), emits [PutFiles ups] s)"
  by (simp add: putFiles_def getClient_def getConnection_def quiet_await)

lemma quiet_compare_delete:
  assumes "connected e" "\<forall>call. arrivals e call = []"
    and "\<forall>cmd. \<exists>out. sendCommand_stdout e cmd = Inr out"
  shows "compare_delete e p deletions s =
     (Inr (), emits
        (if deletions = [] then [ProgressReport None (Some 25)]
         else [ProgressReport
                 (Some (''deleting '' @ show_nat (length deletions) @ '' remote file(s)'')) (Some 25),
               LogLine ([CHR 0x0A] @ ''Deleted:'' @ [CHR 0x0A, CHR 0x09] @
                        join [CHR 0x0A, CHR 0x09] deletions @ [CHR 0x0A]),
               SendCommand (rm_command p deletions)]) s)"
proof -
  obtain out where "sendCommand_stdout e (rm_command p deletions) = Inr out"
    using assms(3) by blast
  then show ?thesis
    using assms(1,2)
    by (simp add: compare_delete_def and_then_def tell_def lift_def quiet_sendCommand emits_emits)
qed

lemma quiet_compare_upload:
  assumes "connected e" "has_client e" "\<forall>call. arrivals e call = []"
    and "\<forall>cmd. \<exists>out. sendCommand_stdout e cmd = Inr out"
    and "putFiles_result e uploads = None"
  shows "compare_upload e p uploads s =
     (Inr (), emits
        (if uploads = [] then [ProgressReport None (Some 25)]
         else [ProgressReport (Some ''creating remote folders'') (Some 10),
               SendCommand (mkdirs_command e uploads),
               ProgressReport (Some (''uploading '' @ show_nat (length uploads) @ '' file(s)''))
                 (Some 15),
               LogLine ([CHR 0x0A] @ ''Uploaded:'' @ [CHR 0x0A, CHR 0x09] @
                        join [CHR 0x0A, CHR 0x09] (map snd uploads) @ [CHR 0x0A]),
               PutFiles uploads]) s)"
proof -
  obtain out where "sendCommand_stdout e (mkdirs_command e uploads) = Inr out"
    using assms(4) by blast
  then show ?thesis
    using assms(1,2,3,5)
    by (simp add: compare_upload_def and_then_def tell_def quiet_sendCommand quiet_putFiles
        emits_emits)
qed

lemma quiet_compare_run:
  assumes conn: "connected e" and client: "has_client e" and feat: "md5sum_feature e"
    and quiet: "\<forall>call. arrivals e call = []"
    and ok: "\<forall>cmd. \<exists>out. sendCommand_stdout e cmd = Inr out"
    and lc: "sendCommand_stdout e (line_count_command p) = Inr n" and ne: "n \<noteq> ''0''"
    and md: "sendCommand_stdout e (md5sum_command p) = Inr out"
    and parse: "parse_md5sum out = Inr remoteMD5"
    and lf: "localFiles = map (toLocalFile p)
               (filter (findFiles_kept e p)
                  (vscode_findFiles e (fsPath (folder_uri (workspaceFolder p))) ''**/*''
                     (Some ''**/.git*'')))"
    and pl: "compare_plan e p remoteMD5 localFiles = Inr (uploads, deletions)"
    and put: "putFiles_result e uploads = None"
  shows "deployCompare e p s =
     (Inr (), emits
        ([SendCommand (line_count_command p),
          WithProgress (''Synchronizing '' @
                          path_basename e (uri_path (folder_uri (workspaceFolder p)))),
          LogLine ''Starting MD5 synchronization transfer'',
          ProgressReport (Some ''creating remote MD5 hash list'') None,
          SendCommand (md5sum_command p),
          ProgressReport (Some ''creating transfer list'') (Some 25),
          FindFiles (fsPath (folder_uri (workspaceFolder p))) ''**/*'' (Some ''**/.git*'')] @
         (if deletions = [] then [ProgressReport None (Some 25)]
          else [ProgressReport
                  (Some (''deleting '' @ show_nat (length deletions) @ '' remote file(s)''))
                  (Some 25),
                LogLine ([CHR 0x0A] @ ''Deleted:'' @ [CHR 0x0A, CHR 0x09] @
                         join [CHR 0x0A, CHR 0x09] deletions @ [CHR 0x0A]),
                SendCommand (rm_command p deletions)]) @
         (if uploads = [] then [ProgressReport None (Some 25)]
          else [ProgressReport (Some ''creating remote folders'') (Some 10),
                SendCommand (mkdirs_command e uploads),
                ProgressReport (Some (''uploading '' @ show_nat (length uploads) @ '' file(s)''))
                  (Some 15),
                LogLine ([CHR 0x0A] @ ''Uploaded:'' @ [CHR 0x0A, CHR 0x09] @
                         join [CHR 0x0A, CHR 0x09] (map snd uploads) @ [CHR 0x0A]),
                PutFiles uploads]) @
         [ProgressReport (Some (''removing empty folders under '' @ remotePath p)) (Some 20),
          SendCommand (rmdir_command p),
          ProgressReport None (Some 5)]) s)"
proof -
  have q: "arrivals e call = []" for call using quiet by simp
  obtain o3 where o3: "sendCommand_stdout e (rmdir_command p) = Inr o3" using ok by blast
  show ?thesis
    unfolding deployCompare_nonempty [OF conn feat lc ne] compare_sync_plan [OF conn md parse]
      Let_def lf [symmetric] pl
    by (simp add: compare_apply_def and_then_def tell_def
        quiet_compare_delete [OF conn quiet ok] quiet_compare_upload [OF conn client quiet ok put]
        quiet_sendCommand [OF conn q] o3 quiet_await [OF q] emits_emits emits_emit emit_emits)
qed

section \<open>The sample comparison\<close>













section \<open>Two trees with the same files\<close>

text \<open>
  When the local files (all readable) and the parsed remote entries give the same
  relation between relative paths and digests, and that relation is a mapping, the plan
  has no upload and no deletion, and neither the deletion step nor the upload step of
  the run does anything but report progress.
\<close>

lemma same_entries_empty_plan:
  assumes same: "local_mapping e localFiles = remote_mapping remoteMD5"
    and fn: "single_valued (remote_mapping remoteMD5)"
    and readable: "\<forall>f\<in>set localFiles. \<exists>h. md5Hash e (file_uri f) = Inr h"
  shows "compare_plan e p remoteMD5 localFiles = Inr ([], [])
     \<and> compare_delete e p [] s = (Inr (), emit (ProgressReport None (Some 25)) s)
     \<and> compare_upload e p [] s = (Inr (), emit (ProgressReport None (Some 25)) s)"
proof (intro conjI)
  from readable have "\<exists>uploads. compare_uploads e p remoteMD5 localFiles [] = Inr uploads"
    by (rule compare_uploads_total)
  then obtain uploads where "compare_uploads e p remoteMD5 localFiles [] = Inr uploads" by blast
  then have pl: "compare_plan e p remoteMD5 localFiles
                   = Inr (uploads, compare_toDelete remoteMD5 localFiles)"
    by (simp add: compare_plan_def)
  note U = compare_plan_uploads [OF pl]
  have no_upload: "\<not> ((\<forall>r\<in>set remoteMD5. path r \<noteq> file_path f) \<or>
                   (\<exists>r. find (\<lambda>r. path r = file_path f) remoteMD5 = Some r \<and>
                        md5Hash e (file_uri f) \<noteq> Inr (md5 r)))"
    if f: "f \<in> set localFiles" for f
  proof -
    from readable f obtain h where h: "md5Hash e (file_uri f) = Inr h" by blast
    with f have "(file_path f, h) \<in> local_mapping e localFiles"
      by (auto simp: local_mapping_def)
    then have in_r: "(file_path f, h) \<in> remote_mapping remoteMD5" using same by simp
    then obtain r where r: "r \<in> set remoteMD5" "path r = file_path f" "md5 r = h"
      by (auto simp: remote_mapping_def)
    have first: "md5 r' = h" if "find (\<lambda>r. path r = file_path f) remoteMD5 = Some r'" for r'
    proof -
      from find_SomeD [OF that] have "r' \<in> set remoteMD5" and pr: "path r' = file_path f"
        by simp_all
      then have "(path r', md5 r') \<in> remote_mapping remoteMD5"
        unfolding remote_mapping_def by blast
      then have "(file_path f, md5 r') \<in> remote_mapping remoteMD5" unfolding pr .
      with in_r fn show ?thesis by (auto dest: single_valuedD)
    qed
    show ?thesis using r h first by auto
  qed
  then have "uploads = []" unfolding U(1) by (simp add: filter_empty_conv)
  moreover have "compare_toDelete remoteMD5 localFiles = []"
  proof -
    have "\<exists>f\<in>set localFiles. file_path f = path r" if "r \<in> set remoteMD5" for r
    proof -
      from that have "(path r, md5 r) \<in> remote_mapping remoteMD5"
        by (auto simp: remote_mapping_def)
      then have "(path r, md5 r) \<in> local_mapping e localFiles" using same by simp
      then show ?thesis by (auto simp: local_mapping_def)
    qed
    then show ?thesis unfolding U(2) by (auto simp: filter_empty_conv)
  qed
  ultimately show "compare_plan e p remoteMD5 localFiles = Inr ([], [])" using pl by simp
  show "compare_delete e p [] s = (Inr (), emit (ProgressReport None (Some 25)) s)"
    by (simp add: compare_delete_def tell_def emit_def)
  show "compare_upload e p [] s = (Inr (), emit (ProgressReport None (Some 25)) s)"
    by (simp add: compare_upload_def tell_def emit_def)
qed

lemma local_mapping_Nil: "local_mapping e [] = {}"
  by (simp add: local_mapping_def)

lemma local_mapping_Cons:
  "local_mapping e (f # fs) =
     (case md5Hash e (file_uri f) of Inr h \<Rightarrow> {(file_path f, h)} | Inl _ \<Rightarrow> {})
     \<union> local_mapping e fs"
  by (cases "md5Hash e (file_uri f)") (auto simp: local_mapping_def)

lemma remote_mapping_Nil: "remote_mapping [] = {}"
  by (simp add: remote_mapping_def)

lemma remote_mapping_Cons: "remote_mapping (r # rs) = insert (path r, md5 r) (remote_mapping rs)"
  by (auto simp: remote_mapping_def)

lemma same_entries_empty_plan_sample:
  "local_mapping ws_env ws_localFiles = remote_mapping ws_same_remoteMD5
   \<and> single_valued (remote_mapping ws_same_remoteMD5)
   \<and> compare_plan ws_env (ws_parameters compare) ws_same_remoteMD5 ws_localFiles = Inr ([], [])"
proof -
  have h: "md5Hash ws_env (file_uri_of ''/ws/a.txt'') = Inr ''aa01''"
    "md5Hash ws_env (file_uri_of ''/ws/b.txt'') = Inr ''bb02''"
    by code_simp+
  have l: "local_mapping ws_env ws_localFiles = {(''a.txt'', ''aa01''), (''b.txt'', ''bb02'')}"
    by (auto simp: ws_localFiles_def local_mapping_Cons local_mapping_Nil h)
  have r: "remote_mapping ws_same_remoteMD5 = {(''b.txt'', ''bb02''), (''a.txt'', ''aa01'')}"
    by (simp add: ws_same_remoteMD5_def remote_mapping_Cons remote_mapping_Nil)
  have same: "local_mapping ws_env ws_localFiles = remote_mapping ws_same_remoteMD5"
    unfolding l r by (rule insert_commute)
  have fn: "single_valued (remote_mapping ws_same_remoteMD5)"
    unfolding r by (auto simp: single_valued_def)
  have readable: "\<forall>f\<in>set ws_localFiles. \<exists>h. md5Hash ws_env (file_uri f) = Inr h"
    by (simp add: ws_localFiles_def h)
  from same_entries_empty_plan [OF same fn readable, of "ws_parameters compare" idle]
  show ?thesis using same fn by blast
qed

lemma ws_spaced_session:
  "connected ws_spaced_env" "has_client ws_spaced_env" "md5sum_feature ws_spaced_env"
  "\<forall>call. arrivals ws_spaced_env call = []"
  "\<forall>cmd. \<exists>out. sendCommand_stdout ws_spaced_env cmd = Inr out"
  "putFiles_result ws_spaced_env ups = None"
  "connected ws_split_env" "has_client ws_split_env" "md5sum_feature ws_split_env"
  "\<forall>call. arrivals ws_split_env call = []"
  "\<forall>cmd. \<exists>out. sendCommand_stdout ws_split_env cmd = Inr out"
  "putFiles_result ws_split_env ups = None"
  by (simp_all add: ws_split_env_def ws_spaced_env_def ws_env_def)

lemma ws_spaced_stdout:
  "sendCommand_stdout ws_spaced_env (line_count_command p) = Inr ''2''"
  "sendCommand_stdout ws_spaced_env (md5sum_command p) = Inr (md5sum_lines ws_spaced_tree)"
  "sendCommand_stdout ws_split_env (line_count_command p) = Inr ''2''"
  "sendCommand_stdout ws_split_env (md5sum_command p) = Inr (md5sum_lines [(''a.txt'', ''aa01'')])"
  by (simp_all add: ws_split_env_def ws_spaced_env_def ws_env_def line_count_command_def
      md5sum_command_def)

lemma ws_spaced_listing:
  "md5sum_lines ws_spaced_tree = ''aa01  ./a.txt'' @ [CHR 0x0A] @ ''dd04  ./my file.txt''"
  "md5sum_lines [(''a.txt'', ''aa01'')] = ''aa01  ./a.txt''"
  by (simp_all add: md5sum_lines_def ws_spaced_tree_def)

lemma ws_spaced_parse:
  "parse_md5sum (md5sum_lines ws_spaced_tree) =
     Inr [\<lparr>path = ''a.txt'', md5 = ''aa01''\<rparr>, \<lparr>path = ''my'', md5 = ''dd04''\<rparr>]"
  "parse_md5sum (md5sum_lines [(''a.txt'', ''aa01'')]) = Inr [\<lparr>path = ''a.txt'', md5 = ''aa01''\<rparr>]"
  by code_simp+

lemma ws_spaced_found:
  "vscode_findFiles ws_spaced_env root inc exc =
     [file_uri_of ''/ws/a.txt'', file_uri_of ''/ws/my file.txt'']"
  "vscode_findFiles ws_split_env root inc exc =
     [file_uri_of ''/ws/a.txt'', file_uri_of ''/ws/my file.txt'']"
  by (simp_all add: ws_split_env_def ws_spaced_env_def)

lemma ws_spaced_kept:
  "findFiles_kept ws_spaced_env (ws_parameters compare) (file_uri_of ''/ws/a.txt'')"
  "findFiles_kept ws_spaced_env (ws_parameters compare) (file_uri_of ''/ws/my file.txt'')"
  "findFiles_kept ws_split_env (ws_parameters compare) (file_uri_of ''/ws/a.txt'')"
  "findFiles_kept ws_split_env (ws_parameters compare) (file_uri_of ''/ws/my file.txt'')"
  by (simp_all add: findFiles_kept_def ws_parameters_def ws_split_env_def ws_spaced_env_def
      ws_env_def ws_def file_uri_of_def toRelative_def ignores_def launchDeploy_ignoreRules_def
      ignore_add_def createRule_def startsWith_def backslashes_to_slashes_def sample_matches_def
      toLowerCase_def)

lemma ws_spaced_toLocalFile:
  "toLocalFile (ws_parameters compare) (file_uri_of ''/ws/a.txt'') =
     \<lparr>file_uri = file_uri_of ''/ws/a.txt'', file_path = ''a.txt''\<rparr>"
  "toLocalFile (ws_parameters compare) (file_uri_of ''/ws/my file.txt'') =
     \<lparr>file_uri = file_uri_of ''/ws/my file.txt'', file_path = ''my file.txt''\<rparr>"
  by code_simp+

lemma ws_spaced_root: "fsPath (folder_uri (workspaceFolder (ws_parameters compare))) = ''/ws''"
  by (simp add: ws_parameters_def ws_def file_uri_of_def)

lemma ws_spaced_localFiles:
  "ws_spaced_localFiles = map (toLocalFile (ws_parameters compare))
     (filter (findFiles_kept ws_spaced_env (ws_parameters compare))
        (vscode_findFiles ws_spaced_env (fsPath (folder_uri (workspaceFolder (ws_parameters compare))))
           ''**/*'' (Some ''**/.git*'')))"
  "ws_spaced_localFiles = map (toLocalFile (ws_parameters compare))
     (filter (findFiles_kept ws_split_env (ws_parameters compare))
        (vscode_findFiles ws_split_env (fsPath (folder_uri (workspaceFolder (ws_parameters compare))))
           ''**/*'' (Some ''**/.git*'')))"
  by (simp_all add: ws_spaced_found ws_spaced_kept ws_spaced_toLocalFile ws_spaced_localFiles_def)

lemma ws_spaced_md5Hash:
  "md5Hash ws_spaced_env (file_uri_of ''/ws/a.txt'') = Inr ''aa01''"
  "md5Hash ws_spaced_env (file_uri_of ''/ws/my file.txt'') = Inr ''dd04''"
  by code_simp+

lemma ws_spaced_mapping:
  "local_mapping ws_spaced_env ws_spaced_localFiles = set ws_spaced_tree"
  by (auto simp: ws_spaced_localFiles_def local_mapping_Cons local_mapping_Nil ws_spaced_md5Hash
      ws_spaced_tree_def)

lemma ws_spaced_plan:
  "compare_plan ws_spaced_env (ws_parameters compare)
     [\<lparr>path = ''a.txt'', md5 = ''aa01''\<rparr>, \<lparr>path = ''my'', md5 = ''dd04''\<rparr>] ws_spaced_localFiles =
     Inr ([(''/ws/my file.txt'', ''/home/dev/ws/my file.txt'')], [''my''])"
  "compare_plan ws_split_env (ws_parameters compare)
     [\<lparr>path = ''a.txt'', md5 = ''aa01''\<rparr>] ws_spaced_localFiles =
     Inr ([(''/ws/my file.txt'', ''/home/dev/ws/my file.txt'')], [])"
  by code_simp+

lemma ws_spaced_commands:
  "line_count_command (ws_parameters compare)
     = \<lparr>command = ''ls | wc -l'', directory = Some ''/home/dev/ws''\<rparr>"
  "md5sum_command (ws_parameters compare)
     = \<lparr>command = ''/QOpenSys/pkgs/bin/md5sum $(find . -type f)'',
        directory = Some ''/home/dev/ws''\<rparr>"
  "rm_command (ws_parameters compare) [''my'']
     = \<lparr>command = ''rm -f my'', directory = Some ''/home/dev/ws''\<rparr>"
  "mkdirs_command ws_spaced_env [(''/ws/my file.txt'', ''/home/dev/ws/my file.txt'')]
     = \<lparr>command = ''[ -d /home/dev/ws ] || mkdir -p /home/dev/ws'', directory = None\<rparr>"
  "mkdirs_command ws_split_env [(''/ws/my file.txt'', ''/home/dev/ws/my file.txt'')]
     = \<lparr>command = ''[ -d /home/dev/ws ] || mkdir -p /home/dev/ws'', directory = None\<rparr>"
  "rmdir_command (ws_parameters compare)
     = \<lparr>command = ''find . -depth -type d -exec rmdir {} + 2>/dev/null'',
        directory = Some ''/home/dev/ws''\<rparr>"
  by (simp_all add: line_count_command_def md5sum_command_def rm_command_def mkdirs_command_def
      rmdir_command_def ws_parameters_def ws_split_env_def ws_spaced_env_def ws_env_def)

lemma ws_spaced_run:
  "deployCompare ws_spaced_env (ws_parameters compare) idle =
    (Inr (),
     \<lparr>workspaceChanges = (\<lambda>_. None),
      trace =
     [SendCommand \<lparr>command = ''ls | wc -l'', directory = Some ''/home/dev/ws''\<rparr>,
      WithProgress ''Synchronizing ws'',
      LogLine ''Starting MD5 synchronization transfer'',
      ProgressReport (Some ''creating remote MD5 hash list'') None,
      SendCommand \<lparr>command = ''/QOpenSys/pkgs/bin/md5sum $(find . -type f)'',
                   directory = Some ''/home/dev/ws''\<rparr>,
      ProgressReport (Some ''creating transfer list'') (Some 25),
      FindFiles ''/ws'' ''**/*'' (Some ''**/.git*''),
      ProgressReport (Some ''deleting 1 remote file(s)'') (Some 25),
      LogLine ([CHR 0x0A] @ ''Deleted:'' @ [CHR 0x0A, CHR 0x09] @ ''my'' @ [CHR 0x0A]),
      SendCommand \<lparr>command = ''rm -f my'', directory = Some ''/home/dev/ws''\<rparr>,
      ProgressReport (Some ''creating remote folders'') (Some 10),
      SendCommand \<lparr>command = ''[ -d /home/dev/ws ] || mkdir -p /home/dev/ws'', directory = None\<rparr>,
      ProgressReport (Some ''uploading 1 file(s)'') (Some 15),
      LogLine ([CHR 0x0A] @ ''Uploaded:'' @ [CHR 0x0A, CHR 0x09] @ ''/home/dev/ws/my file.txt''
               @ [CHR 0x0A]),
      PutFiles [(''/ws/my file.txt'', ''/home/dev/ws/my file.txt'')],
      ProgressReport (Some ''removing empty folders under /home/dev/ws'') (Some 20),
      SendCommand \<lparr>command = ''find . -depth -type d -exec rmdir {} + 2>/dev/null'',
                   directory = Some ''/home/dev/ws''\<rparr>,
      ProgressReport None (Some 5)]\<rparr>)"
proof -
  have nm: "path_basename ws_spaced_env (uri_path (folder_uri (workspaceFolder (ws_parameters compare)))) = ''ws''"
    by (simp add: ws_parameters_def ws_def file_uri_of_def ws_spaced_env_def ws_env_def)
  have rp: "remotePath (ws_parameters compare) = ''/home/dev/ws''"
    by (simp add: ws_parameters_def)
  have ne: "''2'' \<noteq> ''0''" by simp
  show ?thesis
    unfolding quiet_compare_run [OF ws_spaced_session(1,2,3,4,5) ws_spaced_stdout(1) ne
        ws_spaced_stdout(2) ws_spaced_parse(1) ws_spaced_localFiles(1) ws_spaced_plan(1)
        ws_spaced_session(6)]
    by (simp add: ws_spaced_commands ws_spaced_root nm rp show_nat_1 idle_def emits_def)
qed

lemma ws_split_run:
  "deployCompare ws_split_env (ws_parameters compare) idle =
    (Inr (),
     \<lparr>workspaceChanges = (\<lambda>_. None),
      trace =
     [SendCommand \<lparr>command = ''ls | wc -l'', directory = Some ''/home/dev/ws''\<rparr>,
      WithProgress ''Synchronizing ws'',
      LogLine ''Starting MD5 synchronization transfer'',
      ProgressReport (Some ''creating remote MD5 hash list'') None,
      SendCommand \<lparr>command = ''/QOpenSys/pkgs/bin/md5sum $(find . -type f)'',
                   directory = Some ''/home/dev/ws''\<rparr>,
      ProgressReport (Some ''creating transfer list'') (Some 25),
      FindFiles ''/ws'' ''**/*'' (Some ''**/.git*''),
      ProgressReport None (Some 25),
      ProgressReport (Some ''creating remote folders'') (Some 10),
      SendCommand \<lparr>command = ''[ -d /home/dev/ws ] || mkdir -p /home/dev/ws'', directory = None\<rparr>,
      ProgressReport (Some ''uploading 1 file(s)'') (Some 15),
      LogLine ([CHR 0x0A] @ ''Uploaded:'' @ [CHR 0x0A, CHR 0x09] @ ''/home/dev/ws/my file.txt''
               @ [CHR 0x0A]),
      PutFiles [(''/ws/my file.txt'', ''/home/dev/ws/my file.txt'')],
      ProgressReport (Some ''removing empty folders under /home/dev/ws'') (Some 20),
      SendCommand \<lparr>command = ''find . -depth -type d -exec rmdir {} + 2>/dev/null'',
                   directory = Some ''/home/dev/ws''\<rparr>,
      ProgressReport None (Some 5)]\<rparr>)"
proof -
  have nm: "path_basename ws_split_env (uri_path (folder_uri (workspaceFolder (ws_parameters compare)))) = ''ws''"
    by (simp add: ws_parameters_def ws_def file_uri_of_def ws_split_env_def ws_spaced_env_def
        ws_env_def)
  have rp: "remotePath (ws_parameters compare) = ''/home/dev/ws''"
    by (simp add: ws_parameters_def)
  have ne: "''2'' \<noteq> ''0''" by simp
  show ?thesis
    unfolding quiet_compare_run [OF ws_spaced_session(7,8,9,10,11) ws_spaced_stdout(3) ne
        ws_spaced_stdout(4) ws_spaced_parse(2) ws_spaced_localFiles(2) ws_spaced_plan(2)
        ws_spaced_session(12)]
    by (simp add: ws_spaced_commands ws_spaced_root nm rp show_nat_1 idle_def emits_def)
qed

text \<open>
  Claim C6 fails on file names with a blank. The local and the remote tree both hold
  \<open>a.txt\<close> and \<open>my file.txt\<close>, with the same digests. \<open>toMD5Entry\<close> splits the line
  of \<open>my file.txt\<close> at the blank inside the name and keeps \<open>my\<close> as the path, so the
  run schedules the deletion of \<open>my\<close> and the upload of \<open>my file.txt\<close>, and sends
  both. When the listing has no line for \<open>my file.txt\<close> (the shell split the name
  before \<open>md5sum\<close> saw it), the run still uploads \<open>my file.txt\<close>. In both runs the
  plan is not empty, and it is the same on every later run.
\<close>

theorem spaced_name_breaks_idempotence:
  "local_mapping ws_spaced_env
      (map (toLocalFile (ws_parameters compare))
         (filter (findFiles_kept ws_spaced_env (ws_parameters compare))
            (vscode_findFiles ws_spaced_env
               (fsPath (folder_uri (workspaceFolder (ws_parameters compare))))
               ''**/*'' (Some ''**/.git*''))))
     = set ws_spaced_tree
   \<and> sendCommand_stdout ws_spaced_env (md5sum_command (ws_parameters compare))
       = Inr (md5sum_lines ws_spaced_tree)
   \<and> md5sum_lines ws_spaced_tree = ''aa01  ./a.txt'' @ [CHR 0x0A] @ ''dd04  ./my file.txt''
   \<and> toMD5Entry ''dd04  ./my file.txt'' = Inr \<lparr>path = ''my'', md5 = ''dd04''\<rparr>
   \<and> parse_md5sum (md5sum_lines ws_spaced_tree) =
       Inr [\<lparr>path = ''a.txt'', md5 = ''aa01''\<rparr>, \<lparr>path = ''my'', md5 = ''dd04''\<rparr>]
   \<and> compare_plan ws_spaced_env (ws_parameters compare)
        [\<lparr>path = ''a.txt'', md5 = ''aa01''\<rparr>, \<lparr>path = ''my'', md5 = ''dd04''\<rparr>]
        (map (toLocalFile (ws_parameters compare))
           (filter (findFiles_kept ws_spaced_env (ws_parameters compare))
              (vscode_findFiles ws_spaced_env
                 (fsPath (folder_uri (workspaceFolder (ws_parameters compare))))
                 ''**/*'' (Some ''**/.git*''))))
       = Inr ([(''/ws/my file.txt'', ''/home/dev/ws/my file.txt'')], [''my''])
   \<and> fst (deployCompare ws_spaced_env (ws_parameters compare) idle) = Inr ()
   \<and> filter (\<lambda>ef. is_transfer ef \<or> is_command ef)
        (effects_since idle (snd (deployCompare ws_spaced_env (ws_parameters compare) idle)))
       = [SendCommand \<lparr>command = ''ls | wc -l'', directory = Some ''/home/dev/ws''\<rparr>,
          SendCommand \<lparr>command = ''/QOpenSys/pkgs/bin/md5sum $(find . -type f)'',
                       directory = Some ''/home/dev/ws''\<rparr>,
          SendCommand \<lparr>command = ''rm -f my'', directory = Some ''/home/dev/ws''\<rparr>,
          SendCommand \<lparr>command = ''[ -d /home/dev/ws ] || mkdir -p /home/dev/ws'',
                       directory = None\<rparr>,
          PutFiles [(''/ws/my file.txt'', ''/home/dev/ws/my file.txt'')],
          SendCommand \<lparr>command = ''find . -depth -type d -exec rmdir {} + 2>/dev/null'',
                       directory = Some ''/home/dev/ws''\<rparr>]
   \<and> sendCommand_stdout ws_split_env (md5sum_command (ws_parameters compare))
       = Inr ''aa01  ./a.txt''
   \<and> fst (deployCompare ws_split_env (ws_parameters compare) idle) = Inr ()
   \<and> filter (\<lambda>ef. is_transfer ef \<or> is_command ef)
        (effects_since idle (snd (deployCompare ws_split_env (ws_parameters compare) idle)))
       = [SendCommand \<lparr>command = ''ls | wc -l'', directory = Some ''/home/dev/ws''\<rparr>,
          SendCommand \<lparr>command = ''/QOpenSys/pkgs/bin/md5sum $(find . -type f)'',
                       directory = Some ''/home/dev/ws''\<rparr>,
          SendCommand \<lparr>command = ''[ -d /home/dev/ws ] || mkdir -p /home/dev/ws'',
                       directory = None\<rparr>,
          PutFiles [(''/ws/my file.txt'', ''/home/dev/ws/my file.txt'')],
          SendCommand \<lparr>command = ''find . -depth -type d -exec rmdir {} + 2>/dev/null'',
                       directory = Some ''/home/dev/ws''\<rparr>]"
proof -
  have entry: "toMD5Entry ''dd04  ./my file.txt'' = Inr \<lparr>path = ''my'', md5 = ''dd04''\<rparr>"
    by code_simp
  have r1: "fst (deployCompare ws_spaced_env (ws_parameters compare) idle) = Inr ()"
    and t1: "filter (\<lambda>ef. is_transfer ef \<or> is_command ef)
        (effects_since idle (snd (deployCompare ws_spaced_env (ws_parameters compare) idle)))
       = [SendCommand \<lparr>command = ''ls | wc -l'', directory = Some ''/home/dev/ws''\<rparr>,
          SendCommand \<lparr>command = ''/QOpenSys/pkgs/bin/md5sum $(find . -type f)'',
                       directory = Some ''/home/dev/ws''\<rparr>,
          SendCommand \<lparr>command = ''rm -f my'', directory = Some ''/home/dev/ws''\<rparr>,
          SendCommand \<lparr>command = ''[ -d /home/dev/ws ] || mkdir -p /home/dev/ws'',
                       directory = None\<rparr>,
          PutFiles [(''/ws/my file.txt'', ''/home/dev/ws/my file.txt'')],
          SendCommand \<lparr>command = ''find . -depth -type d -exec rmdir {} + 2>/dev/null'',
                       directory = Some ''/home/dev/ws''\<rparr>]"
    unfolding ws_spaced_run by (simp_all add: effects_since_def idle_def)
  have r2: "fst (deployCompare ws_split_env (ws_parameters compare) idle) = Inr ()"
    and t2: "filter (\<lambda>ef. is_transfer ef \<or> is_command ef)
        (effects_since idle (snd (deployCompare ws_split_env (ws_parameters compare) idle)))
       = [SendCommand \<lparr>command = ''ls | wc -l'', directory = Some ''/home/dev/ws''\<rparr>,
          SendCommand \<lparr>command = ''/QOpenSys/pkgs/bin/md5sum $(find . -type f)'',
                       directory = Some ''/home/dev/ws''\<rparr>,
          SendCommand \<lparr>command = ''[ -d /home/dev/ws ] || mkdir -p /home/dev/ws'',
                       directory = None\<rparr>,
          PutFiles [(''/ws/my file.txt'', ''/home/dev/ws/my file.txt'')],
          SendCommand \<lparr>command = ''find . -depth -type d -exec rmdir {} + 2>/dev/null'',
                       directory = Some ''/home/dev/ws''\<rparr>]"
    unfolding ws_split_run by (simp_all add: effects_since_def idle_def)
  note lf = ws_spaced_localFiles(1) [symmetric]
  from ws_spaced_mapping [unfolded ws_spaced_localFiles(1)] ws_spaced_stdout(2) ws_spaced_listing(1)
    entry ws_spaced_parse(1) ws_spaced_plan(1) [unfolded ws_spaced_localFiles(1)] r1 t1
    ws_spaced_stdout(4) [unfolded ws_spaced_listing(2)] r2 t2
  show ?thesis by (intro conjI) assumption+
qed

section \<open>The rule set of the ignore filter\<close>













section \<open>Watcher events during a deployment\<close>

lemmas ws_inflight_eval =
  ws_late_env_def ws_early_env_def ws_eval onDidChange_def getChangesMap_def invalidFs_def

lemma ws_late_deploy:
  "deploy ws_late_env (ws_parameters changed) ws_pending =
     (True,
      \<lparr>workspaceChanges = (\<lambda>_. None)(ws \<mapsto> []),
       trace = [LogClear, ButtonText BUTTON_WORKING,
                SendCommand \<lparr>command = ''mkdir -p '' @ [CHR 0x22] @ ''/home/dev/ws'' @ [CHR 0x22],
                             directory = None\<rparr>,
                LogLine ''UPLOADING: /ws/b.txt -> /home/dev/ws/b.txt'',
                PutFiles [(''/ws/b.txt'', ''/home/dev/ws/b.txt'')],
                Watch (DidChange (file_uri_of ''/ws/c.md'')),
                LogLine ''Deployment finished.'',
                InformationMessage ''Deployment finished.'',
                ButtonText BUTTON_BASE]\<rparr>)"
  by (simp add: ws_inflight_eval)

lemma ws_early_deploy:
  "deploy ws_early_env (ws_parameters changed) ws_pending =
     (True,
      \<lparr>workspaceChanges = (\<lambda>_. None)(ws \<mapsto> []),
       trace = [LogClear, ButtonText BUTTON_WORKING,
                SendCommand \<lparr>command = ''mkdir -p '' @ [CHR 0x22] @ ''/home/dev/ws'' @ [CHR 0x22],
                             directory = None\<rparr>,
                Watch (DidChange (file_uri_of ''/ws/c.md'')),
                LogLine ''UPLOADING: /ws/b.txt -> /home/dev/ws/b.txt'',
                LogLine ''UPLOADING: /ws/c.md -> /home/dev/ws/c.md'',
                PutFiles [(''/ws/b.txt'', ''/home/dev/ws/b.txt''), (''/ws/c.md'', ''/home/dev/ws/c.md'')],
                LogLine ''Deployment finished.'',
                InformationMessage ''Deployment finished.'',
                ButtonText BUTTON_BASE]\<rparr>)"
  by (simp add: ws_inflight_eval)

lemma ws_late_recorded:
  "on_event ws_late_env (DidChange (file_uri_of ''/ws/c.md'')) (workspaceChanges ws_pending) ws =
     Some [(''/ws/b.txt'', file_uri_of ''/ws/b.txt''), (''/ws/c.md'', file_uri_of ''/ws/c.md'')]"
  by (simp add: ws_inflight_eval)

text \<open>
  Claim C3 as stated fails, both ways. In the first run \<open>c.md\<close> changes while
  \<open>putFiles\<close> is awaited: the handler records it, the run uploads \<open>b.txt\<close> only,
  succeeds and clears the map, so \<open>c.md\<close> is neither uploaded nor pending afterwards.
  In the second run \<open>c.md\<close> changes while the remote \<open>mkdir\<close> is awaited, after the
  invocation started: the current run uploads it.
\<close>

theorem inflight_event_consumed_or_lost:
  "fst (deploy ws_late_env (ws_parameters changed) ws_pending)
   \<and> effects_since ws_pending (snd (deploy ws_late_env (ws_parameters changed) ws_pending)) =
       [LogClear, ButtonText BUTTON_WORKING,
        SendCommand \<lparr>command = ''mkdir -p '' @ [CHR 0x22] @ ''/home/dev/ws'' @ [CHR 0x22],
                     directory = None\<rparr>,
        LogLine ''UPLOADING: /ws/b.txt -> /home/dev/ws/b.txt'',
        PutFiles [(''/ws/b.txt'', ''/home/dev/ws/b.txt'')],
        Watch (DidChange (file_uri_of ''/ws/c.md'')),
        LogLine ''Deployment finished.'',
        InformationMessage ''Deployment finished.'',
        ButtonText BUTTON_BASE]
   \<and> on_event ws_late_env (DidChange (file_uri_of ''/ws/c.md'')) (workspaceChanges ws_pending) ws =
       Some [(''/ws/b.txt'', file_uri_of ''/ws/b.txt''), (''/ws/c.md'', file_uri_of ''/ws/c.md'')]
   \<and> workspaceChanges (snd (deploy ws_late_env (ws_parameters changed) ws_pending)) ws = Some []
   \<and> fst (deploy ws_early_env (ws_parameters changed) ws_pending)
   \<and> effects_since ws_pending (snd (deploy ws_early_env (ws_parameters changed) ws_pending)) =
       [LogClear, ButtonText BUTTON_WORKING,
        SendCommand \<lparr>command = ''mkdir -p '' @ [CHR 0x22] @ ''/home/dev/ws'' @ [CHR 0x22],
                     directory = None\<rparr>,
        Watch (DidChange (file_uri_of ''/ws/c.md'')),
        LogLine ''UPLOADING: /ws/b.txt -> /home/dev/ws/b.txt'',
        LogLine ''UPLOADING: /ws/c.md -> /home/dev/ws/c.md'',
        PutFiles [(''/ws/b.txt'', ''/home/dev/ws/b.txt''), (''/ws/c.md'', ''/home/dev/ws/c.md'')],
        LogLine ''Deployment finished.'',
        InformationMessage ''Deployment finished.'',
        ButtonText BUTTON_BASE]
   \<and> workspaceChanges (snd (deploy ws_early_env (ws_parameters changed) ws_pending)) ws = Some []"
  unfolding ws_late_deploy ws_early_deploy ws_late_recorded
  by (simp add: effects_since_def ws_pending_def)

lemma not_PutFiles_Watch: "PutFiles ups \<notin> set (map Watch evs)"
  by (induction evs) auto

lemma deploy_changed_PutFiles:
  assumes m: "method p = changed"
    and pf: "PutFiles ups \<in> set (effects_since s (snd (deploy e p s)))"
  shows "\<exists>changes.
           on_events e
             (arrivals e (SendCommand \<lparr>command = ''mkdir -p '' @ [CHR 0x22] @ remotePath p @ [CHR 0x22],
                                        directory = None\<rparr>))
             (workspaceChanges s) (workspaceFolder p) = Some changes \<and>
           ups = transfers (deployChanged_uploads e p changes)"
proof -
  define mk where "mk = \<lparr>command = ''mkdir -p '' @ [CHR 0x22] @ remotePath p @ [CHR 0x22],
                           directory = (None :: string option)\<rparr>"
  define s1 where "s1 = emits [LogClear, ButtonText BUTTON_WORKING] s"
  define s2 where "s2 = await e (SendCommand mk) s1"
  have body: "deploy_try e p s =
      (case sendCommand e mk s1 of
         (Inl err, s') \<Rightarrow> (Inl err, s')
       | (Inr out, s') \<Rightarrow> deployChanged e p s')"
    unfolding s1_def mk_def
    by (simp add: deploy_try_def and_then_def tell_def createRemoteDirectory_def strategy_def m)
  have t1: "trace s1 = trace s @ [LogClear, ButtonText BUTTON_WORKING]"
    by (simp add: s1_def)
  have t2: "trace s2 = trace s @ [LogClear, ButtonText BUTTON_WORKING] @
              SendCommand mk # map Watch (arrivals e (SendCommand mk))"
    by (simp add: s2_def t1)
  have w2: "workspaceChanges s2 = on_events e (arrivals e (SendCommand mk)) (workspaceChanges s)"
    by (simp add: s2_def s1_def)
  consider (fail1) "\<not> connected e"
    | (fail2) err where "connected e" "sendCommand_stdout e mk = Inl err"
    | (run) out where "connected e" "sendCommand_stdout e mk = Inr out"
    by (cases "sendCommand_stdout e mk") auto
  then show ?thesis
  proof cases
    case fail1
    then have "deploy_try e p s = (Inl not_connected, s1)"
      by (simp add: body sendCommand_def getConnection_def)
    then have "effects_since s (snd (deploy e p s)) =
        [LogClear, ButtonText BUTTON_WORKING, ErrorMessage ''Deployment failed.'',
         LogLine (''Deployment failed: '' @ error_toString not_connected), ButtonText BUTTON_BASE]"
      by (simp add: deploy_def effects_since_def t1)
    with pf show ?thesis by simp
  next
    case fail2
    then have "deploy_try e p s = (Inl err, s2)"
      by (simp add: body sendCommand_def getConnection_def s2_def)
    then have "effects_since s (snd (deploy e p s)) =
        [LogClear, ButtonText BUTTON_WORKING] @
        SendCommand mk # map Watch (arrivals e (SendCommand mk)) @
        [ErrorMessage ''Deployment failed.'',
         LogLine (''Deployment failed: '' @ error_toString err), ButtonText BUTTON_BASE]"
      by (simp add: deploy_def effects_since_def t2)
    with pf show ?thesis by (auto simp: not_PutFiles_Watch)
  next
    case run
    then have tr: "deploy_try e p s = deployChanged e p s2"
      by (simp add: body sendCommand_def getConnection_def s2_def)
    obtain r s3 where d: "deployChanged e p s2 = (r, s3)" by (cases "deployChanged e p s2")
    define D where "D = effects_since s2 s3"
    have t3: "trace s3 = trace s2 @ D"
      using deployChanged_trace [of e p s2] d by (simp add: D_def effects_since_def)
    have "\<exists>post. effects_since s (snd (deploy e p s)) =
        [LogClear, ButtonText BUTTON_WORKING] @
        SendCommand mk # map Watch (arrivals e (SendCommand mk)) @ D @ post \<and>
        PutFiles ups \<notin> set post"
    proof (cases r)
      case (Inl err)
      then show ?thesis
        by (simp add: deploy_def tr d effects_since_def t3 t2)
    next
      case (Inr u)
      then show ?thesis
        by (simp add: deploy_def tr d effects_since_def t3 t2 Let_def emit_def emits_def)
    qed
    with pf have "PutFiles ups \<in> set D" by (auto simp: not_PutFiles_Watch)
    then have "PutFiles ups \<in> set (effects_since s2 (snd (deployChanged e p s2)))"
      by (simp add: D_def d)
    from deployChanged_PutFiles [OF this] show ?thesis unfolding w2 mk_def .
  qed
qed

lemma map_set_mem: "(k, v) \<in> set (map_set k v m)"
  by (induction m) auto

lemma changed_last_recorded:
  assumes "scheme u \<noteq> ''member''" "scheme u \<noteq> ''streamfile''" "\<not> str_includes (fsPath u) ''.git''"
    and "getWorkspaceFolder e u = Some folder"
  shows "\<exists>changes. on_events e (evs @ [DidChange u]) wc folder = Some changes \<and>
                   (fsPath u, u) \<in> set changes"
  using assms
  by (auto simp: on_events_append onDidChange_def getChangesMap_def invalidFs_def map_set_mem
      split: option.splits)

lemma deployChanged_transfers:
  "(l, r) \<in> set (transfers (deployChanged_uploads e p pending)) \<longleftrightarrow>
     (\<exists>k u. (k, u) \<in> set pending \<and> changedFile_kept e p u \<and> l = fsPath u \<and>
            r = path_posix_join e (remotePath p) (toRelative e (folder_uri (workspaceFolder p)) u))"
  by (force simp: transfers_def deployChanged_uploads_def toUpload_def)

lemma deploy_changed_run:
  assumes m: "method p = changed" and conn: "connected e"
    and mk: "mk = \<lparr>command = ''mkdir -p '' @ [CHR 0x22] @ remotePath p @ [CHR 0x22],
                   directory = None\<rparr>"
    and ok: "sendCommand_stdout e mk = Inr out"
    and pend: "pending =
        (case on_events e (arrivals e (SendCommand mk)) (workspaceChanges s) (workspaceFolder p) of
           Some changes \<Rightarrow> changes
         | None \<Rightarrow> [])"
    and ups: "uploads = deployChanged_uploads e p pending"
    and fl: "failure =
        (if pending = [] then None
         else if has_client e then putFiles_result e (transfers uploads)
         else Some not_connected)"
  shows "deploy e p s =
     (failure = None,
      (let s2 = await e (SendCommand mk) (emits [LogClear, ButtonText BUTTON_WORKING] s);
           s3 = (if pending = [] then s2
                 else if has_client e
                      then await e (PutFiles (transfers uploads)) (emits (map uploading_line uploads) s2)
                      else emits (map uploading_line uploads) s2)
       in case failure of
            None \<Rightarrow>
              emit (ButtonText BUTTON_BASE)
                ((emits [LogLine ''Deployment finished.'',
                         InformationMessage ''Deployment finished.''] s3)
                   \<lparr>workspaceChanges :=
                      clear_changes (workspaceFolder p) (workspaceChanges s3)\<rparr>)
          | Some err \<Rightarrow>
              emits [ErrorMessage ''Deployment failed.'',
                     LogLine (''Deployment failed: '' @ error_toString err),
                     ButtonText BUTTON_BASE] s3))"
proof -
  define s2 where "s2 = await e (SendCommand mk) (emits [LogClear, ButtonText BUTTON_WORKING] s)"
  have w2: "workspaceChanges s2 (workspaceFolder p) =
      on_events e (arrivals e (SendCommand mk)) (workspaceChanges s) (workspaceFolder p)"
    by (simp add: s2_def)
  have body: "deploy_try e p s = deployChanged e p s2"
    using conn ok unfolding s2_def mk
    by (simp add: deploy_try_def and_then_def tell_def createRemoteDirectory_def strategy_def m
        sendCommand_def getConnection_def)
  have main: "deploy e p s =
     (failure = None,
      (let s3 = (if pending = [] then s2
                 else if has_client e
                      then await e (PutFiles (transfers uploads)) (emits (map uploading_line uploads) s2)
                      else emits (map uploading_line uploads) s2)
       in case failure of
            None \<Rightarrow>
              emit (ButtonText BUTTON_BASE)
                ((emits [LogLine ''Deployment finished.'',
                         InformationMessage ''Deployment finished.''] s3)
                   \<lparr>workspaceChanges :=
                      clear_changes (workspaceFolder p) (workspaceChanges s3)\<rparr>)
          | Some err \<Rightarrow>
              emits [ErrorMessage ''Deployment failed.'',
                     LogLine (''Deployment failed: '' @ error_toString err),
                     ButtonText BUTTON_BASE] s3))"
  proof (cases "pending = []")
    case True
    then have "deployChanged e p s2 = (Inr (), s2)"
      using pend w2 by (auto simp: deployChanged_def split: option.splits)
    then show ?thesis
      using True by (simp add: deploy_def body fl Let_def)
  next
    case False
    then have c: "workspaceChanges s2 (workspaceFolder p) = Some pending"
      using pend w2 by (auto split: option.splits)
    show ?thesis
    proof (cases "has_client e")
      case no: False
      have "deployChanged e p s2 = (Inl not_connected, emits (map uploading_line uploads) s2)"
        using False c no conn
        by (simp add: deployChanged_def Let_def and_then_def tell_def putFiles_def getClient_def
            getConnection_def ups)
      then show ?thesis
        using False no by (simp add: deploy_def body fl Let_def)
    next
      case yes: True
      have d: "deployChanged e p s2 =
          ((case putFiles_result e (transfers uploads) of Some err \<Rightarrow> Inl err | None \<Rightarrow> Inr ()),
           await e (PutFiles (transfers uploads)) (emits (map uploading_line uploads) s2))"
        using False c yes conn
        by (simp add: deployChanged_def Let_def and_then_def tell_def putFiles_def getClient_def
            getConnection_def ups)
      show ?thesis
      proof (cases "putFiles_result e (transfers uploads)")
        case None
        then show ?thesis
          using False yes by (simp add: deploy_def body d fl Let_def)
      next
        case (Some err)
        then show ?thesis
          using False yes by (simp add: deploy_def body d fl Let_def)
      qed
    qed
  qed
  show ?thesis using main unfolding s2_def Let_def .
qed

text \<open>
  Claim C3, as amended. In a deployment with the "changed" strategy on a connected
  session whose remote \<open>mkdir\<close> succeeds, the pending entries of the run are those of
  the folder's live map when the strategy starts, that is after the steps of the
  watcher's handlers that ran while the \<open>mkdir\<close> was awaited: a change recorded by then
  is among them. The run logs and puts, in one \<open>putFiles\<close> call, the pending entries
  that the filter of \<open>deployChanged\<close> keeps, and it makes that call whenever an entry is
  pending and the session has a client. The steps that run while \<open>putFiles\<close> is awaited
  come after the call in the run's effects and change the live map but not what was put.
  The run succeeds exactly when nothing is pending or the call does not fail; it then
  empties the folder's live map, with whatever those steps recorded, and otherwise leaves
  the map as the handlers made it.
\<close>

theorem changed_run_reads_live_map:
  assumes m: "method p = changed" and conn: "connected e"
    and mk: "mk = \<lparr>command = ''mkdir -p '' @ [CHR 0x22] @ remotePath p @ [CHR 0x22],
                   directory = None\<rparr>"
    and ok: "sendCommand_stdout e mk = Inr out"
    and pend: "pending =
        (case on_events e (arrivals e (SendCommand mk)) (workspaceChanges s) (workspaceFolder p) of
           Some changes \<Rightarrow> changes
         | None \<Rightarrow> [])"
    and ups: "uploads = deployChanged_uploads e p pending"
    and fl: "failure =
        (if pending = [] then None
         else if has_client e then putFiles_result e (transfers uploads)
         else Some not_connected)"
  shows "effects_since s (snd (deploy e p s)) =
       [LogClear, ButtonText BUTTON_WORKING, SendCommand mk] @
       map Watch (arrivals e (SendCommand mk)) @
       (if pending = [] then []
        else map uploading_line uploads @
             (if has_client e
              then PutFiles (transfers uploads) #
                   map Watch (arrivals e (PutFiles (transfers uploads)))
              else [])) @
       (case failure of
          None \<Rightarrow> [LogLine ''Deployment finished.'', InformationMessage ''Deployment finished.'',
                   ButtonText BUTTON_BASE]
        | Some err \<Rightarrow> [ErrorMessage ''Deployment failed.'',
                       LogLine (''Deployment failed: '' @ error_toString err),
                       ButtonText BUTTON_BASE])
     \<and> (pending \<noteq> [] \<longrightarrow> has_client e \<longrightarrow>
          PutFiles (transfers uploads) \<in> set (effects_since s (snd (deploy e p s))))
     \<and> (\<forall>ups'. PutFiles ups' \<in> set (effects_since s (snd (deploy e p s))) \<longrightarrow>
           ups' = transfers uploads \<and> pending \<noteq> [] \<and> has_client e)
     \<and> (\<forall>l r. (l, r) \<in> set (transfers uploads) \<longleftrightarrow>
           (\<exists>k u. (k, u) \<in> set pending \<and> changedFile_kept e p u \<and> l = fsPath u \<and>
                  r = path_posix_join e (remotePath p)
                        (toRelative e (folder_uri (workspaceFolder p)) u)))
     \<and> (\<forall>evs u. arrivals e (SendCommand mk) = evs @ [DidChange u] \<longrightarrow>
           scheme u \<noteq> ''member'' \<longrightarrow> scheme u \<noteq> ''streamfile'' \<longrightarrow>
           \<not> str_includes (fsPath u) ''.git'' \<longrightarrow>
           getWorkspaceFolder e u = Some (workspaceFolder p) \<longrightarrow>
           (fsPath u, u) \<in> set pending)
     \<and> (fst (deploy e p s) \<longleftrightarrow> failure = None)
     \<and> workspaceChanges (snd (deploy e p s)) =
         (let live = on_events e
                       (if pending \<noteq> [] \<and> has_client e
                        then arrivals e (PutFiles (transfers uploads)) else [])
                       (on_events e (arrivals e (SendCommand mk)) (workspaceChanges s))
          in if failure = None then clear_changes (workspaceFolder p) live else live)"
proof -
  note run = deploy_changed_run [OF m conn mk ok pend ups fl]
  have eff: "effects_since s (snd (deploy e p s)) =
       [LogClear, ButtonText BUTTON_WORKING, SendCommand mk] @
       map Watch (arrivals e (SendCommand mk)) @
       (if pending = [] then []
        else map uploading_line uploads @
             (if has_client e
              then PutFiles (transfers uploads) #
                   map Watch (arrivals e (PutFiles (transfers uploads)))
              else [])) @
       (case failure of
          None \<Rightarrow> [LogLine ''Deployment finished.'', InformationMessage ''Deployment finished.'',
                   ButtonText BUTTON_BASE]
        | Some err \<Rightarrow> [ErrorMessage ''Deployment failed.'',
                       LogLine (''Deployment failed: '' @ error_toString err),
                       ButtonText BUTTON_BASE])"
    unfolding run by (cases failure) (simp_all add: effects_since_def Let_def)
  have reg: "workspaceChanges (snd (deploy e p s)) =
         (let live = on_events e
                       (if pending \<noteq> [] \<and> has_client e
                        then arrivals e (PutFiles (transfers uploads)) else [])
                       (on_events e (arrivals e (SendCommand mk)) (workspaceChanges s))
          in if failure = None then clear_changes (workspaceFolder p) live else live)"
    unfolding run by (cases failure) (simp_all add: Let_def)
  have put: "PutFiles (transfers uploads) \<in> set (effects_since s (snd (deploy e p s)))"
    if "pending \<noteq> []" "has_client e"
    unfolding eff using that by simp
  have only: "ups' = transfers uploads \<and> pending \<noteq> [] \<and> has_client e"
    if "PutFiles ups' \<in> set (effects_since s (snd (deploy e p s)))" for ups'
    using that unfolding eff
    by (cases failure) (auto simp: not_PutFiles_Watch uploading_line_def split: if_splits)
  have rec: "(fsPath u, u) \<in> set pending"
    if "arrivals e (SendCommand mk) = evs @ [DidChange u]"
      "scheme u \<noteq> ''member''" "scheme u \<noteq> ''streamfile''" "\<not> str_includes (fsPath u) ''.git''"
      "getWorkspaceFolder e u = Some (workspaceFolder p)" for evs u
    using changed_last_recorded [OF that(2,3,4,5), of evs "workspaceChanges s"]
    unfolding pend that(1) by auto
  show ?thesis
  proof (intro conjI allI impI)
    show "effects_since s (snd (deploy e p s)) =
       [LogClear, ButtonText BUTTON_WORKING, SendCommand mk] @
       map Watch (arrivals e (SendCommand mk)) @
       (if pending = [] then []
        else map uploading_line uploads @
             (if has_client e
              then PutFiles (transfers uploads) #
                   map Watch (arrivals e (PutFiles (transfers uploads)))
              else [])) @
       (case failure of
          None \<Rightarrow> [LogLine ''Deployment finished.'', InformationMessage ''Deployment finished.'',
                   ButtonText BUTTON_BASE]
        | Some err \<Rightarrow> [ErrorMessage ''Deployment failed.'',
                       LogLine (''Deployment failed: '' @ error_toString err),
                       ButtonText BUTTON_BASE])"
      by (rule eff)
    show "PutFiles (transfers uploads) \<in> set (effects_since s (snd (deploy e p s)))"
      if "pending \<noteq> []" "has_client e"
      using that by (rule put)
    show "ups' = transfers uploads"
      if "PutFiles ups' \<in> set (effects_since s (snd (deploy e p s)))" for ups'
      using only [OF that] by simp
    show "pending \<noteq> []"
      if "PutFiles ups' \<in> set (effects_since s (snd (deploy e p s)))" for ups'
      using only [OF that] by simp
    show "has_client e"
      if "PutFiles ups' \<in> set (effects_since s (snd (deploy e p s)))" for ups'
      using only [OF that] by simp
    show "(l, r) \<in> set (transfers uploads) \<longleftrightarrow>
           (\<exists>k u. (k, u) \<in> set pending \<and> changedFile_kept e p u \<and> l = fsPath u \<and>
                  r = path_posix_join e (remotePath p)
                        (toRelative e (folder_uri (workspaceFolder p)) u))" for l r
      unfolding ups by (rule deployChanged_transfers)
    show "(fsPath u, u) \<in> set pending"
      if "arrivals e (SendCommand mk) = evs @ [DidChange u]"
        "scheme u \<noteq> ''member''" "scheme u \<noteq> ''streamfile''" "\<not> str_includes (fsPath u) ''.git''"
        "getWorkspaceFolder e u = Some (workspaceFolder p)" for evs u
      using that by (rule rec)
    show "fst (deploy e p s) \<longleftrightarrow> failure = None" by (simp add: run)
    show "workspaceChanges (snd (deploy e p s)) =
         (let live = on_events e
                       (if pending \<noteq> [] \<and> has_client e
                        then arrivals e (PutFiles (transfers uploads)) else [])
                       (on_events e (arrivals e (SendCommand mk)) (workspaceChanges s))
          in if failure = None then clear_changes (workspaceFolder p) live else live)"
      by (rule reg)
  qed
qed

lemma ws_inflight_session:
  "method (ws_parameters changed) = changed"
  "connected ws_early_env" "connected ws_late_env"
  "has_client ws_early_env" "has_client ws_late_env"
  "sendCommand_stdout ws_early_env cmd = Inr (if command cmd = ''ls | wc -l'' then ''2''
        else if take 4 (command cmd) = ''/QOp'' then ws_md5sum_output else [])"
  "sendCommand_stdout ws_late_env cmd = Inr (if command cmd = ''ls | wc -l'' then ''2''
        else if take 4 (command cmd) = ''/QOp'' then ws_md5sum_output else [])"
  "putFiles_result ws_early_env ups = None" "putFiles_result ws_late_env ups = None"
  "arrivals ws_early_env (SendCommand cmd) = [DidChange (file_uri_of ''/ws/c.md'')]"
  "arrivals ws_early_env (PutFiles ups) = []"
  "arrivals ws_late_env (SendCommand cmd) = []"
  "arrivals ws_late_env (PutFiles ups) = [DidChange (file_uri_of ''/ws/c.md'')]"
  "workspaceFolder (ws_parameters changed) = ws"
  "remotePath (ws_parameters changed) = ''/home/dev/ws''"
  by (simp_all add: ws_parameters_def ws_early_env_def ws_late_env_def ws_env_def)

lemma ws_inflight_pending:
  "on_events ws_early_env [DidChange (file_uri_of ''/ws/c.md'')] (workspaceChanges ws_pending) ws
     = Some [(''/ws/b.txt'', file_uri_of ''/ws/b.txt''), (''/ws/c.md'', file_uri_of ''/ws/c.md'')]"
  "on_events ws_late_env [] (workspaceChanges ws_pending) ws
     = Some [(''/ws/b.txt'', file_uri_of ''/ws/b.txt'')]"
  "on_events ws_late_env [DidChange (file_uri_of ''/ws/c.md'')] (workspaceChanges ws_pending) ws
     = Some [(''/ws/b.txt'', file_uri_of ''/ws/b.txt''), (''/ws/c.md'', file_uri_of ''/ws/c.md'')]"
  by (simp_all add: ws_inflight_eval)

lemma ws_inflight_uploads:
  "transfers (deployChanged_uploads ws_early_env (ws_parameters changed)
      [(''/ws/b.txt'', file_uri_of ''/ws/b.txt''), (''/ws/c.md'', file_uri_of ''/ws/c.md'')])
     = [(''/ws/b.txt'', ''/home/dev/ws/b.txt''), (''/ws/c.md'', ''/home/dev/ws/c.md'')]"
  "transfers (deployChanged_uploads ws_late_env (ws_parameters changed)
      [(''/ws/b.txt'', file_uri_of ''/ws/b.txt'')])
     = [(''/ws/b.txt'', ''/home/dev/ws/b.txt'')]"
  "map uploading_line (deployChanged_uploads ws_late_env (ws_parameters changed)
      [(''/ws/b.txt'', file_uri_of ''/ws/b.txt'')])
     = [LogLine ''UPLOADING: /ws/b.txt -> /home/dev/ws/b.txt'']"
  by (simp_all add: ws_inflight_eval)

lemma ws_inflight_guards:
  "scheme (file_uri_of ''/ws/c.md'') \<noteq> ''member''"
  "scheme (file_uri_of ''/ws/c.md'') \<noteq> ''streamfile''"
  "\<not> str_includes (fsPath (file_uri_of ''/ws/c.md'')) ''.git''"
  "getWorkspaceFolder ws_early_env (file_uri_of ''/ws/c.md'') = Some (workspaceFolder (ws_parameters changed))"
  by (simp_all add: ws_inflight_eval)

theorem changed_run_reads_live_map_witness:
  "method (ws_parameters changed) = changed
   \<and> connected ws_early_env \<and> connected ws_late_env
   \<and> workspaceChanges ws_pending ws = Some [(''/ws/b.txt'', file_uri_of ''/ws/b.txt'')]
   \<and> arrivals ws_early_env
        (SendCommand \<lparr>command = ''mkdir -p '' @ [CHR 0x22] @ ''/home/dev/ws'' @ [CHR 0x22],
                       directory = None\<rparr>)
       = [DidChange (file_uri_of ''/ws/c.md'')]
   \<and> (''/ws/c.md'', file_uri_of ''/ws/c.md'')
       \<in> set [(''/ws/b.txt'', file_uri_of ''/ws/b.txt''), (''/ws/c.md'', file_uri_of ''/ws/c.md'')]
   \<and> PutFiles [(''/ws/b.txt'', ''/home/dev/ws/b.txt''), (''/ws/c.md'', ''/home/dev/ws/c.md'')]
       \<in> set (effects_since ws_pending (snd (deploy ws_early_env (ws_parameters changed) ws_pending)))
   \<and> arrivals ws_late_env (PutFiles [(''/ws/b.txt'', ''/home/dev/ws/b.txt'')])
       = [DidChange (file_uri_of ''/ws/c.md'')]
   \<and> effects_since ws_pending (snd (deploy ws_late_env (ws_parameters changed) ws_pending)) =
       [LogClear, ButtonText BUTTON_WORKING,
        SendCommand \<lparr>command = ''mkdir -p '' @ [CHR 0x22] @ ''/home/dev/ws'' @ [CHR 0x22],
                     directory = None\<rparr>,
        LogLine ''UPLOADING: /ws/b.txt -> /home/dev/ws/b.txt'',
        PutFiles [(''/ws/b.txt'', ''/home/dev/ws/b.txt'')],
        Watch (DidChange (file_uri_of ''/ws/c.md'')),
        LogLine ''Deployment finished.'',
        InformationMessage ''Deployment finished.'',
        ButtonText BUTTON_BASE]
   \<and> fst (deploy ws_late_env (ws_parameters changed) ws_pending)
   \<and> workspaceChanges (snd (deploy ws_late_env (ws_parameters changed) ws_pending)) ws = Some []"
proof -
  define mk where "mk = \<lparr>command = ''mkdir -p '' @ [CHR 0x22] @ ''/home/dev/ws'' @ [CHR 0x22],
                          directory = (None :: string option)\<rparr>"
  define b where "b = (''/ws/b.txt'', file_uri_of ''/ws/b.txt'')"
  define c where "c = (''/ws/c.md'', file_uri_of ''/ws/c.md'')"
  note S = ws_inflight_session
  have mk: "mk = \<lparr>command = ''mkdir -p '' @ [CHR 0x22] @ remotePath (ws_parameters changed) @ [CHR 0x22],
                   directory = None\<rparr>"
    by (simp add: mk_def S(15))
  have ok1: "sendCommand_stdout ws_early_env mk = Inr []"
    and ok2: "sendCommand_stdout ws_late_env mk = Inr []"
    by (simp_all add: S(6,7) mk_def)
  have pend1: "[b, c] =
        (case on_events ws_early_env (arrivals ws_early_env (SendCommand mk))
                (workspaceChanges ws_pending) (workspaceFolder (ws_parameters changed)) of
           Some changes \<Rightarrow> changes
         | None \<Rightarrow> [])"
    unfolding S(10) S(14) ws_inflight_pending(1) b_def c_def by simp
  have pend2: "[b] =
        (case on_events ws_late_env (arrivals ws_late_env (SendCommand mk))
                (workspaceChanges ws_pending) (workspaceFolder (ws_parameters changed)) of
           Some changes \<Rightarrow> changes
         | None \<Rightarrow> [])"
    unfolding S(12) S(14) ws_inflight_pending(2) b_def by simp
  have fl1: "None =
        (if [b, c] = [] then None
         else if has_client ws_early_env
              then putFiles_result ws_early_env
                     (transfers (deployChanged_uploads ws_early_env (ws_parameters changed) [b, c]))
              else Some not_connected)"
    by (simp add: S(4) S(8))
  have fl2: "None =
        (if [b] = [] then None
         else if has_client ws_late_env
              then putFiles_result ws_late_env
                     (transfers (deployChanged_uploads ws_late_env (ws_parameters changed) [b]))
              else Some not_connected)"
    by (simp add: S(5) S(9))
  note T1 = changed_run_reads_live_map [OF S(1) S(2) mk ok1 pend1 refl fl1]
  note T2 = changed_run_reads_live_map [OF S(1) S(3) mk ok2 pend2 refl fl2]
  have ne: "[b, c] \<noteq> []" by simp
  from T1 [THEN conjunct2, THEN conjunct1] ne S(4)
  have put: "PutFiles [(''/ws/b.txt'', ''/home/dev/ws/b.txt''), (''/ws/c.md'', ''/home/dev/ws/c.md'')]
       \<in> set (effects_since ws_pending (snd (deploy ws_early_env (ws_parameters changed) ws_pending)))"
    unfolding b_def c_def ws_inflight_uploads(1) by blast
  have arr: "arrivals ws_early_env (SendCommand mk) = [] @ [DidChange (file_uri_of ''/ws/c.md'')]"
    by (simp add: S(10))
  from T1 [THEN conjunct2, THEN conjunct2, THEN conjunct2, THEN conjunct2, THEN conjunct1,
      rule_format, OF arr ws_inflight_guards]
  have rec: "(''/ws/c.md'', file_uri_of ''/ws/c.md'')
       \<in> set [(''/ws/b.txt'', file_uri_of ''/ws/b.txt''), (''/ws/c.md'', file_uri_of ''/ws/c.md'')]"
    by (simp add: b_def c_def file_uri_of_def)
  from T2 [THEN conjunct1]
  have late: "effects_since ws_pending (snd (deploy ws_late_env (ws_parameters changed) ws_pending)) =
       [LogClear, ButtonText BUTTON_WORKING, SendCommand mk,
        LogLine ''UPLOADING: /ws/b.txt -> /home/dev/ws/b.txt'',
        PutFiles [(''/ws/b.txt'', ''/home/dev/ws/b.txt'')],
        Watch (DidChange (file_uri_of ''/ws/c.md'')),
        LogLine ''Deployment finished.'',
        InformationMessage ''Deployment finished.'',
        ButtonText BUTTON_BASE]"
    by (simp add: b_def ws_inflight_uploads(2,3) S(5) S(12) S(13))
  from T2 [THEN conjunct2, THEN conjunct2, THEN conjunct2, THEN conjunct2, THEN conjunct2,
      THEN conjunct1]
  have ok: "fst (deploy ws_late_env (ws_parameters changed) ws_pending)" by simp
  from T2 [THEN conjunct2, THEN conjunct2, THEN conjunct2, THEN conjunct2, THEN conjunct2,
      THEN conjunct2]
  have reg: "workspaceChanges (snd (deploy ws_late_env (ws_parameters changed) ws_pending)) =
      clear_changes ws
        (on_events ws_late_env [DidChange (file_uri_of ''/ws/c.md'')]
           (on_events ws_late_env [] (workspaceChanges ws_pending)))"
    unfolding b_def ws_inflight_uploads(2) S(12) S(13) S(14) Let_def using S(5) by simp
  have cleared:
    "workspaceChanges (snd (deploy ws_late_env (ws_parameters changed) ws_pending)) ws = Some []"
    unfolding reg clear_changes_def using ws_inflight_pending(3) by simp
  have start: "workspaceChanges ws_pending ws = Some [(''/ws/b.txt'', file_uri_of ''/ws/b.txt'')]"
    by (simp add: ws_pending_def)
  from S(1) S(2) S(3) start S(10) [of mk, unfolded mk_def] rec put
    S(13) [of "[(''/ws/b.txt'', ''/home/dev/ws/b.txt'')]"] late [unfolded mk_def] ok cleared
  show ?thesis by (intro conjI) assumption+
qed

end
